theory Spec2Isabelle
  imports Main "HOL-Library.Word"
begin

unbundle bit_operations_syntax

section \<open>Bytes, numbers and strings of the host language\<close>

text \<open>
  The decoder is TypeScript. A buffer is a list of bytes; an offset is a natural number.
  JavaScript's bitwise operators work on 32-bit two's-complement integers, so every
  accumulator that the source builds with \<^verbatim>\<open><<\<close> and \<^verbatim>\<open>|\<close> is a \<open>32 word\<close>, read back
  as a number with \<open>sint\<close>. Strings are lists of characters; a decoded text keeps one
  character per byte (exact for ASCII content, which is all that the time formats, the
  hex strings and the dotted identifiers contain).
\<close>

type_synonym byte = "8 word"
type_synonym int32 = "32 word"

definition hexDigit :: "nat \<Rightarrow> char" where
  "hexDigit d = (''0123456789abcdef'') ! (d mod 16)"

text \<open>\<^verbatim>\<open>b.toString(16).padStart(2, '0')\<close> for a byte.\<close>

definition hexByte :: "byte \<Rightarrow> string" where
  "hexByte b = [hexDigit (unat b div 16), hexDigit (unat b mod 16)]"

text \<open>\<^verbatim>\<open>bytesToHex\<close> (asn1-parser.ts, line 229).\<close>

definition bytesToHex :: "byte list \<Rightarrow> string" where
  "bytesToHex bs = concat (map hexByte bs)"

text \<open>Digits of a natural number in a radix, most significant first (\<open>0\<close> is \<open>''0''\<close>).\<close>

function digitsOf :: "nat \<Rightarrow> nat \<Rightarrow> string" where
  "digitsOf radix n =
     (if n < radix \<or> radix < 2 then [hexDigit n]
      else digitsOf radix (n div radix) @ [hexDigit (n mod radix)])"
  by pat_completeness auto
termination
  by (relation "measure snd") auto

declare digitsOf.simps [simp del]

definition natToString :: "nat \<Rightarrow> nat \<Rightarrow> string" where
  "natToString radix n = digitsOf radix n"

text \<open>\<^verbatim>\<open>Number.prototype.toString(radix)\<close> on an integer.\<close>

definition intToString :: "nat \<Rightarrow> int \<Rightarrow> string" where
  "intToString radix i =
     (if i < 0 then CHR ''-'' # natToString radix (nat (- i)) else natToString radix (nat i))"

text \<open>
  A text is kept as one character per byte. This is exact for ASCII bytes, which is all
  that the patterns of the time formats, the hex strings and the dotted identifiers
  contain; a byte from \<open>0x80\<close> on stands for whatever the decoder of the engine makes of it
  (a character beyond ASCII or the replacement character), which is never a digit or a
  letter of a pattern.
\<close>

definition bytesToChars :: "byte list \<Rightarrow> string" where
  "bytesToChars bs = map (\<lambda>b. char_of (unat b)) bs"

text \<open>
  \<^verbatim>\<open>decodeString\<close> (line 233), \<^verbatim>\<open>new TextDecoder("utf-8").decode(bytes)\<close>: the decoder
  drops a leading byte order mark \<open>EF BB BF\<close>.
\<close>

definition stripBOM :: "byte list \<Rightarrow> byte list" where
  "stripBOM bs = (if take 3 bs = [0xEF, 0xBB, 0xBF] then drop 3 bs else bs)"

definition decodeString :: "byte list \<Rightarrow> string" where
  "decodeString bs = bytesToChars (stripBOM bs)"

text \<open>
  \<^verbatim>\<open>ArrayBuffer.prototype.slice(begin, end)\<close>: a negative index counts from the end of
  the buffer, and both indices are clamped to the buffer.
\<close>

definition clampIndex :: "nat \<Rightarrow> int \<Rightarrow> nat" where
  "clampIndex len i = (if i < 0 then nat (max (int len + i) 0) else nat (min i (int len)))"

definition bufferSlice :: "byte list \<Rightarrow> int \<Rightarrow> int \<Rightarrow> byte list" where
  "bufferSlice buf b e =
     (let first = clampIndex (length buf) b; final = clampIndex (length buf) e
      in take (final - first) (drop first buf))"

lemma natToString_examples:
  "natToString 10 0 = ''0'' \<and> natToString 10 1862 = ''1862'' \<and> natToString 16 255 = ''ff''
   \<and> natToString 2 128 = ''10000000''"
  by (simp add: natToString_def hexDigit_def digitsOf.simps)

text \<open>\<^verbatim>\<open>Array.prototype.join\<close> on strings.\<close>

fun joinStrings :: "string \<Rightarrow> string list \<Rightarrow> string" where
  "joinStrings sep [] = []"
| "joinStrings sep [x] = x"
| "joinStrings sep (x # y # ys) = x @ sep @ joinStrings sep (y # ys)"

subsection \<open>parseInt\<close>

text \<open>
  \<^verbatim>\<open>parseInt(s, radix)\<close>: leading white space is skipped, a sign is read, with radix 16
  a prefix \<^verbatim>\<open>0x\<close> is dropped, and the longest prefix of digits of the radix is the value;
  with no digit the result is \<^verbatim>\<open>NaN\<close>, here \<open>None\<close>.
\<close>

definition isWhiteSpace :: "char \<Rightarrow> bool" where
  "isWhiteSpace c = ((of_char c :: nat) \<in> {9, 10, 11, 12, 13, 32})"

definition digitValue :: "char \<Rightarrow> nat" where
  "digitValue c =
     (let k = (of_char c :: nat) in
      if 48 \<le> k \<and> k \<le> 57 then k - 48
      else if 97 \<le> k \<and> k \<le> 122 then k - 87
      else if 65 \<le> k \<and> k \<le> 90 then k - 55
      else 36)"

definition isDigit :: "char \<Rightarrow> bool" where
  "isDigit c = (digitValue c < 10)"

definition digitsValue :: "nat \<Rightarrow> string \<Rightarrow> nat" where
  "digitsValue radix ds = foldl (\<lambda>a c. a * radix + digitValue c) 0 ds"

definition parseInt :: "nat \<Rightarrow> string \<Rightarrow> int option" where
  "parseInt radix s =
     (let s1 = dropWhile isWhiteSpace s;
          neg = (take 1 s1 = ''-'');
          s2 = (if take 1 s1 = ''-'' \<or> take 1 s1 = ''+'' then drop 1 s1 else s1);
          s3 = (if radix = 16 \<and> (take 2 s2 = ''0x'' \<or> take 2 s2 = ''0X'') then drop 2 s2 else s2);
          ds = takeWhile (\<lambda>c. digitValue c < radix) s3
      in if ds = [] then None
         else Some ((if neg then - 1 else 1) * int (digitsValue radix ds)))"

subsection \<open>Dates\<close>

text \<open>
  A \<^verbatim>\<open>Date\<close> is its time value, the milliseconds since 1970-01-01T00:00:00Z, or the
  invalid date. \<^verbatim>\<open>Date.UTC\<close> follows ECMA-262: a year from 0 to 99 means 1900 + year,
  months beyond a year carry into the year, the day counts on from the first of the
  month, and a time value beyond 8.64e15 ms is \<^verbatim>\<open>NaN\<close>. An argument \<open>None\<close> is \<^verbatim>\<open>NaN\<close>.
\<close>

datatype jsDate = Date int | InvalidDate

definition dayFromYear :: "int \<Rightarrow> int" where
  "dayFromYear y =
     365 * (y - 1970) + (y - 1969) div 4 - (y - 1901) div 100 + (y - 1601) div 400"

definition inLeapYear :: "int \<Rightarrow> bool" where
  "inLeapYear y = ((y mod 4 = 0 \<and> y mod 100 \<noteq> 0) \<or> y mod 400 = 0)"

definition monthStart :: "nat \<Rightarrow> bool \<Rightarrow> int" where
  "monthStart mn leap =
     [0, 31, 59, 90, 120, 151, 181, 212, 243, 273, 304, 334] ! mn
       + (if leap \<and> 2 \<le> mn then 1 else 0)"

definition makeDay :: "int \<Rightarrow> int \<Rightarrow> int \<Rightarrow> int" where
  "makeDay y m dt =
     (let ym = y + m div 12; mn = nat (m mod 12)
      in dayFromYear ym + monthStart mn (inLeapYear ym) + dt - 1)"

definition timeClip :: "int \<Rightarrow> int option" where
  "timeClip t = (if \<bar>t\<bar> > 8640000000000000 then None else Some t)"

definition utcMillis :: "int \<Rightarrow> int \<Rightarrow> int \<Rightarrow> int \<Rightarrow> int \<Rightarrow> int \<Rightarrow> int" where
  "utcMillis y m dt h mi s =
     (let yr = (if 0 \<le> y \<and> y \<le> 99 then 1900 + y else y)
      in makeDay yr m dt * 86400000 + (h * 3600000 + mi * 60000 + s * 1000))"

definition DateUTC ::
  "int option \<Rightarrow> int option \<Rightarrow> int option \<Rightarrow> int option \<Rightarrow> int option \<Rightarrow> int option \<Rightarrow> int option"
where
  "DateUTC y m dt h mi s =
     (case (y, m, dt, h, mi, s) of
        (Some y', Some m', Some dt', Some h', Some mi', Some s') \<Rightarrow>
          timeClip (utcMillis y' m' dt' h' mi' s')
      | _ \<Rightarrow> None)"

text \<open>\<^verbatim>\<open>new Date(t)\<close>.\<close>

definition newDate :: "int option \<Rightarrow> jsDate" where
  "newDate t = (case t of None \<Rightarrow> InvalidDate | Some v \<Rightarrow> Date v)"

section \<open>The TLV decoder (asn1-parser.ts)\<close>

subsection \<open>Nodes\<close>

text \<open>
  \<^verbatim>\<open>ASN1StructuredNode\<close>: the tag, the length, the offset and the hex of the whole
  element, and as value either the array of children or the leaf object
  \<^verbatim>\<open>{rawHex, base64?, decoded?}\<close>. An absent optional field is \<open>None\<close>.
  The decoded value of a REAL is a floating-point number; the model keeps the content
  bytes it is computed from.
\<close>

datatype tagClass = UNIVERSAL | APPLICATION | CONTEXT_SPECIFIC | PRIVATE

datatype decodedValue =
    DBool bool
  | DNumber int
  | DString string
  | DDate jsDate
  | DBitString nat string
  | DReal "byte list"

record tagInfo =
  tagNumber :: int
  tagHex :: string
  tagCls :: tagClass
  tagConstructed :: bool
  tagType :: string

record lengthInfo =
  lengthValue :: int
  lengthEncodedHex :: string

record leafValue =
  rawHex :: string
  base64 :: "string option"
  decoded :: "decodedValue option"

datatype node =
    ConstructedNode (nodeTag: tagInfo) (nodeLength: lengthInfo) (children: "node list")
      (nodeOffset: nat) (fullHex: string)
  | PrimitiveNode (nodeTag: tagInfo) (nodeLength: lengthInfo) (leaf: leafValue)
      (nodeOffset: nat) (fullHex: string)

text \<open>\<^verbatim>\<open>Array.isArray(node.value)\<close>.\<close>

definition isArrayValue :: "node \<Rightarrow> bool" where
  "isArrayValue n = (case n of ConstructedNode _ _ _ _ _ \<Rightarrow> True | PrimitiveNode _ _ _ _ _ \<Rightarrow> False)"

subsection \<open>Errors\<close>

text \<open>
  Every \<^verbatim>\<open>throw\<close> of the source and every exception of the runtime is a value.
  \<open>RangeError\<close> is what \<^verbatim>\<open>DataView.getUint8\<close> and the \<^verbatim>\<open>Uint8Array\<close> constructor
  throw out of range; \<open>TypeError\<close> is what a property read on \<^verbatim>\<open>undefined\<close>, a call of
  a non-function or the destructuring of a non-iterable throws. The other constructors
  are the \<^verbatim>\<open>Error\<close>s the source throws itself, with the offset their message names.
\<close>

datatype jsError =
    RangeError
  | TypeError
  | InvalidLengthEncoding nat
  | LengthBeyondBuffer nat
  | DeclaredLengthBeyondBuffer nat
  | InvalidHexString
  | InvalidCertificateStructure

text \<open>
  A failing decoder step gives the error and the value of \<^verbatim>\<open>this.offset\<close> at the throw,
  which \<^verbatim>\<open>parse\<close> reports; a successful one gives its result and the new offset.
\<close>

type_synonym 'a decoding = "(jsError \<times> nat) + ('a \<times> nat)"

subsection \<open>Primitive value decoders\<close>

text \<open>
  \<^verbatim>\<open>btoa(String.fromCharCode(...bytes))\<close> (line 380): base64 with padding. The call takes
  one argument for every byte and an engine throws a \<^verbatim>\<open>RangeError\<close> beyond the number of
  arguments that its stack holds; that limit, which depends on the engine, is not in the
  model, where the encoding is total.
\<close>

definition base64Char :: "nat \<Rightarrow> char" where
  "base64Char k =
     (''ABCDEFGHIJKLMNOPQRSTUVWXYZabcdefghijklmnopqrstuvwxyz0123456789+/'') ! (k mod 64)"

fun bytesToBase64 :: "byte list \<Rightarrow> string" where
  "bytesToBase64 [] = []"
| "bytesToBase64 [a] =
     (let n = unat a * 65536
      in [base64Char (n div 262144), base64Char (n div 4096), CHR ''='', CHR ''=''])"
| "bytesToBase64 [a, b] =
     (let n = unat a * 65536 + unat b * 256
      in [base64Char (n div 262144), base64Char (n div 4096), base64Char (n div 64), CHR ''=''])"
| "bytesToBase64 (a # b # c # rest) =
     (let n = unat a * 65536 + unat b * 256 + unat c
      in [base64Char (n div 262144), base64Char (n div 4096), base64Char (n div 64), base64Char n]
         @ bytesToBase64 rest)"

text \<open>\<^verbatim>\<open>decodeBoolean\<close> (line 316).\<close>

definition decodeBoolean :: "byte list \<Rightarrow> bool" where
  "decodeBoolean bytes = (if length bytes \<noteq> 1 then False else bytes ! 0 \<noteq> 0)"

text \<open>
  \<^verbatim>\<open>decodeInteger\<close> (line 259). The loop \<^verbatim>\<open>result = (result << 8) | bytes[i]\<close> runs in
  32-bit arithmetic; \<^verbatim>\<open>1 << (bytes.length * 8)\<close> takes the shift count modulo 32; the
  final subtraction is on numbers.
\<close>

definition shiftInByte :: "int32 \<Rightarrow> byte \<Rightarrow> int32" where
  "shiftInByte acc b = push_bit 8 acc OR ucast b"

definition decodeInteger :: "byte list \<Rightarrow> int" where
  "decodeInteger bytes =
     (let result = sint (foldl shiftInByte 0 bytes)
      in if length bytes > 0 \<and> (bytes ! 0) AND 0x80 \<noteq> 0
         then result - sint (push_bit ((length bytes * 8) mod 32) (1 :: int32))
         else result)"

text \<open>\<^verbatim>\<open>decodeBitString\<close> (line 270).\<close>

definition decodeBitString :: "byte list \<Rightarrow> decodedValue" where
  "decodeBitString bytes =
     (if length bytes = 0 then DBitString 0 []
      else DBitString (unat (bytes ! 0)) (bytesToHex (drop 1 bytes)))"

text \<open>
  \<^verbatim>\<open>decodeOID\<close> (line 237): the arcs after the first byte are accumulated in 32-bit
  arithmetic, \<^verbatim>\<open>value = (value << 7) | (bytes[i] & 0x7F)\<close>.
\<close>

fun oidArcs :: "int32 \<Rightarrow> byte list \<Rightarrow> int list" where
  "oidArcs v [] = []"
| "oidArcs v (b # bs) =
     (let v' = push_bit 7 v OR ucast (b AND 0x7F)
      in if b AND 0x80 = 0 then sint v' # oidArcs 0 bs else oidArcs v' bs)"

definition decodeOID :: "byte list \<Rightarrow> string" where
  "decodeOID bytes =
     (case bytes of
        [] \<Rightarrow> []
      | firstByte # rest \<Rightarrow>
          joinStrings ''.''
            (map (intToString 10)
               ([int (unat firstByte div 40), int (unat firstByte mod 40)] @ oidArcs 0 rest)))"

text \<open>
  \<^verbatim>\<open>decodeDate\<close> (line 281). The regular expressions
  \<^verbatim>\<open>/^(\d{2})(\d{2})(\d{2})(\d{2})(\d{2})(\d{2})?Z$/\<close> (UTCTime) and the same with a
  four-digit year (GeneralizedTime) match exactly the strings of \<open>yd + 8\<close> or \<open>yd + 10\<close>
  digits followed by \<open>Z\<close>; \<open>matchTime yd\<close> gives the groups, the seconds group being
  absent in the shorter form. \<open>decodeDateString\<close> is the function of the content string
  \<^verbatim>\<open>str = this.decodeString(bytes)\<close> (lines 283 to 313).
\<close>

definition matchTime :: "nat \<Rightarrow> string \<Rightarrow> (string list \<times> string option) option" where
  "matchTime yd s =
     (let groups = [take yd s, take 2 (drop yd s), take 2 (drop (yd + 2) s),
                    take 2 (drop (yd + 4) s), take 2 (drop (yd + 6) s)]
      in if length s = yd + 9 \<and> list_all isDigit (take (yd + 8) s) \<and> drop (yd + 8) s = ''Z''
         then Some (groups, None)
         else if length s = yd + 11 \<and> list_all isDigit (take (yd + 10) s)
                 \<and> drop (yd + 10) s = ''Z''
         then Some (groups, Some (take 2 (drop (yd + 8) s)))
         else None)"

definition decodeDateString :: "string \<Rightarrow> int \<Rightarrow> decodedValue" where
  "decodeDateString str tagNum =
     (if tagNum = 0x17 then
        (case matchTime 2 str of
           Some (g, sec) \<Rightarrow>
             (let year = parseInt 10 (g ! 0);
                  fullYear = map_option (\<lambda>y. if y < 50 then 2000 + y else 1900 + y) year;
                  month = map_option (\<lambda>m. m - 1) (parseInt 10 (g ! 1));
                  day = parseInt 10 (g ! 2);
                  hour = parseInt 10 (g ! 3);
                  minute = parseInt 10 (g ! 4);
                  second = (case sec of Some t \<Rightarrow> parseInt 10 t | None \<Rightarrow> Some 0)
              in DDate (newDate (DateUTC fullYear month day hour minute second)))
         | None \<Rightarrow> DString str)
      else if tagNum = 0x18 then
        (case matchTime 4 str of
           Some (g, sec) \<Rightarrow>
             (let year = parseInt 10 (g ! 0);
                  month = map_option (\<lambda>m. m - 1) (parseInt 10 (g ! 1));
                  day = parseInt 10 (g ! 2);
                  hour = parseInt 10 (g ! 3);
                  minute = parseInt 10 (g ! 4);
                  second = (case sec of Some t \<Rightarrow> parseInt 10 t | None \<Rightarrow> Some 0)
              in DDate (newDate (DateUTC year month day hour minute second)))
         | None \<Rightarrow> DString str)
      else DString str)"

definition decodeDate :: "byte list \<Rightarrow> int \<Rightarrow> decodedValue" where
  "decodeDate bytes tagNum = decodeDateString (decodeString bytes) tagNum"

text \<open>\<^verbatim>\<open>getTagClass\<close> (line 384) and \<^verbatim>\<open>tagToType\<close> (line 395).\<close>

definition getTagClass :: "byte \<Rightarrow> tagClass" where
  "getTagClass tagByte =
     (let c = unat (drop_bit 6 (tagByte AND 0xC0))
      in if c = 0 then UNIVERSAL else if c = 1 then APPLICATION
         else if c = 2 then CONTEXT_SPECIFIC else if c = 3 then PRIVATE else UNIVERSAL)"

definition universalTypeNames :: "(int \<times> string) list" where
  "universalTypeNames =
     [(0x01, ''BOOLEAN''), (0x02, ''INTEGER''), (0x03, ''BIT STRING''), (0x04, ''OCTET STRING''),
      (0x05, ''NULL''), (0x06, ''OBJECT IDENTIFIER''), (0x07, ''ObjectDescriptor''),
      (0x08, ''EXTERNAL''), (0x09, ''REAL''), (0x0A, ''ENUMERATED''), (0x0B, ''EMBEDDED PDV''),
      (0x0C, ''UTF8String''), (0x0D, ''RELATIVE-OID''), (0x10, ''SEQUENCE''), (0x11, ''SET''),
      (0x12, ''NumericString''), (0x13, ''PrintableString''), (0x14, ''TeletexString''),
      (0x15, ''VideotexString''), (0x16, ''IA5String''), (0x17, ''UTCTime''),
      (0x18, ''GeneralizedTime''), (0x19, ''GraphicString''), (0x1A, ''VisibleString''),
      (0x1B, ''GeneralString''), (0x1C, ''UniversalString''), (0x1D, ''CHARACTER STRING''),
      (0x1E, ''BMPString'')]"

definition tagToType :: "int \<Rightarrow> string" where
  "tagToType t =
     (case map_of universalTypeNames t of
        Some name \<Rightarrow> name
      | None \<Rightarrow> ''Unknown (0x'' @ intToString 16 t @ '')'')"

subsection \<open>The cursor\<close>

text \<open>\<^verbatim>\<open>readByte\<close> (line 196): \<^verbatim>\<open>getUint8\<close> throws before the offset moves.\<close>

definition readByte :: "byte list \<Rightarrow> nat \<Rightarrow> byte decoding" where
  "readByte buf off = (if off < length buf then Inr (buf ! off, off + 1) else Inl (RangeError, off))"

text \<open>
  \<^verbatim>\<open>readBytes\<close> (line 202): \<^verbatim>\<open>new Uint8Array(buffer, offset, length)\<close> throws for a
  negative length and for a view that ends beyond the buffer.
\<close>

definition readBytes :: "byte list \<Rightarrow> nat \<Rightarrow> int \<Rightarrow> (byte list) decoding" where
  "readBytes buf off len =
     (if len < 0 \<or> int off + len > int (length buf) then Inl (RangeError, off)
      else Inr (take (nat len) (drop off buf), off + nat len))"

text \<open>
  The loop of \<^verbatim>\<open>parseElement\<close> for a tag number in the long form (lines 96 to 100):
  \<^verbatim>\<open>do { byte = readByte(); tagNumber = (tagNumber << 7) | (byte & 0x7F) } while (byte & 0x80)\<close>.
\<close>

function readTagNumber :: "byte list \<Rightarrow> nat \<Rightarrow> int32 \<Rightarrow> int32 decoding" where
  "readTagNumber buf off acc =
     (case readByte buf off of
        Inl e \<Rightarrow> Inl e
      | Inr (b, off') \<Rightarrow>
          (let acc' = push_bit 7 acc OR ucast (b AND 0x7F)
           in if b AND 0x80 \<noteq> 0 then readTagNumber buf off' acc' else Inr (acc', off')))"
  by pat_completeness auto
termination
  by (relation "measure (\<lambda>(buf, off, acc). length buf - off)")
     (auto simp: readByte_def split: if_splits)

declare readTagNumber.simps [simp del]

text \<open>
  The loop of \<^verbatim>\<open>readLength\<close> (lines 220 to 223):
  \<^verbatim>\<open>for (i = 0; i < numBytes; i++) length = (length << 8) | readByte()\<close>.
\<close>

fun readLengthBytes :: "byte list \<Rightarrow> nat \<Rightarrow> nat \<Rightarrow> int32 \<Rightarrow> int32 decoding" where
  "readLengthBytes buf off 0 acc = Inr (acc, off)"
| "readLengthBytes buf off (Suc k) acc =
     (case readByte buf off of
        Inl e \<Rightarrow> Inl e
      | Inr (b, off') \<Rightarrow> readLengthBytes buf off' k (shiftInByte acc b))"

text \<open>\<^verbatim>\<open>readLength\<close> (line 208).\<close>

definition readLength :: "byte list \<Rightarrow> nat \<Rightarrow> int decoding" where
  "readLength buf off =
     (case readByte buf off of
        Inl e \<Rightarrow> Inl e
      | Inr (firstByte, off1) \<Rightarrow>
          if firstByte AND 0x80 = 0 then Inr (uint firstByte, off1)
          else
            (let numBytes = unat (firstByte AND 0x7F) in
             if numBytes = 0 \<or> numBytes > 4 then Inl (InvalidLengthEncoding (off1 - 1), off1)
             else if off1 + numBytes > length buf then Inl (LengthBeyondBuffer off1, off1)
             else
               (case readLengthBytes buf off1 numBytes 0 of
                  Inl e \<Rightarrow> Inl e
                | Inr (len, off2) \<Rightarrow> Inr (sint len, off2))))"

subsection \<open>One element\<close>

text \<open>
  Lines 87 to 110 of \<^verbatim>\<open>parseElement\<close>: the tag, the length and the bounds check, up
  to the branch on the constructed bit. The check of line 105 comes right after the
  length has been read; when it throws, the offset stands after the length field.
\<close>

record header =
  hStartOffset :: nat
  hTagByte :: byte
  hTagNumber :: int
  hLengthStart :: nat
  hLengthValue :: int
  hContentStart :: nat

definition readTag :: "byte list \<Rightarrow> nat \<Rightarrow> (byte \<times> int) decoding" where
  "readTag buf off =
     (case readByte buf off of
        Inl e \<Rightarrow> Inl e
      | Inr (tagByte, off1) \<Rightarrow>
          if tagByte AND 0x1F = 0x1F then
            (case readTagNumber buf off1 0 of
               Inl e \<Rightarrow> Inl e
             | Inr (num, off2) \<Rightarrow> Inr ((tagByte, sint num), off2))
          else Inr ((tagByte, uint (tagByte AND 0x1F)), off1))"

definition readHeader :: "byte list \<Rightarrow> nat \<Rightarrow> (jsError \<times> nat) + header" where
  "readHeader buf startOffset =
     (case readTag buf startOffset of
        Inl e \<Rightarrow> Inl e
      | Inr ((tagByte, tagNum), lengthStart) \<Rightarrow>
          (case readLength buf lengthStart of
             Inl e \<Rightarrow> Inl e
           | Inr (lengthVal, off) \<Rightarrow>
               if int off + lengthVal > int (length buf)
               then Inl (DeclaredLengthBeyondBuffer startOffset, off)
               else Inr \<lparr>hStartOffset = startOffset, hTagByte = tagByte, hTagNumber = tagNum,
                         hLengthStart = lengthStart, hLengthValue = lengthVal,
                         hContentStart = off\<rparr>))"

definition headerTag :: "header \<Rightarrow> bool \<Rightarrow> tagInfo" where
  "headerTag h c =
     \<lparr>tagNumber = hTagNumber h, tagHex = hexByte (hTagByte h),
      tagCls = getTagClass (hTagByte h), tagConstructed = c,
      tagType = tagToType (hTagNumber h)\<rparr>"

definition headerLength :: "byte list \<Rightarrow> header \<Rightarrow> lengthInfo" where
  "headerLength buf h =
     \<lparr>lengthValue = hLengthValue h,
      lengthEncodedHex =
        bytesToHex (bufferSlice buf (int (hLengthStart h)) (int (hContentStart h)))\<rparr>"

text \<open>The special decodings of a primitive element (lines 143 to 174).\<close>

definition decodeLeaf :: "int \<Rightarrow> byte list \<Rightarrow> leafValue" where
  "decodeLeaf tagNum valueBytes =
     \<lparr>rawHex = bytesToHex valueBytes,
      base64 = (if tagNum = 0x04 then Some (bytesToBase64 valueBytes) else None),
      decoded =
        (if tagNum = 0x01 then Some (DBool (decodeBoolean valueBytes))
         else if tagNum = 0x02 then Some (DNumber (decodeInteger valueBytes))
         else if tagNum = 0x03 then Some (decodeBitString valueBytes)
         else if tagNum = 0x06 then Some (DString (decodeOID valueBytes))
         else if tagNum = 0x09 then Some (DReal valueBytes)
         else if tagNum = 0x0A then Some (DNumber (decodeInteger valueBytes))
         else if tagNum = 0x0C \<or> tagNum = 0x13 then Some (DString (decodeString valueBytes))
         else if tagNum = 0x17 \<or> tagNum = 0x18 then Some (decodeDate valueBytes tagNum)
         else None)\<rparr>"

text \<open>Lines 139 to 192: the primitive branch.\<close>

definition parsePrimitive :: "byte list \<Rightarrow> header \<Rightarrow> node decoding" where
  "parsePrimitive buf h =
     (case readBytes buf (hContentStart h) (hLengthValue h) of
        Inl e \<Rightarrow> Inl e
      | Inr (valueBytes, off) \<Rightarrow>
          Inr (PrimitiveNode (headerTag h False) (headerLength buf h)
                 (decodeLeaf (hTagNumber h) valueBytes) (hStartOffset h)
                 (bytesToHex (bufferSlice buf (int (hStartOffset h)) (int off))),
               off))"

text \<open>
  \<^verbatim>\<open>parseElement\<close> (line 85) with the loop of its constructed branch (lines 116 to 118),
  \<^verbatim>\<open>while (this.offset < endOffset) value.push(this.parseElement())\<close>. The recursion is
  that of the algorithm: the depth at which an engine exhausts its call stack is not in
  the model.
\<close>

function parseElement :: "byte list \<Rightarrow> nat \<Rightarrow> node decoding"
  and parseChildren :: "byte list \<Rightarrow> int \<Rightarrow> nat \<Rightarrow> node list \<Rightarrow> (node list) decoding"
where
  "parseElement buf startOffset =
     (case readHeader buf startOffset of
        Inl e \<Rightarrow> Inl e
      | Inr h \<Rightarrow>
          if hTagByte h AND 0x20 \<noteq> 0 then
            (let endOffset = int (hContentStart h) + hLengthValue h in
             case parseChildren buf endOffset (hContentStart h) [] of
               Inl e \<Rightarrow> Inl e
             | Inr (cs, off) \<Rightarrow>
                 Inr (ConstructedNode (headerTag h True) (headerLength buf h) cs (hStartOffset h)
                        (bytesToHex (bufferSlice buf (int (hStartOffset h)) endOffset)),
                      off))
          else parsePrimitive buf h)"
| "parseChildren buf endOffset off acc =
     (if int off < endOffset then
        (case parseElement buf off of
           Inl e \<Rightarrow> Inl e
         | Inr (n, off') \<Rightarrow> parseChildren buf endOffset off' (acc @ [n]))
      else Inr (acc, off))"
  by pat_completeness auto
lemma readByte_Inr:
  "readByte buf off = Inr (b, off') \<Longrightarrow> off' = off + 1 \<and> off < length buf \<and> b = buf ! off"
  by (auto simp: readByte_def split: if_splits)

lemma readTagNumber_progress:
  "readTagNumber buf off acc = Inr (r, off') \<Longrightarrow> off < off' \<and> off' \<le> length buf"
proof (induction buf off acc rule: readTagNumber.induct)
  case (1 buf off acc)
  from "1.prems" obtain b where rb: "readByte buf off = Inr (b, off + 1)" and lt: "off < length buf"
    by (subst (asm) readTagNumber.simps) (auto simp: readByte_def split: if_splits)
  show ?case
  proof (cases "b AND 0x80 \<noteq> 0")
    case True
    with "1.prems" rb
    have "readTagNumber buf (off + 1) (push_bit 7 acc OR ucast (b AND 0x7F)) = Inr (r, off')"
      by (subst (asm) readTagNumber.simps) (simp add: Let_def)
    from "1.IH"[OF rb refl refl True this] show ?thesis by simp
  next
    case False
    with "1.prems" rb lt show ?thesis
      by (subst (asm) readTagNumber.simps) (auto simp: Let_def)
  qed
qed

lemma readLengthBytes_progress:
  "readLengthBytes buf off k acc = Inr (r, off') \<Longrightarrow>
     off' = off + k \<and> (0 < k \<longrightarrow> off' \<le> length buf)"
proof (induction k arbitrary: off acc)
  case 0
  then show ?case by simp
next
  case (Suc k)
  from Suc.prems have lt: "off < length buf"
    and rec: "readLengthBytes buf (off + 1) k (shiftInByte acc (buf ! off)) = Inr (r, off')"
    by (auto simp: readByte_def split: if_splits)
  from Suc.IH[OF rec] lt show ?case by (cases k) auto
qed

lemma readLength_progress:
  "readLength buf off = Inr (r, off') \<Longrightarrow> off < off' \<and> off' \<le> length buf"
  by (auto simp: readLength_def Let_def dest!: readByte_Inr readLengthBytes_progress
        split: sum.splits if_splits prod.splits)

lemma readTag_progress:
  "readTag buf off = Inr (r, off') \<Longrightarrow> off < off' \<and> off' \<le> length buf"
  by (auto simp: readTag_def dest!: readByte_Inr readTagNumber_progress
        split: sum.splits if_splits prod.splits)

lemma readHeader_progress:
  "readHeader buf off = Inr h \<Longrightarrow>
     hStartOffset h = off \<and> off + 2 \<le> hContentStart h \<and> hContentStart h \<le> length buf
     \<and> int (hContentStart h) + hLengthValue h \<le> int (length buf)"
  by (fastforce simp: readHeader_def dest!: readTag_progress readLength_progress
        split: sum.splits if_splits prod.splits)

lemma parsePrimitive_progress:
  "parsePrimitive buf h = Inr (n, off') \<Longrightarrow> hContentStart h \<le> off'"
  by (auto simp: parsePrimitive_def readBytes_def split: sum.splits if_splits)

text \<open>
  Progress, first on the domain of the recursion: an element that decodes ends beyond
  its start, and the loop over the children never moves back.
\<close>

lemma parse_progress_dom:
  "parseElement_parseChildren_dom (Inl (buf, off)) \<Longrightarrow>
     parseElement buf off = Inr (n, off') \<Longrightarrow> off < off'"
  "parseElement_parseChildren_dom (Inr (buf, e, off2, acc)) \<Longrightarrow>
     parseChildren buf e off2 acc = Inr (cs, off'') \<Longrightarrow> off2 \<le> off''"
proof -
  let ?P = "\<lambda>buf off. \<forall>n off'. parseElement buf off = Inr (n, off') \<longrightarrow> off < off'"
  let ?Q = "\<lambda>buf e off2 acc.
              \<forall>cs off'. parseChildren buf e off2 acc = Inr (cs, off') \<longrightarrow> off2 \<le> off'"
  have stepP: "?P buf startOffset"
    if d: "parseElement_parseChildren_dom (Inl (buf, startOffset))"
      and ih: "\<And>h x. readHeader buf startOffset = Inr h \<Longrightarrow> hTagByte h AND 32 \<noteq> 0 \<Longrightarrow>
                 x = int (hContentStart h) + hLengthValue h \<Longrightarrow> ?Q buf x (hContentStart h) []"
    for buf startOffset
  proof (intro allI impI)
    fix n off'
    assume res: "parseElement buf startOffset = Inr (n, off')"
    then obtain h where h: "readHeader buf startOffset = Inr h"
      by (subst (asm) parseElement.psimps[OF d]) (auto split: sum.splits)
    note hp = readHeader_progress[OF h]
    show "startOffset < off'"
    proof (cases "hTagByte h AND 0x20 \<noteq> 0")
      case True
      with res h obtain cs where
        "parseChildren buf (int (hContentStart h) + hLengthValue h) (hContentStart h) [] = Inr (cs, off')"
        by (subst (asm) parseElement.psimps[OF d])
           (auto simp: Let_def split: sum.splits prod.splits)
      with ih[OF h _ refl] True have "hContentStart h \<le> off'" by simp
      with hp show ?thesis by simp
    next
      case False
      with res h have "parsePrimitive buf h = Inr (n, off')"
        by (subst (asm) parseElement.psimps[OF d]) simp
      from parsePrimitive_progress[OF this] hp show ?thesis by simp
    qed
  qed
  have stepQ: "?Q buf endOffset off acc"
    if d: "parseElement_parseChildren_dom (Inr (buf, endOffset, off, acc))"
      and ih1: "int off < endOffset \<Longrightarrow> ?P buf off"
      and ih2: "\<And>b x y. int off < endOffset \<Longrightarrow> parseElement buf off = Inr b \<Longrightarrow> (x, y) = b \<Longrightarrow>
                  ?Q buf endOffset y (acc @ [x])"
    for buf endOffset off acc
  proof (intro allI impI)
    fix cs off'
    assume res: "parseChildren buf endOffset off acc = Inr (cs, off')"
    show "off \<le> off'"
    proof (cases "int off < endOffset")
      case True
      with res obtain n off1 where pe: "parseElement buf off = Inr (n, off1)"
        and pc: "parseChildren buf endOffset off1 (acc @ [n]) = Inr (cs, off')"
        by (subst (asm) parseChildren.psimps[OF d]) (auto split: sum.splits prod.splits)
      from ih1[OF True] pe have "off < off1" by blast
      moreover from ih2[OF True pe refl] pc have "off1 \<le> off'" by blast
      ultimately show ?thesis by simp
    next
      case False
      with res show ?thesis
        by (subst (asm) parseChildren.psimps[OF d]) simp
    qed
  qed
  show "off < off'"
    if "parseElement_parseChildren_dom (Inl (buf, off))" "parseElement buf off = Inr (n, off')"
    using parseElement_parseChildren.pinduct(1)[where P = ?P and Q = ?Q, OF that(1) stepP stepQ] that(2)
    by blast
  show "off2 \<le> off''"
    if "parseElement_parseChildren_dom (Inr (buf, e, off2, acc))"
      "parseChildren buf e off2 acc = Inr (cs, off'')"
    using parseElement_parseChildren.pinduct(2)[where P = ?P and Q = ?Q, OF that(1) stepP stepQ] that(2)
    by blast
qed

lemma parse_all_dom: "All parseElement_parseChildren_dom"
proof (rule "parseElement_parseChildren.termination"
         [where R = "measure (\<lambda>x. case x of Inl (buf, off) \<Rightarrow> 2 * (length buf + 1 - off)
                                  | Inr (buf, e, off, acc) \<Rightarrow> 2 * (length buf + 1 - off) + 1)"],
       goal_cases)
  case 1
  then show ?case by simp
next
  case (2 buf startOffset h endOffset)
  then show ?case using readHeader_progress[of buf startOffset h] by auto
next
  case (3 buf endOffset off acc)
  then show ?case by simp
next
  case (4 buf endOffset off acc b n off')
  from 4(2,3) have pe: "parseElement buf off = Inr (n, off')" by simp
  with parse_progress_dom(1)[of buf off] 4(4) have lt: "off < off'" by blast
  from pe 4(4) obtain h where "readHeader buf off = Inr h"
    by (subst (asm) parseElement.psimps) (auto split: sum.splits)
  from readHeader_progress[OF this] have "off < length buf" by simp
  with lt show ?case by auto
qed

termination parseElement
  by (rule parse_all_dom)

declare parseElement.simps [simp del] parseChildren.simps [simp del]

lemma parseElement_progress:
  "parseElement buf off = Inr (n, off') \<Longrightarrow> off < off' \<and> off < length buf"
proof -
  assume pe: "parseElement buf off = Inr (n, off')"
  have "parseElement_parseChildren_dom (Inl (buf, off))"
    by (rule parse_all_dom[THEN spec])
  from parse_progress_dom(1)[OF this pe] have "off < off'" .
  moreover from pe obtain h where "readHeader buf off = Inr h"
    by (subst (asm) parseElement.simps) (auto split: sum.splits)
  from readHeader_progress[OF this] have "off < length buf" by simp
  ultimately show ?thesis by simp
qed

subsection \<open>The whole buffer\<close>

text \<open>
  \<^verbatim>\<open>parse\<close> (line 44), without the \<^verbatim>\<open>simplify\<close> projection. The loop decodes elements
  while the offset is inside the buffer. A \<^verbatim>\<open>catch\<close> around each element turns whatever
  it throws into the entry \<^verbatim>\<open>Error parsing ASN.1 at offset ${this.offset}: ${e}\<close> of the
  error list, here the offset and the cause, and leaves the loop; so does the first
  element when \<^verbatim>\<open>parseAll\<close> is off. The result is the pair \<^verbatim>\<open>{result, errors}\<close>; with
  \<^verbatim>\<open>parseAll\<close> the \<^verbatim>\<open>result\<close> is the list of nodes (without it, its first entry).
\<close>

record parseErrorEntry =
  errorOffset :: nat
  errorCause :: jsError

function parseLoop ::
  "byte list \<Rightarrow> bool \<Rightarrow> nat \<Rightarrow> node list \<Rightarrow> node list \<times> parseErrorEntry list"
where
  "parseLoop buf parseAll off nodes =
     (if off < length buf then
        (case parseElement buf off of
           Inl (e, errOff) \<Rightarrow> (nodes, [\<lparr>errorOffset = errOff, errorCause = e\<rparr>])
         | Inr (n, off') \<Rightarrow>
             if \<not> parseAll then (nodes @ [n], [])
             else parseLoop buf parseAll off' (nodes @ [n]))
      else (nodes, []))"
  by pat_completeness auto
termination
  by (relation "measure (\<lambda>(buf, parseAll, off, nodes). length buf - off)")
     (auto dest: parseElement_progress)

declare parseLoop.simps [simp del]

definition parseASN1 :: "byte list \<Rightarrow> bool \<Rightarrow> node list \<times> parseErrorEntry list" where
  "parseASN1 buf parseAll = parseLoop buf parseAll 0 []"

section \<open>The OID table (oid-map.ts)\<close>

definition OID_MAP :: "(string \<times> string) list" where
  "OID_MAP =
     [(''2.5.4.3'', ''commonName''),
      (''2.5.4.4'', ''surname''),
      (''2.5.4.5'', ''serialNumber''),
      (''2.5.4.6'', ''countryName''),
      (''2.5.4.7'', ''localityName''),
      (''2.5.4.8'', ''stateOrProvinceName''),
      (''2.5.4.9'', ''streetAddress''),
      (''2.5.4.10'', ''organizationName''),
      (''2.5.4.11'', ''organizationalUnitName''),
      (''2.5.4.12'', ''title''),
      (''2.5.4.42'', ''givenName''),
      (''2.5.4.97'', ''organizationIdentifier''),
      (''1.2.840.113549.1.9.1'', ''emailAddress''),
      (''1.2.840.113549.1.1.1'', ''rsaEncryption''),
      (''1.2.840.113549.1.1.5'', ''sha1WithRSAEncryption''),
      (''1.2.840.113549.1.1.11'', ''sha256WithRSAEncryption''),
      (''1.2.840.113549.1.1.12'', ''sha384WithRSAEncryption''),
      (''1.2.840.113549.1.1.13'', ''sha512WithRSAEncryption''),
      (''1.2.840.10045.2.1'', ''ecPublicKey''),
      (''1.2.840.10045.4.3.2'', ''ecdsaWithSHA256''),
      (''1.2.840.10045.4.3.3'', ''ecdsaWithSHA384''),
      (''1.2.840.10045.4.3.4'', ''ecdsaWithSHA512''),
      (''1.3.101.110'', ''X25519''),
      (''1.3.101.111'', ''X448''),
      (''1.3.101.112'', ''Ed25519''),
      (''1.3.101.113'', ''Ed448''),
      (''2.5.29.14'', ''subjectKeyIdentifier''),
      (''2.5.29.15'', ''keyUsage''),
      (''2.5.29.17'', ''subjectAltName''),
      (''2.5.29.19'', ''basicConstraints''),
      (''2.5.29.31'', ''cRLDistributionPoints''),
      (''2.5.29.32'', ''certificatePolicies''),
      (''2.5.29.35'', ''authorityKeyIdentifier''),
      (''2.5.29.37'', ''extendedKeyUsage''),
      (''2.5.29.30'', ''nameConstraints''),
      (''2.5.29.36'', ''policyConstraints''),
      (''2.5.29.54'', ''inhibitAnyPolicy''),
      (''1.3.6.1.5.5.7.3.1'', ''serverAuth''),
      (''1.3.6.1.5.5.7.3.2'', ''clientAuth''),
      (''1.3.6.1.5.5.7.3.3'', ''codeSigning''),
      (''1.3.6.1.5.5.7.3.4'', ''emailProtection''),
      (''1.3.6.1.5.5.7.3.8'', ''timeStamping''),
      (''1.3.6.1.5.5.7.3.9'', ''OCSPSigning''),
      (''1.3.6.1.5.5.7.1.1'', ''authorityInfoAccess''),
      (''1.3.6.1.5.5.7.1.3'', ''qcStatements''),
      (''1.3.6.1.5.5.7.48.1'', ''ocsp''),
      (''1.3.6.1.5.5.7.48.2'', ''caIssuers''),
      (''1.3.6.1.5.5.7.48.3'', ''timeStampingAuthority''),
      (''2.23.140.1.1'', ''CA/Browser Forum Baseline Requirements Compliance''),
      (''2.23.140.1.2.1'', ''DV SSL/TLS Certificate (Domain Validation)''),
      (''2.23.140.1.2.2'', ''OV SSL/TLS Certificate (Organization Validation)''),
      (''2.23.140.1.2.3'', ''EV SSL/TLS Certificate (Extended Validation)''),
      (''2.23.140.1.3'', ''EV S/MIME Certificate''),
      (''2.23.140.1.4.1'', ''OV S/MIME Certificate''),
      (''2.23.140.1.4.2'', ''DV S/MIME Certificate''),
      (''2.23.140.1.5.1.1'', ''EV Code Signing Certificate''),
      (''2.23.140.1.5.3.1'', ''EV TLS Web Server Authentication''),
      (''0.4.0.1862.1.1'', ''id-etsi-qcs-QcCompliance''),
      (''0.4.0.1862.1.4'', ''id-etsi-qcs-QcSSCD''),
      (''0.4.0.1862.1.5'', ''id-etsi-qcs-QcPDS''),
      (''0.4.0.1862.1.6'', ''id-etsi-qcs-QcType''),
      (''0.4.0.1862.1.6.1'', ''qct-esign''),
      (''0.4.0.1862.1.6.2'', ''qct-eseal''),
      (''0.4.0.1862.1.6.3'', ''qct-web''),
      (''1.2.250.1.177.1.1.1'', ''RGS Signature (personne physique)''),
      (''1.2.250.1.177.1.1.2'', ''RGS Cachet serveur''),
      (''1.2.250.1.177.1.1.3'', ''RGS Authentification personne physique''),
      (''1.2.250.1.177.1.1.4'', ''RGS Chiffrement personne physique''),
      (''1.2.250.1.177.1.1.5'', ''RGS Authentification serveur''),
      (''1.2.250.1.177.2.1.1.1'', ''RGS Niveau faible''),
      (''1.2.250.1.177.2.1.1.2'', ''RGS Niveau substantiel''),
      (''1.2.250.1.177.2.1.1.3'', ''RGS Niveau '' @ [CHR 0xE9] @ ''lev'' @ [CHR 0xE9]),
      (''1.2.250.1.177.2.4.1.1.1'', ''RGS Authentification personne physique (v2)''),
      (''1.2.250.1.177.2.4.1.1.2'', ''RGS Authentification personne morale (v2)''),
      (''1.2.250.1.177.2.4.2.1.1'', ''RGS Signature personne physique (v2)''),
      (''1.2.250.1.177.2.4.2.1.2'', ''RGS Signature personne morale (v2)''),
      (''1.2.250.1.177.2.4.3.1.1'', ''RGS Chiffrement personne physique (v2)''),
      (''1.2.250.1.177.2.4.3.1.2'', ''RGS Chiffrement personne morale (v2)''),
      (''1.2.840.113583.1.1.5'', ''Adobe Authentic Documents Trust''),
      (''1.2.840.113583.1.1.7'', ''Adobe Document Signing''),
      (''1.2.840.113583.1.1.9'', ''Adobe PDF Signing''),
      (''1.2.840.113583.1.1.8'', ''Adobe Certified Document Services (CDS)''),
      (''1.3.6.1.4.1.11129.2.4.2'', ''certificateTransparency''),
      (''1.3.6.1.5.5.7.2.1'', ''cpsUri''),
      (''1.3.6.1.5.5.7.2.2'', ''userNotice'')]"

text \<open>
  \<^verbatim>\<open>OID_MAP\<close> is an object literal, so a lookup also finds the properties it inherits
  from \<^verbatim>\<open>Object.prototype\<close>; their values are functions and objects, not strings.
\<close>

definition objectPrototypeNames :: "string list" where
  "objectPrototypeNames =
     [''constructor'', ''__defineGetter__'', ''__defineSetter__'', ''hasOwnProperty'',
      ''__lookupGetter__'', ''__lookupSetter__'', ''isPrototypeOf'', ''propertyIsEnumerable'',
      ''toString'', ''valueOf'', ''__proto__'', ''toLocaleString'']"

text \<open>
  \<^verbatim>\<open>getOIDLabel\<close> (line 112): \<^verbatim>\<open>OID_MAP[oid] ?? `Unknown OID (${oid})`\<close>. The argument
  is whatever the decoder left as decoded value. A string is looked up; the key made
  from any other value (a number, a boolean, a date, an object) is no key of the table.
  The template string is kept as \<open>UnknownOID oid\<close>.
\<close>

datatype oidLabel = Label string | UnknownOID decodedValue | InheritedProperty string

definition getOIDLabel :: "decodedValue \<Rightarrow> oidLabel" where
  "getOIDLabel v =
     (case v of
        DString s \<Rightarrow>
          (case map_of OID_MAP s of
             Some l \<Rightarrow> Label l
           | None \<Rightarrow> if s \<in> set objectPrototypeNames then InheritedProperty s else UnknownOID v)
      | _ \<Rightarrow> UnknownOID v)"

text \<open>\<^verbatim>\<open>KeyUsageLabels\<close> (line 117), in the order of \<^verbatim>\<open>Object.entries\<close>.\<close>

definition KeyUsageLabels :: "(nat \<times> string) list" where
  "KeyUsageLabels =
     [(0, ''digitalSignature''), (1, ''nonRepudiation''), (2, ''keyEncipherment''),
      (3, ''dataEncipherment''), (4, ''keyAgreement''), (5, ''keyCertSign''), (6, ''cRLSign''),
      (7, ''encipherOnly''), (8, ''decipherOnly'')]"

section \<open>The X.509 mapper\<close>

subsection \<open>Values of any type\<close>

text \<open>
  The mapper is dynamically typed: what it reads from a node may be absent
  (\<^verbatim>\<open>undefined\<close>, here \<open>None\<close>), and a decoded value is a boolean, a number, a string, a
  date or the bit-string object, whatever the schema expects. A property read on
  \<^verbatim>\<open>undefined\<close>, the call of a method that a leaf object does not have and the
  destructuring of a leaf object throw a \<^verbatim>\<open>TypeError\<close>.

  Truthiness is that of JavaScript: \<^verbatim>\<open>false\<close>, \<^verbatim>\<open>0\<close> and the empty string are falsy,
  objects (dates, the bit-string object) are truthy. Whether a decoded REAL is zero or
  \<^verbatim>\<open>NaN\<close> is a matter of floating-point evaluation; it is the parameter \<open>rt\<close> of every
  function that depends on it.
\<close>

type_synonym 'a result = "jsError + 'a"

definition bindE :: "'a result \<Rightarrow> ('a \<Rightarrow> 'b result) \<Rightarrow> 'b result" where
  "bindE m f = (case m of Inl e \<Rightarrow> Inl e | Inr x \<Rightarrow> f x)"

text \<open>\<^verbatim>\<open>Array.prototype.map\<close> with a callback that may throw.\<close>

fun mapE :: "('a \<Rightarrow> 'b result) \<Rightarrow> 'a list \<Rightarrow> ('b list) result" where
  "mapE f [] = Inr []"
| "mapE f (x # xs) = bindE (f x) (\<lambda>y. bindE (mapE f xs) (\<lambda>ys. Inr (y # ys)))"

definition truthy :: "(byte list \<Rightarrow> bool) \<Rightarrow> decodedValue \<Rightarrow> bool" where
  "truthy rt v =
     (case v of
        DBool b \<Rightarrow> b
      | DNumber n \<Rightarrow> n \<noteq> 0
      | DString s \<Rightarrow> s \<noteq> []
      | DDate d \<Rightarrow> True
      | DBitString u h \<Rightarrow> True
      | DReal bs \<Rightarrow> rt bs)"

definition truthyOpt :: "(byte list \<Rightarrow> bool) \<Rightarrow> decodedValue option \<Rightarrow> bool" where
  "truthyOpt rt vo = (case vo of None \<Rightarrow> False | Some v \<Rightarrow> truthy rt v)"

text \<open>
  \<open>items n\<close> is \<^verbatim>\<open>node.value\<close> read as an array: the children, and no element at all
  when the value is the leaf object. \<open>at xs i\<close> is \<^verbatim>\<open>xs[i]\<close>.
\<close>

definition items :: "node \<Rightarrow> node list" where
  "items n = (case n of ConstructedNode t l cs off fh \<Rightarrow> cs | PrimitiveNode t l v off fh \<Rightarrow> [])"

definition at :: "'a list \<Rightarrow> nat \<Rightarrow> 'a option" where
  "at xs i = (if i < length xs then Some (xs ! i) else None)"

text \<open>\<^verbatim>\<open>x.value\<close> for a node that may be \<^verbatim>\<open>undefined\<close>.\<close>

definition valueOf :: "node option \<Rightarrow> node result" where
  "valueOf no = (case no of None \<Rightarrow> Inl TypeError | Some n \<Rightarrow> Inr n)"

subsection \<open>Hex strings\<close>

text \<open>
  \<^verbatim>\<open>parseInt(hex.substr(2 * i, 2), 16)\<close> stored into a \<^verbatim>\<open>Uint8Array\<close>: \<^verbatim>\<open>NaN\<close> is stored
  as 0, any other number modulo 256.
\<close>

definition toUint8 :: "int option \<Rightarrow> byte" where
  "toUint8 v = (case v of None \<Rightarrow> 0 | Some i \<Rightarrow> word_of_int i)"

definition hexToBytes :: "string \<Rightarrow> byte list" where
  "hexToBytes hex =
     map (\<lambda>i. toUint8 (parseInt 16 (take 2 (drop (2 * i) hex)))) [0..<length hex div 2]"

text \<open>\<^verbatim>\<open>hexToArrayBuffer\<close> (line 443).\<close>

definition hexToArrayBuffer :: "string \<Rightarrow> (byte list) result" where
  "hexToArrayBuffer hex =
     (if length hex mod 2 \<noteq> 0 then Inl InvalidHexString else Inr (hexToBytes hex))"

text \<open>
  \<^verbatim>\<open>decodeIA5String\<close> (line 433), \<^verbatim>\<open>new TextDecoder("ascii").decode(bytes)\<close>: one
  character for every byte.
\<close>

definition decodeIA5String :: "node \<Rightarrow> string" where
  "decodeIA5String n =
     (case n of
        ConstructedNode t l cs off fh \<Rightarrow> []
      | PrimitiveNode t l v off fh \<Rightarrow>
          if rawHex v = [] then [] else bytesToChars (hexToBytes (rawHex v)))"

text \<open>
  \<^verbatim>\<open>hexToAsciiSafe\<close> (line 526): the empty string for an odd length and as soon as a
  pair is not a number.
\<close>

definition hexToAsciiSafe :: "string \<Rightarrow> string" where
  "hexToAsciiSafe hex =
     (if hex = [] \<or> length hex mod 2 \<noteq> 0 then []
      else
        (case those (map (\<lambda>i. parseInt 16 (take 2 (drop (2 * i) hex)))
                       [0..<length hex div 2]) of
           None \<Rightarrow> []
         | Some vs \<Rightarrow> map (\<lambda>v. char_of (nat (v mod 65536))) vs))"
subsection \<open>Reading a node\<close>

text \<open>\<^verbatim>\<open>parseASN1Date\<close> (line 235).\<close>

definition sliceStr :: "string \<Rightarrow> nat \<Rightarrow> nat \<Rightarrow> string" where
  "sliceStr s a b = take (b - a) (drop a s)"

definition endsWithZ :: "string \<Rightarrow> bool" where
  "endsWithZ s = (s \<noteq> [] \<and> last s = CHR ''Z'')"

definition parseASN1Date :: "string \<Rightarrow> decodedValue" where
  "parseASN1Date str =
     (if length str = 13 \<and> endsWithZ str then
        (let year = parseInt 10 (sliceStr str 0 2);
             fullYear = map_option (\<lambda>y. if y < 50 then 2000 + y else 1900 + y) year;
             month = map_option (\<lambda>m. m - 1) (parseInt 10 (sliceStr str 2 4));
             day = parseInt 10 (sliceStr str 4 6);
             hour = parseInt 10 (sliceStr str 6 8);
             minute = parseInt 10 (sliceStr str 8 10);
             second = parseInt 10 (sliceStr str 10 12)
         in DDate (newDate (DateUTC fullYear month day hour minute second)))
      else if length str \<ge> 15 \<and> endsWithZ str then
        (let year = parseInt 10 (sliceStr str 0 4);
             month = map_option (\<lambda>m. m - 1) (parseInt 10 (sliceStr str 4 6));
             day = parseInt 10 (sliceStr str 6 8);
             hour = parseInt 10 (sliceStr str 8 10);
             minute = parseInt 10 (sliceStr str 10 12);
             second = parseInt 10 (sliceStr str 12 14)
         in DDate (newDate (DateUTC year month day hour minute second)))
      else DString str)"

text \<open>
  The second pass over a time that the TLV decoder left as a string, common to
  \<^verbatim>\<open>getDecoded\<close> and \<^verbatim>\<open>getDecodedOrForceString\<close>.
\<close>

definition reparseTime :: "tagInfo \<Rightarrow> decodedValue option \<Rightarrow> decodedValue option" where
  "reparseTime t d =
     (case d of
        Some (DString s) \<Rightarrow>
          if tagType t = ''UTCTime'' \<or> tagType t = ''GeneralizedTime''
          then Some (parseASN1Date s) else d
      | _ \<Rightarrow> d)"

text \<open>\<^verbatim>\<open>getDecoded\<close> (line 47); the result \<^verbatim>\<open>null\<close> is \<open>None\<close>.\<close>

definition getDecoded :: "node option \<Rightarrow> decodedValue option" where
  "getDecoded no =
     (case no of
        None \<Rightarrow> None
      | Some (ConstructedNode t l cs off fh) \<Rightarrow> None
      | Some (PrimitiveNode t l v off fh) \<Rightarrow> reparseTime t (decoded v))"

text \<open>\<^verbatim>\<open>getDecodedOrForceString\<close> (line 59).\<close>

definition getDecodedOrForceString :: "node option \<Rightarrow> decodedValue option" where
  "getDecodedOrForceString no =
     (case no of
        None \<Rightarrow> None
      | Some (ConstructedNode t l cs off fh) \<Rightarrow> None
      | Some (PrimitiveNode t l v off fh) \<Rightarrow>
          reparseTime t
            (if decoded v = None \<and> rawHex v \<noteq> []
             then Some (DString (decodeIA5String (PrimitiveNode t l v off fh)))
             else decoded v))"

text \<open>\<^verbatim>\<open>getRawHex\<close> (line 77).\<close>

definition getRawHex :: "node option \<Rightarrow> string option" where
  "getRawHex no =
     (case no of
        None \<Rightarrow> None
      | Some (ConstructedNode t l cs off fh) \<Rightarrow> None
      | Some (PrimitiveNode t l v off fh) \<Rightarrow> Some (rawHex v))"

text \<open>\<^verbatim>\<open>x ?? d\<close>.\<close>

definition orElse :: "'a option \<Rightarrow> 'a \<Rightarrow> 'a" where
  "orElse x d = (case x of None \<Rightarrow> d | Some v \<Rightarrow> v)"

text \<open>
  \<^verbatim>\<open>makeField\<close> (line 83) reads \<^verbatim>\<open>node.offset\<close>: a \<^verbatim>\<open>TypeError\<close> when the node is
  \<^verbatim>\<open>undefined\<close>.
\<close>

record 'a x509Field =
  fieldValue :: 'a
  asn1Offset :: nat
  asn1FullHex :: string
  asn1Tag :: tagInfo

definition makeField :: "'a \<Rightarrow> node option \<Rightarrow> ('a x509Field) result" where
  "makeField v no =
     (case no of
        None \<Rightarrow> Inl TypeError
      | Some n \<Rightarrow>
          Inr \<lparr>fieldValue = v, asn1Offset = nodeOffset n, asn1FullHex = fullHex n,
               asn1Tag = nodeTag n\<rparr>)"

text \<open>\<^verbatim>\<open>extractOIDField\<close> (line 194).\<close>

record oidInfo =
  infoOid :: decodedValue
  infoLabel :: oidLabel

definition oidInfoOf :: "decodedValue \<Rightarrow> oidInfo" where
  "oidInfoOf v = \<lparr>infoOid = v, infoLabel = getOIDLabel v\<rparr>"

definition extractOIDField :: "node option \<Rightarrow> (oidInfo x509Field) result" where
  "extractOIDField no =
     bindE (valueOf no) (\<lambda>n.
       let oidNode = at (items n) 0;
           v = orElse (getDecoded oidNode) (DString ''Unknown'')
       in makeField (oidInfoOf v) oidNode)"

text \<open>
  \<^verbatim>\<open>extractName\<close> (line 201). The formatted name joins the strings
  \<^verbatim>\<open>`${label}=${value}`\<close> with a comma and a blank; it is kept as the list of its parts.
  \<^verbatim>\<open>const [typeNode, valueNode] = attrSeq.value\<close> throws when \<^verbatim>\<open>attrSeq\<close> is
  \<^verbatim>\<open>undefined\<close> and when its value is a leaf object.
\<close>

record nameField =
  attrOid :: decodedValue
  attrLabel :: oidLabel
  attrValue :: decodedValue

datatype formattedName = InvalidName | JoinedName "(oidLabel \<times> decodedValue) list"

record x509Name =
  formatted :: "formattedName x509Field"
  nameFields :: "(nameField list) x509Field"

definition destructure :: "node option \<Rightarrow> (node list) result" where
  "destructure no =
     (case no of
        None \<Rightarrow> Inl TypeError
      | Some (ConstructedNode t l cs off fh) \<Rightarrow> Inr cs
      | Some (PrimitiveNode t l v off fh) \<Rightarrow> Inl TypeError)"

definition rdnField :: "node \<Rightarrow> nameField result" where
  "rdnField rdn =
     bindE (destructure (at (items rdn) 0)) (\<lambda>attr.
       let v = orElse (getDecoded (at attr 0)) (DString ''Unknown'');
           w = orElse (getDecodedOrForceString (at attr 1)) (DString ''Unknown'')
       in Inr \<lparr>attrOid = v, attrLabel = getOIDLabel v, attrValue = w\<rparr>)"

definition extractName :: "node option \<Rightarrow> x509Name result" where
  "extractName no =
     bindE (valueOf no) (\<lambda>seqNode.
       if \<not> isArrayValue seqNode then
         bindE (makeField InvalidName no) (\<lambda>f.
         bindE (makeField [] no) (\<lambda>fs.
           Inr \<lparr>formatted = f, nameFields = fs\<rparr>))
       else
         bindE (mapE rdnField (items seqNode)) (\<lambda>flds.
         bindE (makeField (JoinedName (map (\<lambda>f. (attrLabel f, attrValue f)) flds)) no) (\<lambda>f.
         bindE (makeField flds no) (\<lambda>fs.
           Inr \<lparr>formatted = f, nameFields = fs\<rparr>))))"
subsection \<open>Extension values\<close>

text \<open>
  What \<^verbatim>\<open>parseKnownExtension\<close> returns: the raw hex, or the shape of one of the nine
  known extensions. Strings that the source renders from values of any type
  (\<^verbatim>\<open>`${a}=${b}`\<close>, \<^verbatim>\<open>JSON.stringify\<close>) are kept as the values they are rendered from.
\<close>

datatype generalNameValue =
    GNText string
  | GNDirectoryName "(decodedValue \<times> decodedValue) list"
  | GNJson "node list"

record generalName =
  gnType :: string
  gnValue :: generalNameValue

record accessDescription =
  accessMethod :: oidInfo
  accessLocation :: string

record policyQualifier =
  policyQualifierId :: oidInfo
  qualifier :: decodedValue

record policyInformation =
  policyId :: oidInfo
  qualifiers :: "policyQualifier list option"

datatype anyTree = AnyList "anyTree list" | AnyLeaf "decodedValue option"

datatype statementInfo =
    NoInfo
  | PdsInfo "(decodedValue \<times> decodedValue option) list"
  | TypeInfo "oidInfo list"
  | AnyInfo anyTree

record qcStatement =
  statementId :: oidInfo
  statementInfoOf :: statementInfo

record basicConstraints =
  cA :: "bool option"
  pathLenConstraint :: "decodedValue option"

record authorityKeyIdentifier =
  keyIdentifier :: "string option"
  authorityCertIssuer :: "string option"
  authorityCertSerialNumber :: "string option"

datatype extensionValue =
    RawHex string
  | SubjectAltName "generalName list"
  | KeyUsage "(string \<times> bool) list"
  | BasicConstraints basicConstraints
  | CRLDistributionPoints "string list"
  | CertificatePolicies "policyInformation list"
  | AuthorityKeyIdentifier authorityKeyIdentifier
  | ExtendedKeyUsage "oidInfo list"
  | AuthorityInfoAccess "accessDescription list"
  | QCStatements "qcStatement list"

subsection \<open>keyUsage and basicConstraints\<close>

text \<open>
  \<^verbatim>\<open>parseInt(bitsHex, 16).toString(2)\<close>. A number is a double: an integer of more than
  53 bits is rounded to 53 significant bits, ties to even, and is infinite from
  \<open>2 ^ 1024\<close> on. \<open>None\<close> is \<^verbatim>\<open>NaN\<close>.
\<close>

function bitLength :: "nat \<Rightarrow> nat" where
  "bitLength n = (if n = 0 then 0 else Suc (bitLength (n div 2)))"
  by pat_completeness auto
termination
  by (relation "measure id") auto

declare bitLength.simps [simp del]

definition roundDouble :: "nat \<Rightarrow> nat option" where
  "roundDouble n =
     (if bitLength n \<le> 53 then Some n
      else
        (let e = bitLength n - 53; q = n div 2 ^ e; r = n mod 2 ^ e; half = 2 ^ (e - 1);
             q' = (if r > half \<or> (r = half \<and> odd q) then q + 1 else q);
             v = q' * 2 ^ e
         in if v \<ge> 2 ^ 1024 then None else Some v))"

definition numberToBinary :: "int option \<Rightarrow> string" where
  "numberToBinary v =
     (case v of
        None \<Rightarrow> ''NaN''
      | Some i \<Rightarrow>
          (case roundDouble (nat \<bar>i\<bar>) of
             None \<Rightarrow> (if i < 0 then ''-Infinity'' else ''Infinity'')
           | Some m \<Rightarrow> (if i < 0 \<and> m \<noteq> 0 then ''-'' else []) @ natToString 2 m))"

text \<open>\<^verbatim>\<open>s.padStart(n, '0')\<close> and \<^verbatim>\<open>s.substring(0, e)\<close>, \<open>e\<close> a number or \<^verbatim>\<open>NaN\<close>.\<close>

definition padStart0 :: "nat \<Rightarrow> string \<Rightarrow> string" where
  "padStart0 n s = replicate (n - length s) (CHR ''0'') @ s"

definition substringTo :: "string \<Rightarrow> int option \<Rightarrow> string" where
  "substringTo s e = (case e of None \<Rightarrow> [] | Some k \<Rightarrow> take (nat k) s)"

text \<open>\<^verbatim>\<open>parseKeyUsage\<close> (line 283).\<close>

definition parseKeyUsage :: "node option \<Rightarrow> (string \<times> bool) list" where
  "parseKeyUsage no =
     (let raw = orElse (getRawHex no) [] in
      if take 2 raw \<noteq> ''03'' then []
      else
        (let unusedBits = parseInt 16 (sliceStr raw 4 6);
             bitsHex = drop 6 raw;
             bitsBinary = padStart0 (length bitsHex * 4) (numberToBinary (parseInt 16 bitsHex));
             meaningfulBits =
               substringTo bitsBinary (map_option (\<lambda>u. int (length bitsBinary) - u) unusedBits)
         in map (\<lambda>(bit, name). (name, at meaningfulBits bit = Some (CHR ''1''))) KeyUsageLabels))"

text \<open>
  \<^verbatim>\<open>parseBasicConstraints\<close> (line 302). It reads the children of the value node; it
  does not decode the bytes of a primitive value.
\<close>

definition parseBasicConstraints :: "(byte list \<Rightarrow> bool) \<Rightarrow> node option \<Rightarrow> basicConstraints result" where
  "parseBasicConstraints rt no =
     bindE (valueOf no) (\<lambda>n.
       let seq = (case at (items n) 0 of
                    Some (ConstructedNode t l cs off fh) \<Rightarrow> cs
                  | _ \<Rightarrow> [])
       in Inr \<lparr>cA = (if length seq > 0 then Some (truthyOpt rt (getDecoded (at seq 0))) else None),
               pathLenConstraint = (if length seq > 1 then getDecoded (at seq 1) else None)\<rparr>)"

subsection \<open>Extensions whose value is decoded again\<close>

text \<open>
  The value of an extension is an OCTET STRING; its bytes, read back from the hex,
  are decoded in parse-all mode, and the children of the first node labelled
  \<^verbatim>\<open>SEQUENCE\<close> are the entries. \<open>firstSequence\<close> is the opening common to
  \<^verbatim>\<open>parseQCStatements\<close> (line 318), \<^verbatim>\<open>parseCertificatePolicies\<close> (line 461),
  \<^verbatim>\<open>parseAuthorityKeyIdentifier\<close> (line 552) and \<^verbatim>\<open>parseExtendedKeyUsage\<close> (line 599):
  \<open>None\<close> where they return their empty result.
\<close>

definition isSequence :: "node \<Rightarrow> bool" where
  "isSequence n = (tagType (nodeTag n) = ''SEQUENCE'')"

definition isContext :: "node \<Rightarrow> int \<Rightarrow> bool" where
  "isContext n k = (tagCls (nodeTag n) = CONTEXT_SPECIFIC \<and> tagNumber (nodeTag n) = k)"

definition firstSequence :: "node option \<Rightarrow> (node list option) result" where
  "firstSequence no =
     (case getRawHex no of
        None \<Rightarrow> Inr None
      | Some raw \<Rightarrow>
          if raw = [] then Inr None
          else
            bindE (hexToArrayBuffer raw) (\<lambda>buf.
              case List.find isSequence (fst (parseASN1 buf True)) of
                Some (ConstructedNode t l cs off fh) \<Rightarrow> Inr (Some cs)
              | _ \<Rightarrow> Inr None))"

text \<open>\<^verbatim>\<open>parseASN1FromRawHex\<close> (line 632).\<close>

definition parseASN1FromRawHex :: "node option \<Rightarrow> (node list) result" where
  "parseASN1FromRawHex no = bindE (firstSequence no) (\<lambda>r. Inr (orElse r []))"

text \<open>\<^verbatim>\<open>parseAnyASN1\<close> (line 395); \<^verbatim>\<open>null\<close> is the leaf \<open>None\<close>.\<close>

fun parseAnyASN1 :: "node \<Rightarrow> anyTree" where
  "parseAnyASN1 (ConstructedNode t l cs off fh) =
     (if tagType t = ''SEQUENCE'' then AnyList (map parseAnyASN1 cs) else AnyLeaf None)"
| "parseAnyASN1 (PrimitiveNode t l v off fh) =
     AnyLeaf (getDecodedOrForceString (Some (PrimitiveNode t l v off fh)))"

text \<open>\<^verbatim>\<open>parseQcType\<close> (line 374).\<close>

definition parseQcType :: "(byte list \<Rightarrow> bool) \<Rightarrow> node \<Rightarrow> oidInfo list" where
  "parseQcType rt n =
     map oidInfoOf
       (filter (truthy rt)
          (map (\<lambda>entry. orElse (getDecoded (Some entry)) (DString [])) (items n)))"

text \<open>\<^verbatim>\<open>parseQcPDS\<close> (line 405).\<close>

definition parseQcPDS :: "(byte list \<Rightarrow> bool) \<Rightarrow> node \<Rightarrow> (decodedValue \<times> decodedValue option) list" where
  "parseQcPDS rt n =
     concat (map (\<lambda>entry.
       case entry of
         PrimitiveNode t l v off fh \<Rightarrow> []
       | ConstructedNode t l elements off fh \<Rightarrow>
           (let urlNode = List.find (\<lambda>el. tagType (nodeTag el) = ''IA5String'') elements;
                languageNode = List.find (\<lambda>el. tagType (nodeTag el) = ''PrintableString'') elements;
                url = getDecodedOrForceString urlNode;
                language = getDecoded languageNode
            in case url of
                 None \<Rightarrow> []
               | Some u \<Rightarrow> if truthy rt u then [(u, language)] else [])) (items n))"

text \<open>
  \<^verbatim>\<open>parseSingleQCStatement\<close> (line 339). For a leaf object \<^verbatim>\<open>flds.length\<close> is
  \<^verbatim>\<open>undefined\<close>, neither 0 nor greater than 1.
\<close>

definition parseSingleQCStatement :: "(byte list \<Rightarrow> bool) \<Rightarrow> node \<Rightarrow> qcStatement" where
  "parseSingleQCStatement rt n =
     (if isArrayValue n \<and> items n = [] then
        \<lparr>statementId = \<lparr>infoOid = DString ''Unknown'', infoLabel = Label ''Unknown''\<rparr>,
         statementInfoOf = NoInfo\<rparr>
      else
        (let flds = items n;
             sid = orElse (getDecoded (at flds 0)) (DString ''Unknown'')
         in \<lparr>statementId = oidInfoOf sid,
             statementInfoOf =
               (case at flds 1 of
                  None \<Rightarrow> NoInfo
                | Some infoNode \<Rightarrow>
                    if sid = DString ''0.4.0.1862.1.5'' then PdsInfo (parseQcPDS rt infoNode)
                    else if sid = DString ''0.4.0.1862.1.6'' then TypeInfo (parseQcType rt infoNode)
                    else if isSequence infoNode \<and> isArrayValue infoNode
                      then AnyInfo (AnyList (map parseAnyASN1 (items infoNode)))
                    else AnyInfo (parseAnyASN1 infoNode))\<rparr>))"

text \<open>\<^verbatim>\<open>parseQCStatements\<close> (line 318).\<close>

definition parseQCStatements :: "(byte list \<Rightarrow> bool) \<Rightarrow> node option \<Rightarrow> (qcStatement list) result" where
  "parseQCStatements rt no =
     bindE (firstSequence no) (\<lambda>r.
       Inr (map (parseSingleQCStatement rt) (orElse r [])))"

text \<open>
  \<^verbatim>\<open>parseCertificatePolicies\<close> (line 461). A qualifier whose value is not an array is
  dropped by \<^verbatim>\<open>filter(Boolean)\<close>; a qualifier with no second element throws at
  \<^verbatim>\<open>qualifierValueNode.value\<close>.
\<close>

definition parseQualifier :: "(byte list \<Rightarrow> bool) \<Rightarrow> node \<Rightarrow> (policyQualifier option) result" where
  "parseQualifier rt q =
     (case q of
        PrimitiveNode t l v off fh \<Rightarrow> Inr None
      | ConstructedNode t l cs off fh \<Rightarrow>
          (let qid = orElse (getDecoded (at cs 0)) (DString ''Unknown'');
               txt = orElse (getDecoded (at cs 1)) (DString [])
           in if truthy rt txt then Inr (Some \<lparr>policyQualifierId = oidInfoOf qid, qualifier = txt\<rparr>)
              else
                bindE (valueOf (at cs 1)) (\<lambda>qv.
                  Inr (Some \<lparr>policyQualifierId = oidInfoOf qid,
                             qualifier =
                               (case getRawHex (Some qv) of
                                  None \<Rightarrow> txt
                                | Some raw \<Rightarrow>
                                    if raw = [] then txt else DString (hexToAsciiSafe raw))\<rparr>))))"

definition parsePolicy :: "(byte list \<Rightarrow> bool) \<Rightarrow> node \<Rightarrow> (policyInformation option) result" where
  "parsePolicy rt policyNode =
     (case policyNode of
        PrimitiveNode t l v off fh \<Rightarrow> Inr None
      | ConstructedNode t l flds off fh \<Rightarrow>
          (let pid = orElse (getDecoded (at flds 0)) (DString ''Unknown'') in
           case at flds 1 of
             Some (ConstructedNode t' l' qs off' fh') \<Rightarrow>
               bindE (mapE (parseQualifier rt) qs) (\<lambda>rs.
                 Inr (Some \<lparr>policyId = oidInfoOf pid,
                            qualifiers = Some (List.map_filter id rs)\<rparr>))
           | _ \<Rightarrow> Inr (Some \<lparr>policyId = oidInfoOf pid, qualifiers = None\<rparr>)))"

definition parseCertificatePolicies ::
  "(byte list \<Rightarrow> bool) \<Rightarrow> node option \<Rightarrow> (policyInformation list) result" where
  "parseCertificatePolicies rt no =
     bindE (firstSequence no) (\<lambda>r.
     bindE (mapE (parsePolicy rt) (orElse r [])) (\<lambda>ps.
       Inr (List.map_filter id ps)))"

text \<open>\<^verbatim>\<open>parseAuthorityKeyIdentifier\<close> (line 552); a later field overwrites an earlier one.\<close>

definition toUpperCase :: "string \<Rightarrow> string" where
  "toUpperCase s =
     map (\<lambda>c. let k = (of_char c :: nat) in if 97 \<le> k \<and> k \<le> 122 then char_of (k - 32) else c) s"

definition upperRawHex :: "node \<Rightarrow> string option" where
  "upperRawHex n =
     (case getRawHex (Some n) of
        None \<Rightarrow> None
      | Some raw \<Rightarrow> if raw = [] then None else Some (toUpperCase raw))"

definition akiField :: "authorityKeyIdentifier \<Rightarrow> node \<Rightarrow> authorityKeyIdentifier" where
  "akiField r field =
     (if isContext field 0 then
        (case upperRawHex field of None \<Rightarrow> r | Some h \<Rightarrow> r\<lparr>keyIdentifier := Some h\<rparr>)
      else if isContext field 1 then
        r\<lparr>authorityCertIssuer :=
            Some (case getDecodedOrForceString (Some field) of Some (DString s) \<Rightarrow> s | _ \<Rightarrow> [])\<rparr>
      else if isContext field 2 then
        (case upperRawHex field of None \<Rightarrow> r | Some h \<Rightarrow> r\<lparr>authorityCertSerialNumber := Some h\<rparr>)
      else r)"

definition parseAuthorityKeyIdentifier :: "node option \<Rightarrow> authorityKeyIdentifier result" where
  "parseAuthorityKeyIdentifier no =
     bindE (firstSequence no) (\<lambda>r.
       Inr (foldl akiField
              \<lparr>keyIdentifier = None, authorityCertIssuer = None, authorityCertSerialNumber = None\<rparr>
              (orElse r [])))"

text \<open>\<^verbatim>\<open>parseExtendedKeyUsage\<close> (line 599).\<close>

definition parseExtendedKeyUsage :: "node option \<Rightarrow> (oidInfo list) result" where
  "parseExtendedKeyUsage no =
     bindE (firstSequence no) (\<lambda>r.
       Inr (map (\<lambda>usageNode. oidInfoOf (orElse (getDecoded (Some usageNode)) (DString ''Unknown'')))
              (orElse r [])))"

subsection \<open>General names\<close>

text \<open>\<^verbatim>\<open>decodeContextString\<close> (line 674) reads \<^verbatim>\<open>node.value\<close>.\<close>

definition decodeContextString :: "node option \<Rightarrow> string result" where
  "decodeContextString no =
     bindE (valueOf no) (\<lambda>n.
       case getRawHex (Some n) of
         None \<Rightarrow> Inr []
       | Some raw \<Rightarrow> Inr (if raw = [] then [] else hexToAsciiSafe raw))"

text \<open>\<^verbatim>\<open>decodeIPAddress\<close> (line 678).\<close>

definition numberString :: "int option \<Rightarrow> string" where
  "numberString v = (case v of None \<Rightarrow> ''NaN'' | Some i \<Rightarrow> intToString 10 i)"

definition decodeIPAddress :: "node \<Rightarrow> string" where
  "decodeIPAddress n =
     (case getRawHex (Some n) of
        None \<Rightarrow> []
      | Some hex \<Rightarrow>
          if length hex = 8 then
            joinStrings ''.'' (map (\<lambda>i. numberString (parseInt 16 (take 2 (drop (i * 2) hex)))) [0..<4])
          else if length hex = 32 then
            joinStrings '':'' (map (\<lambda>i. take 4 (drop (i * 4) hex)) [0..<8])
          else [])"

text \<open>
  \<^verbatim>\<open>parseDirectoryName\<close> (line 687) decodes the bytes of the whole element again and
  renders \<^verbatim>\<open>`${type}=${value}`\<close> for each node of the result.
\<close>

definition parseDirectoryName :: "node \<Rightarrow> ((decodedValue \<times> decodedValue) list) result" where
  "parseDirectoryName n =
     bindE (hexToArrayBuffer (fullHex n)) (\<lambda>buf.
       Inr (map (\<lambda>rdn.
              let attr = (case at (items rdn) 0 of
                            Some (ConstructedNode t l cs off fh) \<Rightarrow> cs
                          | _ \<Rightarrow> [])
              in (orElse (getDecoded (at attr 0)) (DString ''Unknown''),
                  orElse (getDecoded (at attr 1)) (DString ''Unknown'')))
            (fst (parseASN1 buf True))))"

text \<open>
  \<^verbatim>\<open>parseRegisteredID\<close> (line 700) passes the array of decoded nodes to \<^verbatim>\<open>getDecoded\<close>.
  An array is truthy and has no property \<^verbatim>\<open>value\<close>, so that \<^verbatim>\<open>node.value.decoded\<close>
  throws.
\<close>

definition parseRegisteredID :: "node \<Rightarrow> string result" where
  "parseRegisteredID n = bindE (hexToArrayBuffer (fullHex n)) (\<lambda>buf. Inl TypeError)"

text \<open>\<^verbatim>\<open>parseOtherName\<close> (line 705): the JSON text of the nodes decoded.\<close>

definition parseOtherName :: "node \<Rightarrow> (node list) result" where
  "parseOtherName n = bindE (hexToArrayBuffer (fullHex n)) (\<lambda>buf. Inr (fst (parseASN1 buf True)))"

text \<open>\<^verbatim>\<open>decodeGeneralName\<close> (line 661).\<close>

definition named :: "string \<Rightarrow> generalNameValue result \<Rightarrow> generalName result" where
  "named ty r = bindE r (\<lambda>v. Inr \<lparr>gnType = ty, gnValue = v\<rparr>)"

definition textName :: "string result \<Rightarrow> generalNameValue result" where
  "textName r = bindE r (\<lambda>s. Inr (GNText s))"

definition decodeGeneralName :: "node \<Rightarrow> generalName result" where
  "decodeGeneralName n =
     (let k = tagNumber (nodeTag n) in
      if k = 1 then named ''email'' (textName (decodeContextString (Some n)))
      else if k = 2 then named ''DNS'' (textName (decodeContextString (Some n)))
      else if k = 6 then named ''URI'' (textName (decodeContextString (Some n)))
      else if k = 7 then named ''IP'' (Inr (GNText (decodeIPAddress n)))
      else if k = 4 then
        named ''directoryName'' (bindE (parseDirectoryName n) (\<lambda>ps. Inr (GNDirectoryName ps)))
      else if k = 8 then named ''registeredID'' (textName (parseRegisteredID n))
      else if k = 0 then named ''otherName'' (bindE (parseOtherName n) (\<lambda>ns. Inr (GNJson ns)))
      else named (''Unknown('' @ intToString 10 k @ '')'') (textName (decodeContextString (Some n))))"

text \<open>\<^verbatim>\<open>parseSubjectAltName\<close> (line 654).\<close>

definition parseSubjectAltName :: "node option \<Rightarrow> (generalName list) result" where
  "parseSubjectAltName no =
     bindE (parseASN1FromRawHex no) (\<lambda>names.
       mapE decodeGeneralName
         (filter (\<lambda>n. tagCls (nodeTag n) = CONTEXT_SPECIFIC) names))"

text \<open>
  \<^verbatim>\<open>parseAuthorityInfoAccess\<close> (line 720) destructures the value of every entry.
\<close>

definition parseAccessDescription :: "node \<Rightarrow> accessDescription result" where
  "parseAccessDescription desc =
     bindE (destructure (Some desc)) (\<lambda>cs.
     bindE (decodeContextString (at cs 1)) (\<lambda>location.
       Inr \<lparr>accessMethod = oidInfoOf (orElse (getDecoded (at cs 0)) (DString ''Unknown'')),
            accessLocation = location\<rparr>))"

definition parseAuthorityInfoAccess :: "node option \<Rightarrow> (accessDescription list) result" where
  "parseAuthorityInfoAccess no =
     bindE (parseASN1FromRawHex no) (mapE parseAccessDescription)"

text \<open>
  \<^verbatim>\<open>parseCRLDistributionPoints\<close> (line 737) calls \<^verbatim>\<open>find\<close> on the value of every
  entry, which a leaf object does not have.
\<close>

definition distributionPointsOf :: "node \<Rightarrow> (string list) result" where
  "distributionPointsOf entry =
     bindE (destructure (Some entry)) (\<lambda>cs.
       case List.find (\<lambda>f. isContext f 0) cs of
         Some (ConstructedNode t l ds off fh) \<Rightarrow>
           (case at ds 0 of
              Some (ConstructedNode t' l' names off' fh') \<Rightarrow>
                bindE (mapE (\<lambda>n. decodeContextString (Some n))
                         (filter (\<lambda>n. isContext n 6) names)) (\<lambda>urls.
                  Inr (filter (\<lambda>u. u \<noteq> []) urls))
            | _ \<Rightarrow> Inr [])
       | _ \<Rightarrow> Inr [])"

definition parseCRLDistributionPoints :: "node option \<Rightarrow> (string list) result" where
  "parseCRLDistributionPoints no =
     bindE (parseASN1FromRawHex no) (\<lambda>entries.
     bindE (mapE distributionPointsOf entries) (\<lambda>ps. Inr (concat ps)))"

text \<open>\<^verbatim>\<open>parseKnownExtension\<close> (line 263).\<close>

definition wrap :: "('a \<Rightarrow> extensionValue) \<Rightarrow> 'a result \<Rightarrow> extensionValue result" where
  "wrap c r = bindE r (\<lambda>x. Inr (c x))"

definition parseKnownExtension ::
  "(byte list \<Rightarrow> bool) \<Rightarrow> decodedValue \<Rightarrow> node option \<Rightarrow> extensionValue result" where
  "parseKnownExtension rt oid valueNode =
     (if oid = DString ''2.5.29.17'' then wrap SubjectAltName (parseSubjectAltName valueNode)
      else if oid = DString ''2.5.29.15'' then Inr (KeyUsage (parseKeyUsage valueNode))
      else if oid = DString ''2.5.29.19'' then wrap BasicConstraints (parseBasicConstraints rt valueNode)
      else if oid = DString ''2.5.29.31'' then wrap CRLDistributionPoints (parseCRLDistributionPoints valueNode)
      else if oid = DString ''2.5.29.32'' then wrap CertificatePolicies (parseCertificatePolicies rt valueNode)
      else if oid = DString ''2.5.29.35'' then wrap AuthorityKeyIdentifier (parseAuthorityKeyIdentifier valueNode)
      else if oid = DString ''2.5.29.37'' then wrap ExtendedKeyUsage (parseExtendedKeyUsage valueNode)
      else if oid = DString ''1.3.6.1.5.5.7.1.1'' then wrap AuthorityInfoAccess (parseAuthorityInfoAccess valueNode)
      else if oid = DString ''1.3.6.1.5.5.7.1.3'' then wrap QCStatements (parseQCStatements rt valueNode)
      else Inr (RawHex (orElse (getRawHex valueNode) [])))"

subsection \<open>The certificate\<close>

text \<open>
  The version is \<^verbatim>\<open>(getDecoded(versionInner) ?? 0) + 1\<close>: a sum for a number or a
  boolean, a concatenation for a string, and for any other value the text of that
  value followed by \<^verbatim>\<open>1\<close>, or a floating-point sum, kept as the value.
\<close>

datatype versionValue = VersionNumber int | VersionText string | VersionPlusOne decodedValue

definition plusOne :: "decodedValue \<Rightarrow> versionValue" where
  "plusOne v =
     (case v of
        DNumber n \<Rightarrow> VersionNumber (n + 1)
      | DBool b \<Rightarrow> VersionNumber (if b then 2 else 1)
      | DString s \<Rightarrow> VersionText (s @ ''1'')
      | _ \<Rightarrow> VersionPlusOne v)"

record x509Extension =
  extnID :: "oidInfo x509Field"
  critical :: "bool x509Field"
  extnValue :: "extensionValue x509Field"

record x509Validity =
  notBefore :: "decodedValue x509Field"
  notAfter :: "decodedValue x509Field"

record x509PublicKeyInfo =
  algorithm :: "oidInfo x509Field"
  publicKey :: "string x509Field"

record x509Certificate =
  version :: "versionValue x509Field"
  serialNumber :: "string x509Field"
  signatureAlgorithm :: "oidInfo x509Field"
  issuer :: x509Name
  validity :: x509Validity
  subject :: x509Name
  subjectPublicKeyInfo :: x509PublicKeyInfo
  extensions :: "x509Extension list option"
  signatureAlgorithmCert :: "oidInfo x509Field"
  signatureValue :: "string x509Field"

text \<open>
  The callback of \<^verbatim>\<open>extnList.map\<close> (lines 142 to 157). Nothing catches what
  \<^verbatim>\<open>parseKnownExtension\<close> or \<^verbatim>\<open>makeField\<close> throws.
\<close>

definition decodeExtension :: "(byte list \<Rightarrow> bool) \<Rightarrow> node \<Rightarrow> x509Extension result" where
  "decodeExtension rt ext =
     (let extFields = items ext;
          extnIDNode = at extFields 0;
          criticalNode = (if length extFields = 3 then at extFields 1 else None);
          valueNode = (if extFields = [] then None else at extFields (length extFields - 1));
          oid = orElse (getDecoded extnIDNode) (DString ''Unknown'');
          crit = (case criticalNode of None \<Rightarrow> False | Some c \<Rightarrow> truthyOpt rt (getDecoded (Some c)))
      in bindE (parseKnownExtension rt oid valueNode) (\<lambda>parsedValue.
         bindE (makeField (oidInfoOf oid) extnIDNode) (\<lambda>f1.
         bindE (makeField crit (if criticalNode = None then extnIDNode else criticalNode)) (\<lambda>f2.
         bindE (makeField parsedValue valueNode) (\<lambda>f3.
           Inr \<lparr>extnID = f1, critical = f2, extnValue = f3\<rparr>)))))"

text \<open>
  The loop over the optional flds of the TBSCertificate (lines 136 to 160); the
  last field tagged [3] that holds a \<^verbatim>\<open>SEQUENCE\<close> gives the extensions.
\<close>

fun optionalFields ::
  "(byte list \<Rightarrow> bool) \<Rightarrow> node list \<Rightarrow> x509Extension list option \<Rightarrow> (x509Extension list option) result"
where
  "optionalFields rt [] acc = Inr acc"
| "optionalFields rt (optionalField # rest) acc =
     (if isContext optionalField 3 then
        (case at (items optionalField) 0 of
           Some (ConstructedNode t l extnList off fh) \<Rightarrow>
             if tagType t = ''SEQUENCE'' then
               bindE (mapE (decodeExtension rt) extnList) (\<lambda>es. optionalFields rt rest (Some es))
             else optionalFields rt rest acc
         | _ \<Rightarrow> optionalFields rt rest acc)
      else optionalFields rt rest acc)"

text \<open>The object returned (lines 170 to 187), its flds in the order of evaluation.\<close>

definition assemble ::
  "versionValue \<Rightarrow> node option \<Rightarrow> node list \<Rightarrow> nat \<Rightarrow> x509Extension list option \<Rightarrow>
   node option \<Rightarrow> node option \<Rightarrow> node option \<Rightarrow> node option \<Rightarrow>
   node option \<Rightarrow> node option \<Rightarrow> x509Certificate result" where
  "assemble ver tbsCertificate tbs idx exts notBeforeNode notAfterNode algorithmNode publicKeyNode
     signatureAlgorithmNode signatureValueNode =
     bindE (makeField ver tbsCertificate) (\<lambda>f1.
     bindE (makeField (orElse (getRawHex (at tbs idx)) []) (at tbs idx)) (\<lambda>f2.
     bindE (extractOIDField (at tbs (idx + 1))) (\<lambda>f3.
     bindE (extractName (at tbs (idx + 2))) (\<lambda>f4.
     bindE (makeField (orElse (getDecoded notBeforeNode) (DString [])) notBeforeNode) (\<lambda>f5.
     bindE (makeField (orElse (getDecoded notAfterNode) (DString [])) notAfterNode) (\<lambda>f6.
     bindE (extractName (at tbs (idx + 4))) (\<lambda>f7.
     bindE (extractOIDField algorithmNode) (\<lambda>f8.
     bindE (makeField (orElse (getRawHex publicKeyNode) []) publicKeyNode) (\<lambda>f9.
     bindE (extractOIDField signatureAlgorithmNode) (\<lambda>f10.
     bindE (makeField (orElse (getRawHex signatureValueNode) []) signatureValueNode) (\<lambda>f11.
       Inr \<lparr>version = f1, serialNumber = f2, signatureAlgorithm = f3, issuer = f4,
            validity = \<lparr>notBefore = f5, notAfter = f6\<rparr>, subject = f7,
            subjectPublicKeyInfo = \<lparr>algorithm = f8, publicKey = f9\<rparr>,
            extensions = exts, signatureAlgorithmCert = f10, signatureValue = f11\<rparr>)))))))))))"

text \<open>
  \<^verbatim>\<open>parseX509Certificate\<close> (line 110). The only check of the root is that of its
  type name and of its value being an array; every later read of a node that is not
  there throws a \<^verbatim>\<open>TypeError\<close>.
\<close>

definition parseX509Certificate :: "(byte list \<Rightarrow> bool) \<Rightarrow> node \<Rightarrow> x509Certificate result" where
  "parseX509Certificate rt asn1 =
     (if tagType (nodeTag asn1) \<noteq> ''SEQUENCE'' \<or> \<not> isArrayValue asn1 then
        Inl InvalidCertificateStructure
      else
        (let tbsCertificate = at (items asn1) 0;
             signatureAlgorithmNode = at (items asn1) 1;
             signatureValueNode = at (items asn1) 2
         in bindE (valueOf tbsCertificate) (\<lambda>tbsNode.
            let tbs = items tbsNode in
            bindE (valueOf (at tbs 0)) (\<lambda>first.
            let hasVersion = isContext first 0;
                ver = (if hasVersion
                       then plusOne (orElse (getDecoded (at (items first) 0)) (DNumber 0))
                       else VersionNumber 1);
                idx = (if hasVersion then 1 else 0)
            in bindE (optionalFields rt (drop (idx + 6) tbs) None) (\<lambda>exts.
               bindE (valueOf (at tbs (idx + 3))) (\<lambda>validityNode.
               bindE (valueOf (at tbs (idx + 5))) (\<lambda>spkiNode.
                 assemble ver tbsCertificate tbs idx exts
                   (at (items validityNode) 0) (at (items validityNode) 1)
                   (at (items spkiNode) 0) (at (items spkiNode) 1)
                   signatureAlgorithmNode signatureValueNode)))))))"

section \<open>Facts about the 32-bit accumulators\<close>

text \<open>
  The big-endian value of a byte string, as a natural number, is what the loops
  \<^verbatim>\<open>acc = (acc << 8) | byte\<close> are meant to compute. In 32 bits they compute it modulo
  \<open>2 ^ 32\<close>, read back as a signed number.
\<close>

definition beNat :: "byte list \<Rightarrow> nat" where
  "beNat bs = foldl (\<lambda>a b. a * 256 + unat b) 0 bs"

lemma shiftInByte_plus: "shiftInByte acc b = acc * 256 + ucast b"
proof -
  have "push_bit 8 acc AND (ucast b :: int32) = 0"
    by (rule bit_eqI) (auto simp: bit_simps dest: bit_imp_le_length)
  then have "push_bit 8 acc + (ucast b :: int32) = push_bit 8 acc OR ucast b"
    by (rule disjunctive_add_eq_or)
  then show ?thesis by (simp add: shiftInByte_def push_bit_eq_mult)
qed

lemma unat_byte_lt: "unat (b :: byte) < 256"
  using unsigned_less[of b, where 'a = nat] by simp

lemma unat_ucast_byte: "unat (ucast (b :: byte) :: int32) = unat b"
  by (simp add: unsigned_ucast_eq take_bit_nat_eq_self unat_byte_lt[THEN less_trans])

lemma unat_shiftInByte: "unat (shiftInByte acc b) = (unat acc * 256 + unat b) mod 4294967296"
  by (simp add: shiftInByte_plus unat_word_ariths unat_ucast_byte mod_simps)

lemma beNat_snoc: "beNat (bs @ [b]) = beNat bs * 256 + unat b"
  by (simp add: beNat_def)

lemma beNat_bound: "beNat bs < 256 ^ length bs"
proof (induction bs rule: rev_induct)
  case Nil
  then show ?case by (simp add: beNat_def)
next
  case (snoc b bs)
  with unat_byte_lt[of b] show ?case by (simp add: beNat_snoc)
qed

lemma mod_shift_step:
  "((a mod m) * 256 + x) mod m = (a * 256 + x) mod (m::nat)"
proof -
  have "((a mod m) * 256 + x) mod m = (((a mod m) * 256) mod m + x) mod m"
    by (simp only: mod_add_left_eq)
  also have "\<dots> = ((a * 256) mod m + x) mod m"
    by (simp only: mod_mult_left_eq)
  also have "\<dots> = (a * 256 + x) mod m"
    by (simp only: mod_add_left_eq)
  finally show ?thesis .
qed

lemma unat_foldl_shiftInByte_from:
  "unat (foldl shiftInByte acc bs) = (unat acc * 256 ^ length bs + beNat bs) mod 4294967296"
proof (induction bs rule: rev_induct)
  case Nil
  have "unat acc < 4294967296" using unsigned_less[of acc, where 'a = nat] by simp
  then show ?case by (simp add: beNat_def)
next
  case (snoc b bs)
  have "unat (foldl shiftInByte acc (bs @ [b]))
          = (unat (foldl shiftInByte acc bs) * 256 + unat b) mod 4294967296"
    by (simp add: unat_shiftInByte)
  also have "\<dots> = ((unat acc * 256 ^ length bs + beNat bs) * 256 + unat b) mod 4294967296"
    by (simp only: snoc.IH mod_shift_step)
  also have "(unat acc * 256 ^ length bs + beNat bs) * 256 + unat b
               = unat acc * 256 ^ length (bs @ [b]) + beNat (bs @ [b])"
    by (simp add: beNat_snoc add_mult_distrib)
  finally show ?case .
qed

lemma unat_foldl_shiftInByte:
  "unat (foldl shiftInByte 0 bs) = beNat bs mod 4294967296"
  by (simp add: unat_foldl_shiftInByte_from)

lemma sint_small:
  assumes "unat (w::int32) < 2147483648"
  shows "sint w = int (unat w)"
proof -
  have u: "int (unat w) = uint w" by simp
  have "int (unat w) < 2147483648" using assms by linarith
  then have "uint w < 2 ^ 31" using u by simp
  moreover have "- (2 ^ 31) \<le> uint w" by (rule order_trans[of _ 0]) simp_all
  ultimately have "signed_take_bit 31 (uint w) = uint w"
    by (rule signed_take_bit_int_eq_self[rotated])
  then show ?thesis using u by (simp add: sint_uint)
qed

lemma pow256_le: "n \<le> 3 \<Longrightarrow> (256::nat) ^ n \<le> 16777216"
proof -
  assume "n \<le> 3"
  then have "(256::nat) ^ n \<le> 256 ^ 3" by (intro power_increasing) auto
  then show ?thesis by simp
qed

section \<open>Unfolding the loops\<close>

lemma parseLoop_done:
  "\<not> off < length buf \<Longrightarrow> parseLoop buf pa off ns = (ns, [])"
  by (subst parseLoop.simps) simp

lemma parseLoop_fail:
  "off < length buf \<Longrightarrow> parseElement buf off = Inl (e, errOff) \<Longrightarrow>
     parseLoop buf pa off ns = (ns, [\<lparr>errorOffset = errOff, errorCause = e\<rparr>])"
  by (subst parseLoop.simps) simp

lemma parseLoop_step:
  "off < length buf \<Longrightarrow> parseElement buf off = Inr (n, off1) \<Longrightarrow>
     parseLoop buf True off ns = parseLoop buf True off1 (ns @ [n])"
  by (subst parseLoop.simps) simp

lemma parseChildren_stop:
  "\<not> int off < e \<Longrightarrow> parseChildren buf e off acc = Inr (acc, off)"
  by (subst parseChildren.simps) simp

lemma parseChildren_step:
  "int off < e \<Longrightarrow> parseElement buf off = Inr (n, off1) \<Longrightarrow>
     parseChildren buf e off acc = parseChildren buf e off1 (acc @ [n])"
  by (subst parseChildren.simps) simp

section \<open>What the mapper throws\<close>

text \<open>
  The error \<^verbatim>\<open>Invalid X.509 Certificate structure\<close> is thrown by the check of the root
  and by nothing else: \<open>plain r\<close> says that the result \<open>r\<close> is not that error.
\<close>

definition plain :: "'a result \<Rightarrow> bool" where
  "plain r = (r \<noteq> Inl InvalidCertificateStructure)"

named_theorems plain_intros

lemma plain_Inr [plain_intros]: "plain (Inr x)"
  by (simp add: plain_def)

lemma plain_TypeError [plain_intros]: "plain (Inl TypeError)"
  by (simp add: plain_def)

lemma plain_bindE [plain_intros]:
  "plain m \<Longrightarrow> (\<And>x. plain (f x)) \<Longrightarrow> plain (bindE m f)"
  by (cases m) (auto simp: bindE_def plain_def)

lemma plain_mapE [plain_intros]: "(\<And>x. plain (f x)) \<Longrightarrow> plain (mapE f xs)"
  by (induction xs) (auto intro!: plain_intros)

lemma plain_valueOf [plain_intros]: "plain (valueOf no)"
  by (auto simp: valueOf_def plain_def split: option.splits)

lemma plain_destructure [plain_intros]: "plain (destructure no)"
  by (auto simp: destructure_def plain_def split: option.splits node.splits)

lemma plain_makeField [plain_intros]: "plain (makeField v no)"
  by (auto simp: makeField_def plain_def split: option.splits)

lemma plain_hexToArrayBuffer [plain_intros]: "plain (hexToArrayBuffer hex)"
  by (simp add: hexToArrayBuffer_def plain_def)

lemma plain_extractOIDField [plain_intros]: "plain (extractOIDField no)"
  unfolding extractOIDField_def Let_def by (intro plain_intros)

lemma plain_rdnField [plain_intros]: "plain (rdnField rdn)"
  unfolding rdnField_def Let_def by (intro plain_intros)

lemma plain_extractName [plain_intros]: "plain (extractName no)"
  unfolding extractName_def by (intro plain_intros) (auto intro!: plain_intros)

lemma plain_firstSequence [plain_intros]: "plain (firstSequence no)"
  unfolding firstSequence_def
  by (auto intro!: plain_intros split: option.splits node.splits)

lemma plain_parseASN1FromRawHex [plain_intros]: "plain (parseASN1FromRawHex no)"
  unfolding parseASN1FromRawHex_def by (intro plain_intros)

lemma plain_parseBasicConstraints [plain_intros]: "plain (parseBasicConstraints rt no)"
  unfolding parseBasicConstraints_def Let_def by (intro plain_intros)

lemma plain_parseQCStatements [plain_intros]: "plain (parseQCStatements rt no)"
  unfolding parseQCStatements_def by (intro plain_intros)

lemma plain_parseQualifier [plain_intros]: "plain (parseQualifier rt q)"
  unfolding parseQualifier_def Let_def
  by (auto intro!: plain_intros split: node.splits)

lemma plain_parsePolicy [plain_intros]: "plain (parsePolicy rt p)"
  unfolding parsePolicy_def Let_def
  by (auto intro!: plain_intros split: node.splits option.splits)

lemma plain_parseCertificatePolicies [plain_intros]: "plain (parseCertificatePolicies rt no)"
  unfolding parseCertificatePolicies_def by (intro plain_intros)

lemma plain_parseAuthorityKeyIdentifier [plain_intros]: "plain (parseAuthorityKeyIdentifier no)"
  unfolding parseAuthorityKeyIdentifier_def by (intro plain_intros)

lemma plain_parseExtendedKeyUsage [plain_intros]: "plain (parseExtendedKeyUsage no)"
  unfolding parseExtendedKeyUsage_def by (intro plain_intros)

lemma plain_decodeContextString [plain_intros]: "plain (decodeContextString no)"
  unfolding decodeContextString_def
  by (auto intro!: plain_intros split: option.splits)

lemma plain_parseDirectoryName [plain_intros]: "plain (parseDirectoryName n)"
  unfolding parseDirectoryName_def by (intro plain_intros)

lemma plain_parseRegisteredID [plain_intros]: "plain (parseRegisteredID n)"
  unfolding parseRegisteredID_def by (intro plain_intros)

lemma plain_parseOtherName [plain_intros]: "plain (parseOtherName n)"
  unfolding parseOtherName_def by (intro plain_intros)

lemma plain_decodeGeneralName [plain_intros]: "plain (decodeGeneralName n)"
  unfolding decodeGeneralName_def Let_def named_def textName_def
  by (auto intro!: plain_intros)

lemma plain_parseSubjectAltName [plain_intros]: "plain (parseSubjectAltName no)"
  unfolding parseSubjectAltName_def by (intro plain_intros)

lemma plain_parseAccessDescription [plain_intros]: "plain (parseAccessDescription d)"
  unfolding parseAccessDescription_def by (intro plain_intros)

lemma plain_parseAuthorityInfoAccess [plain_intros]: "plain (parseAuthorityInfoAccess no)"
  unfolding parseAuthorityInfoAccess_def by (intro plain_intros)

lemma plain_distributionPointsOf [plain_intros]: "plain (distributionPointsOf e)"
  unfolding distributionPointsOf_def
  by (auto intro!: plain_intros split: option.splits node.splits)

lemma plain_parseCRLDistributionPoints [plain_intros]: "plain (parseCRLDistributionPoints no)"
  unfolding parseCRLDistributionPoints_def by (intro plain_intros)

lemma plain_parseKnownExtension [plain_intros]: "plain (parseKnownExtension rt oid v)"
  unfolding parseKnownExtension_def wrap_def
  by (auto intro!: plain_intros)

lemma plain_decodeExtension [plain_intros]: "plain (decodeExtension rt ext)"
  unfolding decodeExtension_def Let_def by (intro plain_intros)

lemma plain_optionalFields [plain_intros]: "plain (optionalFields rt fs acc)"
  by (induction fs arbitrary: acc) (auto intro!: plain_intros split: option.splits node.splits)

lemma plain_assemble [plain_intros]: "plain (assemble v t tbs i e a b c d f g)"
  unfolding assemble_def by (intro plain_intros)

lemma plain_parseX509Certificate:
  "tagType (nodeTag n) = ''SEQUENCE'' \<Longrightarrow> isArrayValue n \<Longrightarrow> plain (parseX509Certificate rt n)"
  unfolding parseX509Certificate_def Let_def by (auto intro!: plain_intros)

lemma root_check:
  "(parseX509Certificate rt n = Inl InvalidCertificateStructure) =
     (\<not> (tagType (nodeTag n) = ''SEQUENCE'' \<and> isArrayValue n))"
proof (cases "tagType (nodeTag n) = ''SEQUENCE'' \<and> isArrayValue n")
  case False
  then show ?thesis by (auto simp: parseX509Certificate_def)
next
  case True
  then have "plain (parseX509Certificate rt n)" by (simp add: plain_parseX509Certificate)
  with True show ?thesis by (simp add: plain_def)
qed

section \<open>Evaluation on concrete buffers\<close>

text \<open>The equations that decode a concrete buffer by rewriting.\<close>

lemmas parse_eval =
  parseElement.simps parseChildren.simps readHeader_def readTag_def readByte_def readLength_def
  parsePrimitive_def readBytes_def headerTag_def headerLength_def decodeLeaf_def bufferSlice_def
  clampIndex_def bytesToHex_def hexByte_def hexDigit_def getTagClass_def tagToType_def
  universalTypeNames_def base64Char_def decodeBoolean_def decodeInteger_def shiftInByte_plus
  decodeBitString_def decodeOID_def intToString_def natToString_def digitsOf.simps
  decodeString_def stripBOM_def bytesToChars_def decodeDate_def Let_def

text \<open>The equations that run the mapper on a concrete node.\<close>

lemmas mapper_eval =
  bindE_def truthy_def truthyOpt_def items_def at_def valueOf_def getDecoded_def
  getDecodedOrForceString_def reparseTime_def getRawHex_def orElse_def makeField_def
  oidInfoOf_def extractOIDField_def destructure_def rdnField_def extractName_def
  isContext_def plusOne_def assemble_def parseX509Certificate_def isArrayValue_def

section \<open>Claim C1: length accounting on valid streams\<close>

subsection \<open>Valid definite-length encodings\<close>

text \<open>
  What the claim calls a valid definite-length TLV stream, written out: an element is
  its identifier octets, its length octets and its contents, the contents of a
  constructed element being the encodings of its components. The identifier is one
  octet, or the octet with the low five bits set followed by the base-128 tag number,
  whose last octet alone has the high bit clear. The length is one octet below 128 or
  the octet \<open>0x80 + k\<close> followed by \<open>k\<close> octets, \<open>1 \<le> k \<le> 4\<close>, holding the length
  big-endian; it is the length of the contents. Bit 6 of the first identifier octet
  says whether the element is constructed.
\<close>

datatype tlv =
    Prim (identifierOctets: "byte list") (lengthOctets: "byte list") "byte list"
  | Constr (identifierOctets: "byte list") (lengthOctets: "byte list") "tlv list"

fun encode :: "tlv \<Rightarrow> byte list" where
  "encode (Prim i l c) = i @ l @ c"
| "encode (Constr i l ts) = i @ l @ concat (map encode ts)"

fun contentOctets :: "tlv \<Rightarrow> byte list" where
  "contentOctets (Prim i l c) = c"
| "contentOctets (Constr i l ts) = concat (map encode ts)"

definition headerSize :: "tlv \<Rightarrow> nat" where
  "headerSize t = length (identifierOctets t) + length (lengthOctets t)"

definition validIdentifier :: "byte list \<Rightarrow> bool" where
  "validIdentifier i =
     (case i of
        [] \<Rightarrow> False
      | b # conts \<Rightarrow>
          if b AND 0x1F = 0x1F
          then conts \<noteq> [] \<and> list_all (\<lambda>x. x AND 0x80 \<noteq> 0) (butlast conts)
               \<and> last conts AND 0x80 = 0
          else conts = [])"

definition encodesLength :: "byte list \<Rightarrow> nat \<Rightarrow> bool" where
  "encodesLength l n =
     (case l of
        [] \<Rightarrow> False
      | b # ls \<Rightarrow>
          if b AND 0x80 = 0 then ls = [] \<and> unat b = n
          else unat (b AND 0x7F) = length ls \<and> 1 \<le> length ls \<and> length ls \<le> 4
               \<and> beNat ls = n)"

fun validTLV :: "tlv \<Rightarrow> bool" where
  "validTLV (Prim i l c) =
     (validIdentifier i \<and> hd i AND 0x20 = 0 \<and> encodesLength l (length c))"
| "validTLV (Constr i l ts) =
     (validIdentifier i \<and> hd i AND 0x20 \<noteq> 0
      \<and> encodesLength l (length (concat (map encode ts)))
      \<and> list_all validTLV ts)"

subsection \<open>The invariant on nodes\<close>

text \<open>
  A node does not record the size of its header; \<^verbatim>\<open>fullHex\<close> is the hex of the whole
  element, two characters a byte, so the header is what it holds beyond the declared
  length. \<open>siblingsFill a ns b\<close>: the nodes \<open>ns\<close> start at \<open>a\<close>, each at the offset where
  the one before ends (its offset + header + declared length), and the last ends at \<open>b\<close>.
  \<open>wellTiled n\<close>: at every depth the children of a constructed node fill its content
  interval in this way.
\<close>

definition headerBytes :: "node \<Rightarrow> nat" where
  "headerBytes n = length (fullHex n) div 2 - nat (lengthValue (nodeLength n))"

definition contentStart :: "node \<Rightarrow> nat" where
  "contentStart n = nodeOffset n + headerBytes n"

definition contentEnd :: "node \<Rightarrow> nat" where
  "contentEnd n = contentStart n + nat (lengthValue (nodeLength n))"

fun siblingsFill :: "nat \<Rightarrow> node list \<Rightarrow> nat \<Rightarrow> bool" where
  "siblingsFill a [] b = (a = b)"
| "siblingsFill a (n # ns) b = (nodeOffset n = a \<and> siblingsFill (contentEnd n) ns b)"

fun wellTiled :: "node \<Rightarrow> bool" where
  "wellTiled (ConstructedNode t l cs off fh) =
     (siblingsFill (contentStart (ConstructedNode t l cs off fh)) cs
        (contentEnd (ConstructedNode t l cs off fh))
      \<and> list_all wellTiled cs)"
| "wellTiled (PrimitiveNode t l v off fh) = True"

subsection \<open>The readers on an embedded encoding\<close>

lemma length_hexByte: "length (hexByte b) = 2"
  by (simp add: hexByte_def)

lemma length_bytesToHex: "length (bytesToHex bs) = 2 * length bs"
  by (induction bs) (simp_all add: bytesToHex_def length_hexByte)

lemma bufferSlice_middle:
  "bufferSlice (pre @ mid @ post) (int (length pre)) (int (length pre + length mid)) = mid"
  by (simp add: bufferSlice_def clampIndex_def Let_def)

lemma readByte_at:
  "readByte (pre @ b # post) (length pre) = Inr (b, Suc (length pre))"
  by (simp add: readByte_def)

lemma readTagNumber_at:
  assumes "conts \<noteq> []" "list_all (\<lambda>x. x AND 0x80 \<noteq> 0) (butlast conts)"
    "last conts AND 0x80 = 0"
  shows "\<exists>r. readTagNumber (pre @ conts @ post) (length pre) acc
               = Inr (r, length pre + length conts)"
  using assms
proof (induction conts arbitrary: pre acc)
  case Nil
  then show ?case by simp
next
  case (Cons b conts)
  have rb: "readByte (pre @ (b # conts) @ post) (length pre) = Inr (b, Suc (length pre))"
    using readByte_at[of pre b "conts @ post"] by simp
  show ?case
  proof (cases "conts = []")
    case True
    with Cons.prems rb show ?thesis
      by (subst readTagNumber.simps) (simp add: Let_def)
  next
    case False
    with Cons.prems have hi: "b AND 0x80 \<noteq> 0"
      and rest: "list_all (\<lambda>x. x AND 0x80 \<noteq> 0) (butlast conts)" "last conts AND 0x80 = 0"
      by auto
    from Cons.IH[OF False rest, of "pre @ [b]"] obtain r where
      "readTagNumber (pre @ (b # conts) @ post) (Suc (length pre))
         (push_bit 7 acc OR ucast (b AND 0x7F)) = Inr (r, Suc (length pre) + length conts)"
      by auto
    with rb hi show ?thesis
      by (subst readTagNumber.simps) (simp add: Let_def)
  qed
qed

lemma validIdentifier_nonempty: "validIdentifier i \<Longrightarrow> i \<noteq> []"
  by (auto simp: validIdentifier_def)

lemma readTag_at:
  assumes "validIdentifier i"
  shows "\<exists>tn. readTag (pre @ i @ post) (length pre) = Inr ((hd i, tn), length pre + length i)"
proof -
  from assms obtain b conts where i: "i = b # conts" by (cases i) (auto simp: validIdentifier_def)
  have rb: "readByte (pre @ i @ post) (length pre) = Inr (b, Suc (length pre))"
    using readByte_at[of pre b "conts @ post"] by (simp add: i)
  show ?thesis
  proof (cases "b AND 0x1F = 0x1F")
    case False
    with assms i have "conts = []" by (simp add: validIdentifier_def)
    with rb False i show ?thesis by (simp add: readTag_def)
  next
    case True
    with assms i have m: "conts \<noteq> []" "list_all (\<lambda>x. x AND 0x80 \<noteq> 0) (butlast conts)"
      "last conts AND 0x80 = 0"
      by (simp_all add: validIdentifier_def)
    from readTagNumber_at[OF m, of "pre @ [b]" post 0] obtain r where
      "readTagNumber (pre @ i @ post) (Suc (length pre)) 0 = Inr (r, Suc (length pre) + length conts)"
      by (auto simp: i)
    with rb True i show ?thesis by (simp add: readTag_def)
  qed
qed

lemma readLengthBytes_at:
  "readLengthBytes (pre @ ls @ post) (length pre) (length ls) acc
     = Inr (foldl shiftInByte acc ls, length pre + length ls)"
proof (induction ls arbitrary: pre acc)
  case Nil
  then show ?case by simp
next
  case (Cons b ls)
  have rb: "readByte (pre @ (b # ls) @ post) (length pre) = Inr (b, Suc (length pre))"
    using readByte_at[of pre b "ls @ post"] by simp
  from Cons.IH[of "pre @ [b]" "shiftInByte acc b"] rb show ?case by simp
qed

lemma readLength_at:
  assumes enc: "encodesLength l n" and small: "n < 2147483648"
  shows "readLength (pre @ l @ post) (length pre) = Inr (int n, length pre + length l)"
proof -
  from enc obtain b ls where l: "l = b # ls" by (cases l) (auto simp: encodesLength_def)
  have rb: "readByte (pre @ l @ post) (length pre) = Inr (b, Suc (length pre))"
    using readByte_at[of pre b "ls @ post"] by (simp add: l)
  show ?thesis
  proof (cases "b AND 0x80 = 0")
    case True
    with enc l have "ls = []" "unat b = n" by (simp_all add: encodesLength_def)
    moreover from this have "uint b = int n" by (simp only: uint_nat)
    ultimately show ?thesis using rb True l by (simp add: readLength_def)
  next
    case False
    with enc l have k: "unat (b AND 0x7F) = length ls" "1 \<le> length ls" "length ls \<le> 4"
      and v: "beNat ls = n"
      by (simp_all add: encodesLength_def)
    have "unat (foldl shiftInByte 0 ls) = n"
      using small v by (simp add: unat_foldl_shiftInByte)
    with small have s: "sint (foldl shiftInByte 0 ls) = int n"
      by (simp add: sint_small)
    have rl: "readLengthBytes (pre @ l @ post) (Suc (length pre)) (length ls) 0
                = Inr (foldl shiftInByte 0 ls, Suc (length pre) + length ls)"
      using readLengthBytes_at[of "pre @ [b]" ls post 0] by (simp add: l)
    from k have ne: "ls \<noteq> []" by auto
    from rb False k rl s l ne show ?thesis
      by (simp add: readLength_def Let_def)
  qed
qed

lemma encodesLength_nonempty: "encodesLength l n \<Longrightarrow> l \<noteq> []"
  by (auto simp: encodesLength_def)

lemma readHeader_at:
  assumes vi: "validIdentifier i" and enc: "encodesLength l n" and small: "n < 2147483648"
    and fits: "n \<le> length rest"
  shows "\<exists>tn. readHeader (pre @ i @ l @ rest) (length pre) =
           Inr \<lparr>hStartOffset = length pre, hTagByte = hd i, hTagNumber = tn,
                hLengthStart = length pre + length i, hLengthValue = int n,
                hContentStart = length pre + length i + length l\<rparr>"
proof -
  from readTag_at[OF vi, of pre "l @ rest"] obtain tn where
    rt: "readTag (pre @ i @ l @ rest) (length pre) = Inr ((hd i, tn), length pre + length i)"
    by auto
  have rl: "readLength (pre @ i @ l @ rest) (length pre + length i)
              = Inr (int n, length pre + length i + length l)"
    using readLength_at[OF enc small, of "pre @ i" rest] by simp
  from rt rl fits show ?thesis by (simp add: readHeader_def)
qed

subsection \<open>Decoding a valid element\<close>

text \<open>
  \<open>decodedAs t a n\<close>: the node \<open>n\<close> stands for the element \<open>t\<close> placed at offset \<open>a\<close>:
  it has that offset, the length of the contents of \<open>t\<close> as declared length, the hex of
  the whole encoding, and children that tile it.
\<close>

definition decodedAs :: "tlv \<Rightarrow> nat \<Rightarrow> node \<Rightarrow> bool" where
  "decodedAs t a n =
     (nodeOffset n = a \<and> lengthValue (nodeLength n) = int (length (contentOctets t))
      \<and> fullHex n = bytesToHex (encode t) \<and> wellTiled n)"

lemma length_encode: "length (encode t) = headerSize t + length (contentOctets t)"
  by (cases t) (simp_all add: headerSize_def)

lemma decodedAs_headerBytes: "decodedAs t a n \<Longrightarrow> headerBytes n = headerSize t"
  by (simp add: decodedAs_def headerBytes_def length_bytesToHex length_encode)

lemma decodedAs_contentEnd: "decodedAs t a n \<Longrightarrow> contentEnd n = a + length (encode t)"
  by (frule decodedAs_headerBytes)
     (simp add: contentEnd_def contentStart_def decodedAs_def length_encode)

lemma validTLV_header_ge2: "validTLV t \<Longrightarrow> 2 \<le> headerSize t"
proof (cases t)
  case (Prim i l c)
  assume "validTLV t"
  with Prim have "i \<noteq> []" "l \<noteq> []"
    by (auto dest: validIdentifier_nonempty encodesLength_nonempty)
  then have "1 \<le> length i" "1 \<le> length l" by (simp_all add: Suc_le_eq)
  with Prim show ?thesis by (simp add: headerSize_def)
next
  case (Constr i l ts)
  assume "validTLV t"
  with Constr have "i \<noteq> []" "l \<noteq> []"
    by (auto dest: validIdentifier_nonempty encodesLength_nonempty)
  then have "1 \<le> length i" "1 \<le> length l" by (simp_all add: Suc_le_eq)
  with Constr show ?thesis by (simp add: headerSize_def)
qed

lemma parseChildren_valid:
  assumes each: "\<And>t pre post. t \<in> set ts \<Longrightarrow>
        \<exists>n. parseElement (pre @ encode t @ post) (length pre)
               = Inr (n, length pre + length (encode t)) \<and> decodedAs t (length pre) n"
    and valid: "list_all validTLV ts"
  shows "\<exists>ns. parseChildren (pre @ concat (map encode ts) @ post)
                 (int (length pre + length (concat (map encode ts)))) (length pre) acc
               = Inr (acc @ ns, length pre + length (concat (map encode ts)))
             \<and> siblingsFill (length pre) ns (length pre + length (concat (map encode ts)))
             \<and> list_all wellTiled ns \<and> list_all2 (\<lambda>n t. \<exists>a. decodedAs t a n) ns ts"
  using assms
proof (induction ts arbitrary: pre acc)
  case Nil
  have "parseChildren (pre @ post) (int (length pre)) (length pre) acc = Inr (acc @ [], length pre)"
    using parseChildren_stop[of "length pre" "int (length pre)"] by simp
  then show ?case by (intro exI[of _ "[]"]) simp
next
  case (Cons t ts)
  let ?rest = "concat (map encode ts)"
  let ?buf = "pre @ concat (map encode (t # ts)) @ post"
  have buf1: "?buf = pre @ encode t @ (?rest @ post)" by simp
  from Cons.prems(1)[of t pre "?rest @ post"] obtain n where
    pe: "parseElement ?buf (length pre) = Inr (n, length pre + length (encode t))"
    and dn: "decodedAs t (length pre) n"
    by (auto simp: buf1)
  from Cons.prems(2) have vt: "validTLV t" and vts: "list_all validTLV ts" by simp_all
  from validTLV_header_ge2[OF vt] have pos: "0 < length (encode t)"
    by (simp add: length_encode)
  have buf2: "?buf = (pre @ encode t) @ ?rest @ post" by simp
  have "\<exists>ns. parseChildren ((pre @ encode t) @ ?rest @ post)
                 (int (length (pre @ encode t) + length ?rest)) (length (pre @ encode t)) (acc @ [n])
               = Inr ((acc @ [n]) @ ns, length (pre @ encode t) + length ?rest)
             \<and> siblingsFill (length (pre @ encode t)) ns (length (pre @ encode t) + length ?rest)
             \<and> list_all wellTiled ns \<and> list_all2 (\<lambda>n t. \<exists>a. decodedAs t a n) ns ts"
    by (rule Cons.IH[OF _ vts]) (rule Cons.prems(1), simp)
  then obtain ns where
    pc: "parseChildren ?buf (int (length pre + length (encode t) + length ?rest))
           (length pre + length (encode t)) (acc @ [n])
           = Inr (acc @ n # ns, length pre + length (encode t) + length ?rest)"
    and sf: "siblingsFill (length pre + length (encode t)) ns
               (length pre + length (encode t) + length ?rest)"
    and wt: "list_all wellTiled ns" and l2: "list_all2 (\<lambda>n t. \<exists>a. decodedAs t a n) ns ts"
    by (auto simp: buf2)
  have "length pre < length pre + length (concat (map encode (t # ts)))"
    using pos by simp
  then have lt: "int (length pre) < int (length pre + length (concat (map encode (t # ts))))"
    by (simp only: of_nat_less_iff)
  have "parseChildren ?buf (int (length pre + length (concat (map encode (t # ts)))))
          (length pre) acc
        = Inr (acc @ n # ns, length pre + length (concat (map encode (t # ts))))"
    using parseChildren_step[OF lt pe, of acc] pc by (simp add: add.assoc)
  moreover have "siblingsFill (length pre) (n # ns)
                   (length pre + length (concat (map encode (t # ts))))"
    using dn sf decodedAs_contentEnd[OF dn] by (simp add: decodedAs_def add.assoc)
  moreover have "list_all wellTiled (n # ns)" using dn wt by (simp add: decodedAs_def)
  moreover have "list_all2 (\<lambda>n t. \<exists>a. decodedAs t a n) (n # ns) (t # ts)"
    using dn l2 by auto
  ultimately show ?case by blast
qed

lemma length_encode_le_concat:
  "c \<in> set ts \<Longrightarrow> length (encode c) \<le> length (concat (map encode ts))"
  by (induction ts) auto

lemma bufferSlice_element:
  "bufferSlice (pre @ i @ l @ c @ post) (int (length pre))
     (int (length pre + length i + length l + length c)) = i @ l @ c"
  using bufferSlice_middle[of pre "i @ l @ c" post] by (simp add: add.assoc)

lemma bufferSlice_element_int:
  "bufferSlice (pre @ i @ l @ c @ post) (int (length pre))
     (int (length pre) + int (length i) + int (length l) + int (length c)) = i @ l @ c"
  using bufferSlice_element[of pre i l c post] by simp

lemma parseElement_valid:
  assumes "validTLV t" and "length (contentOctets t) < 2147483648"
  shows "\<exists>n. parseElement (pre @ encode t @ post) (length pre)
               = Inr (n, length pre + length (encode t)) \<and> decodedAs t (length pre) n"
  using assms
proof (induction t arbitrary: pre post)
  case (Prim i l c)
  let ?buf = "pre @ i @ l @ c @ post"
  let ?cs = "length pre + length i + length l"
  from Prim.prems have vi: "validIdentifier i" and prim: "hd i AND 0x20 = 0"
    and enc: "encodesLength l (length c)" and small: "length c < 2147483648"
    by simp_all
  from readHeader_at[OF vi enc small, of "c @ post" pre] obtain tn where
    rh: "readHeader ?buf (length pre) =
           Inr \<lparr>hStartOffset = length pre, hTagByte = hd i, hTagNumber = tn,
                hLengthStart = length pre + length i, hLengthValue = int (length c),
                hContentStart = ?cs\<rparr>"
    by auto
  have rb: "readBytes ?buf ?cs (int (length c)) = Inr (c, ?cs + length c)"
  proof -
    have "drop ?cs ?buf = c @ post" by simp
    then show ?thesis by (simp add: readBytes_def)
  qed
  have "\<exists>n. parseElement ?buf (length pre) = Inr (n, ?cs + length c)
             \<and> decodedAs (Prim i l c) (length pre) n"
    by (subst parseElement.simps)
       (simp add: rh prim parsePrimitive_def rb bufferSlice_element_int decodedAs_def
          headerLength_def)
  then show ?case by (simp add: add.assoc)
next
  case (Constr i l ts)
  let ?content = "concat (map encode ts)"
  let ?buf = "pre @ i @ l @ ?content @ post"
  let ?cs = "length pre + length i + length l"
  from Constr.prems have vi: "validIdentifier i" and con: "hd i AND 0x20 \<noteq> 0"
    and enc: "encodesLength l (length ?content)" and small: "length ?content < 2147483648"
    and vts: "list_all validTLV ts"
    by simp_all
  let ?h = "\<lparr>hStartOffset = length pre, hTagByte = hd i, hTagNumber = tn,
                hLengthStart = length pre + length i, hLengthValue = int (length ?content),
                hContentStart = ?cs\<rparr>"
  from readHeader_at[OF vi enc small, of "?content @ post" pre] obtain tn where
    rh: "readHeader ?buf (length pre) =
           Inr \<lparr>hStartOffset = length pre, hTagByte = hd i, hTagNumber = tn,
                hLengthStart = length pre + length i, hLengthValue = int (length ?content),
                hContentStart = ?cs\<rparr>"
    by auto
  have each: "\<exists>n. parseElement (pre' @ encode c @ post') (length pre')
                   = Inr (n, length pre' + length (encode c)) \<and> decodedAs c (length pre') n"
    if "c \<in> set ts" for c pre' post'
  proof (rule Constr.IH[OF that])
    from vts that show "validTLV c" by (simp add: list_all_iff)
    have "length (contentOctets c) \<le> length (encode c)" by (simp add: length_encode)
    also have "\<dots> \<le> length ?content" by (rule length_encode_le_concat[OF that])
    finally show "length (contentOctets c) < 2147483648" using small by simp
  qed
  from parseChildren_valid[OF each vts, of "pre @ i @ l" post "[]"] obtain ns where
    pc: "parseChildren ?buf (int ?cs + int (length ?content)) ?cs []
           = Inr (ns, ?cs + length ?content)"
    and sf: "siblingsFill ?cs ns (?cs + length ?content)"
    and wt: "list_all wellTiled ns"
    by (auto simp: add.assoc)
  let ?n = "ConstructedNode
              (headerTag \<lparr>hStartOffset = length pre, hTagByte = hd i, hTagNumber = tn,
                hLengthStart = length pre + length i, hLengthValue = int (length ?content),
                hContentStart = ?cs\<rparr> True)
              (headerLength ?buf \<lparr>hStartOffset = length pre, hTagByte = hd i, hTagNumber = tn,
                hLengthStart = length pre + length i, hLengthValue = int (length ?content),
                hContentStart = ?cs\<rparr>)
              ns (length pre) (bytesToHex (i @ l @ ?content))"
  have pe: "parseElement ?buf (length pre) = Inr (?n, ?cs + length ?content)"
    by (subst parseElement.simps)
       (simp add: rh con Let_def bufferSlice_element_int pc[simplified])
  have "decodedAs (Constr i l ts) (length pre) ?n"
    using sf wt
    by (simp add: decodedAs_def headerLength_def contentStart_def contentEnd_def headerBytes_def
          length_bytesToHex add.assoc)
  with pe show ?case by (intro exI[of _ ?n]) (simp add: add.assoc)
qed

subsection \<open>Decoding a valid stream\<close>

lemma parseLoop_valid:
  assumes "list_all (\<lambda>t. validTLV t \<and> length (contentOctets t) < 2147483648) ts"
  shows "\<exists>ns. parseLoop (pre @ concat (map encode ts)) True (length pre) acc = (acc @ ns, [])
             \<and> siblingsFill (length pre) ns (length pre + length (concat (map encode ts)))
             \<and> list_all wellTiled ns \<and> list_all2 (\<lambda>n t. \<exists>a. decodedAs t a n) ns ts"
  using assms
proof (induction ts arbitrary: pre acc)
  case Nil
  have "parseLoop pre True (length pre) acc = (acc @ [], [])"
    using parseLoop_done[of "length pre" pre True acc] by simp
  then show ?case by (intro exI[of _ "[]"]) simp
next
  case (Cons t ts)
  let ?rest = "concat (map encode ts)"
  let ?buf = "pre @ encode t @ ?rest"
  from Cons.prems have vt: "validTLV t" and small: "length (contentOctets t) < 2147483648"
    and rest: "list_all (\<lambda>t. validTLV t \<and> length (contentOctets t) < 2147483648) ts"
    by simp_all
  from parseElement_valid[OF vt small, of pre ?rest] obtain n where
    pe: "parseElement ?buf (length pre) = Inr (n, length pre + length (encode t))"
    and dn: "decodedAs t (length pre) n"
    by auto
  from validTLV_header_ge2[OF vt] have lt: "length pre < length ?buf"
    by (simp add: length_encode)
  from Cons.IH[OF rest, of "pre @ encode t" "acc @ [n]"] obtain ns where
    pl: "parseLoop ?buf True (length pre + length (encode t)) (acc @ [n]) = (acc @ n # ns, [])"
    and sf: "siblingsFill (length pre + length (encode t)) ns
               (length pre + length (encode t) + length ?rest)"
    and wt: "list_all wellTiled ns" and l2: "list_all2 (\<lambda>n t. \<exists>a. decodedAs t a n) ns ts"
    by auto
  have "parseLoop (pre @ concat (map encode (t # ts))) True (length pre) acc = (acc @ n # ns, [])"
    using parseLoop_step[OF lt pe, of acc] pl by simp
  moreover have "siblingsFill (length pre) (n # ns)
                   (length pre + length (concat (map encode (t # ts))))"
    using dn sf decodedAs_contentEnd[OF dn] by (simp add: decodedAs_def add.assoc)
  moreover have "list_all wellTiled (n # ns)" using dn wt by (simp add: decodedAs_def)
  moreover have "list_all2 (\<lambda>n t. \<exists>a. decodedAs t a n) (n # ns) (t # ts)"
    using dn l2 by auto
  ultimately show ?case by blast
qed

lemma siblingsFill_lower:
  "siblingsFill a ns b \<Longrightarrow> list_all (\<lambda>n. nodeOffset n < contentEnd n) ns \<Longrightarrow>
     list_all (\<lambda>n. a \<le> nodeOffset n) ns"
proof (induction ns arbitrary: a)
  case Nil
  then show ?case by simp
next
  case (Cons n ns)
  from Cons.prems have "list_all (\<lambda>m. contentEnd n \<le> nodeOffset m) ns"
    by (intro Cons.IH) simp_all
  moreover from Cons.prems have "a < contentEnd n" by simp
  ultimately have "list_all (\<lambda>m. a \<le> nodeOffset m) ns"
    by (simp add: list_all_iff) (meson le_trans less_imp_le)
  with Cons.prems show ?case by simp
qed

lemma siblingsFill_increasing:
  "siblingsFill a ns b \<Longrightarrow> list_all (\<lambda>n. nodeOffset n < contentEnd n) ns \<Longrightarrow>
     sorted_wrt (<) (map nodeOffset ns)"
proof (induction ns arbitrary: a)
  case Nil
  then show ?case by simp
next
  case (Cons n ns)
  from Cons.prems have sf: "siblingsFill (contentEnd n) ns b"
    and pos: "list_all (\<lambda>n. nodeOffset n < contentEnd n) ns" and lt: "nodeOffset n < contentEnd n"
    by simp_all
  from siblingsFill_lower[OF sf pos] lt have "\<forall>m\<in>set ns. nodeOffset n < nodeOffset m"
    by (auto simp: list_all_iff)
  with Cons.IH[OF sf pos] show ?case by simp
qed

lemma decoded_valid_positive:
  "list_all2 (\<lambda>n t. \<exists>a. decodedAs t a n) ns ts \<Longrightarrow> list_all validTLV ts \<Longrightarrow>
     list_all (\<lambda>n. nodeOffset n < contentEnd n) ns"
proof (induction ns ts rule: list_all2_induct)
  case Nil
  then show ?case by simp
next
  case (Cons n ns t ts)
  then obtain a where dn: "decodedAs t a n" by auto
  from Cons.prems have "validTLV t" by simp
  from validTLV_header_ge2[OF this] decodedAs_contentEnd[OF dn] dn
  have "nodeOffset n < contentEnd n" by (simp add: decodedAs_def length_encode)
  with Cons show ?case by simp
qed

subsection \<open>Streams of valid elements\<close>

text \<open>
  Streams of elements with declared lengths below \<open>2 ^ 31\<close>. In the model, for every
  stream of valid definite-length elements whose declared lengths are below \<open>2 ^ 31\<close>:
  \<^item> each element, wherever it stands in a buffer, decodes to a node and consumes exactly
    its header length plus its declared length; the node's declared length is the
    length of the contents, and its header is the element's header;
  \<^item> decoding the concatenation of the \<open>N\<close> elements yields \<open>N\<close> nodes and no error;
    the first node is at offset 0, each next one at the offset + header length +
    declared length of the one before, the last one ends at the end of the buffer, and
    the offsets are strictly increasing;
  \<^item> at every depth the children of a constructed node fill its content interval in
    the same way, without gap or overlap.
  This is a statement about the decoding algorithm. It leaves out the limits of the
  engine that runs it: \<^verbatim>\<open>String.fromCharCode(...bytes)\<close> (line 380) takes one argument for
  every content byte of an OCTET STRING, and \<^verbatim>\<open>parseElement\<close> one stack frame for every
  level of nesting, so that an engine refuses contents and nestings beyond what its
  stack holds, which the model decodes.
\<close>

lemma valid_stream_length_accounting:
  assumes "list_all (\<lambda>t. validTLV t \<and> length (contentOctets t) < 2147483648) ts"
  shows "(\<forall>t\<in>set ts. \<forall>pre post. \<exists>n.
            parseElement (pre @ encode t @ post) (length pre)
              = Inr (n, length pre + headerSize t + length (contentOctets t))
            \<and> nodeOffset n = length pre
            \<and> lengthValue (nodeLength n) = int (length (contentOctets t))
            \<and> headerBytes n = headerSize t \<and> wellTiled n)
       \<and> (\<exists>ns. parseASN1 (concat (map encode ts)) True = (ns, [])
            \<and> length ns = length ts
            \<and> siblingsFill 0 ns (length (concat (map encode ts)))
            \<and> sorted_wrt (<) (map nodeOffset ns)
            \<and> list_all wellTiled ns
            \<and> list_all2 (\<lambda>n t. lengthValue (nodeLength n) = int (length (contentOctets t))
                               \<and> headerBytes n = headerSize t) ns ts)"
proof (intro conjI ballI allI)
  fix t pre post
  assume "t \<in> set ts"
  with assms have vt: "validTLV t" and small: "length (contentOctets t) < 2147483648"
    by (simp_all add: list_all_iff)
  from parseElement_valid[OF vt small, of pre post] obtain n where
    pe: "parseElement (pre @ encode t @ post) (length pre)
           = Inr (n, length pre + length (encode t))"
    and dn: "decodedAs t (length pre) n"
    by auto
  from pe dn decodedAs_headerBytes[OF dn]
  show "\<exists>n. parseElement (pre @ encode t @ post) (length pre)
              = Inr (n, length pre + headerSize t + length (contentOctets t))
            \<and> nodeOffset n = length pre
            \<and> lengthValue (nodeLength n) = int (length (contentOctets t))
            \<and> headerBytes n = headerSize t \<and> wellTiled n"
    by (intro exI[of _ n]) (simp add: decodedAs_def length_encode add.assoc)
next
  from parseLoop_valid[OF assms, of "[]" "[]"] obtain ns where
    pl: "parseASN1 (concat (map encode ts)) True = (ns, [])"
    and sf: "siblingsFill 0 ns (length (concat (map encode ts)))"
    and wt: "list_all wellTiled ns"
    and l2: "list_all2 (\<lambda>n t. \<exists>a. decodedAs t a n) ns ts"
    by (auto simp: parseASN1_def)
  from assms have vts: "list_all validTLV ts" by (simp add: list_all_iff)
  have inc: "sorted_wrt (<) (map nodeOffset ns)"
    by (rule siblingsFill_increasing[OF sf decoded_valid_positive[OF l2 vts]])
  have "list_all2 (\<lambda>n t. lengthValue (nodeLength n) = int (length (contentOctets t))
                            \<and> headerBytes n = headerSize t) ns ts"
    using l2
  proof (rule list_all2_mono)
    fix n t
    assume "\<exists>a. decodedAs t a n"
    then obtain a where dn: "decodedAs t a n" ..
    from decodedAs_headerBytes[OF dn] dn
    show "lengthValue (nodeLength n) = int (length (contentOctets t))
            \<and> headerBytes n = headerSize t"
      by (simp add: decodedAs_def)
  qed
  with pl sf wt inc l2 show "\<exists>ns. parseASN1 (concat (map encode ts)) True = (ns, [])
            \<and> length ns = length ts
            \<and> siblingsFill 0 ns (length (concat (map encode ts)))
            \<and> sorted_wrt (<) (map nodeOffset ns)
            \<and> list_all wellTiled ns
            \<and> list_all2 (\<lambda>n t. lengthValue (nodeLength n) = int (length (contentOctets t))
                               \<and> headerBytes n = headerSize t) ns ts"
    by (intro exI[of _ ns]) (simp add: list_all2_lengthD)
qed

text \<open>
  The stream \<open>30 03 01 01 FF 05 00\<close>: a SEQUENCE holding the BOOLEAN \<open>TRUE\<close>, then a NULL.
\<close>

lemma valid_stream_length_accounting_example:
  "\<exists>ns. parseASN1 [0x30, 0x03, 0x01, 0x01, 0xFF, 0x05, 0x00] True = (ns, [])
      \<and> length ns = 2 \<and> siblingsFill 0 ns 7 \<and> sorted_wrt (<) (map nodeOffset ns)
      \<and> list_all wellTiled ns"
proof -
  let ?ts = "[Constr [0x30] [0x03] [Prim [0x01] [0x01] [0xFF]], Prim [0x05] [0x00] []]"
  have "list_all (\<lambda>t. validTLV t \<and> length (contentOctets t) < 2147483648) ?ts"
    by (simp add: validIdentifier_def encodesLength_def)
  from valid_stream_length_accounting[OF this, THEN conjunct2] obtain ns where
    ns: "parseASN1 (concat (map encode ?ts)) True = (ns, [])" "length ns = length ?ts"
      "siblingsFill 0 ns (length (concat (map encode ?ts)))"
      "sorted_wrt (<) (map nodeOffset ns)" "list_all wellTiled ns"
    by blast
  have c: "concat (map encode ?ts) = [0x30, 0x03, 0x01, 0x01, 0xFF, 0x05, 0x00]" by simp
  have l: "length [0x30 :: byte, 0x03, 0x01, 0x01, 0xFF, 0x05, 0x00] = 7" "length ?ts = 2"
    by simp_all
  from ns show ?thesis unfolding c l by blast
qed

subsection \<open>An element that declares \<open>2 ^ 31\<close> content bytes\<close>

definition oversized :: tlv where
  "oversized = Prim [0x04] [0x84, 0x80, 0x00, 0x00, 0x00] (replicate 2147483648 0)"

lemma valid_oversized: "validTLV oversized"
  by (simp add: oversized_def validIdentifier_def encodesLength_def beNat_def)

lemma parse_oversized: "parseElement (encode oversized) 0 = Inl (RangeError, 6)"
proof -
  let ?buf = "encode oversized"
  have buf: "?buf = 0x04 # 0x84 # 0x80 # 0x00 # 0x00 # 0x00 # replicate 2147483648 0"
    by (simp add: oversized_def)
  have len: "length ?buf = 2147483654" by (simp add: oversized_def)
  have rt: "readTag ?buf 0 = Inr ((0x04, 4), Suc 0)"
    by (simp add: buf readTag_def readByte_def)
  have a: "[0x04, 0x84] @ [0x80, 0x00, 0x00, 0x00] @ replicate 2147483648 0 = ?buf"
    by (simp add: buf)
  have b: "length [0x04 :: byte, 0x84] = 2" "length [0x80 :: byte, 0x00, 0x00, 0x00] = 4"
    by simp_all
  have c: "foldl shiftInByte 0 [0x80, 0x00, 0x00, 0x00] = 0x80000000"
    by (simp add: shiftInByte_plus)
  have rlb: "readLengthBytes ?buf 2 4 0 = Inr (0x80000000, 6)"
    using readLengthBytes_at[of "[0x04, 0x84]" "[0x80, 0x00, 0x00, 0x00]"
        "replicate 2147483648 0" 0]
    unfolding a b c by simp
  have rb: "readByte ?buf (Suc 0) = Inr (0x84, 2)"
    by (simp add: buf readByte_def)
  have rl: "readLength ?buf (Suc 0) = Inr (- 2147483648, 6)"
    unfolding readLength_def by (simp add: rb len rlb)
  have rh: "readHeader ?buf 0 =
              Inr \<lparr>hStartOffset = 0, hTagByte = 0x04, hTagNumber = 4, hLengthStart = Suc 0,
                   hLengthValue = - 2147483648, hContentStart = 6\<rparr>"
    by (simp add: readHeader_def rt rl len)
  show ?thesis
    by (subst parseElement.simps) (simp add: rh parsePrimitive_def readBytes_def)
qed

text \<open>
  Claim C1. For every valid definite-length stream, decoding one element consumes its
  header length plus its declared length, and the nodes of a stream follow one another
  without gap. The code does not do so for every valid stream: \<^verbatim>\<open>readLength\<close> accepts
  up to four length bytes and builds the length with \<^verbatim>\<open>(length << 8) | readByte()\<close>, a
  32-bit operation. The primitive element with the length octets \<open>84 80 00 00 00\<close> and
  \<open>2 ^ 31\<close> content bytes is valid; its length is read back as \<open>- 2 ^ 31\<close>, the check of
  line 105 passes, \<^verbatim>\<open>readBytes\<close> throws, and the decoding of the stream made of this one
  element returns no node and one error.
\<close>

theorem oversized_element_is_not_decoded:
  "validTLV oversized \<and> length (contentOctets oversized) = 2147483648
   \<and> parseElement (encode oversized) 0 = Inl (RangeError, 6)
   \<and> parseASN1 (encode oversized) True = ([], [\<lparr>errorOffset = 6, errorCause = RangeError\<rparr>])"
proof -
  have "0 < length (encode oversized)" by (simp add: oversized_def)
  from parseLoop_fail[OF this parse_oversized, of True "[]"]
  have "parseASN1 (encode oversized) True = ([], [\<lparr>errorOffset = 6, errorCause = RangeError\<rparr>])"
    by (simp add: parseASN1_def)
  with valid_oversized parse_oversized show ?thesis by (simp add: oversized_def)
qed

section \<open>Claim C2: the bounds check on the declared length\<close>

text \<open>
  The check of line 105 stands between the reading of the length and everything that
  uses it: whenever the tag and the length have been read and the length that
  \<^verbatim>\<open>readLength\<close> returned reaches beyond the buffer, the element fails with the error
  that names its starting offset, and neither a child nor a value byte is read.
\<close>

lemma declared_length_check:
  assumes "readTag buf start = Inr ((tagByte, tagNum), lengthStart)"
    and "readLength buf lengthStart = Inr (lengthVal, off)"
    and "int off + lengthVal > int (length buf)"
  shows "parseElement buf start = Inl (DeclaredLengthBeyondBuffer start, off)"
  using assms by (simp add: parseElement.simps readHeader_def)

lemma declared_length_check_example:
  "parseElement [0x04, 0x05, 0x01] 0 = Inl (DeclaredLengthBeyondBuffer 0, 2)"
  by code_simp

text \<open>
  Claim C2. For every input buffer, an element whose declared content length exceeds
  the bytes that remain after its length field fails with an error naming the element's
  starting offset, the check coming right after the length is read.
  The code does not do so for every buffer. \<^verbatim>\<open>readLength\<close> accumulates the long form
  with \<^verbatim>\<open>(length << 8) | readByte()\<close>, a 32-bit operation, so a declared length of
  \<open>2 ^ 31\<close> or more comes back negative and passes the check of line 105. The buffer
  \<open>30 84 FF FF FF FF\<close> declares 4294967295 content bytes and holds none: the decoder
  returns a SEQUENCE node of length \<open>-1\<close> and reports no error. With the primitive tag
  \<open>04\<close> the same length fails only in \<^verbatim>\<open>readBytes\<close>, with the runtime's range error
  at offset 6 and no mention of the starting offset 0.
\<close>

theorem declared_length_overflow_passes_check:
  "beNat [0xFF, 0xFF, 0xFF, 0xFF] = 4294967295
   \<and> parseElement [0x30, 0x84, 0xFF, 0xFF, 0xFF, 0xFF] 0 =
       Inr (ConstructedNode
              \<lparr>tagNumber = 16, tagHex = ''30'', tagCls = UNIVERSAL, tagConstructed = True,
               tagType = ''SEQUENCE''\<rparr>
              \<lparr>lengthValue = - 1, lengthEncodedHex = ''84ffffffff''\<rparr> [] 0 ''3084ffffff'',
            6)
   \<and> parseASN1 [0x30, 0x84, 0xFF, 0xFF, 0xFF, 0xFF] True =
       ([ConstructedNode
              \<lparr>tagNumber = 16, tagHex = ''30'', tagCls = UNIVERSAL, tagConstructed = True,
               tagType = ''SEQUENCE''\<rparr>
              \<lparr>lengthValue = - 1, lengthEncodedHex = ''84ffffffff''\<rparr> [] 0 ''3084ffffff''],
        [])
   \<and> parseElement [0x04, 0x84, 0xFF, 0xFF, 0xFF, 0xFF] 0 = Inl (RangeError, 6)"
proof (intro conjI)
  show "beNat [0xFF, 0xFF, 0xFF, 0xFF] = 4294967295"
    by (simp add: beNat_def)
  show "parseElement [0x30, 0x84, 0xFF, 0xFF, 0xFF, 0xFF] 0 =
       Inr (ConstructedNode
              \<lparr>tagNumber = 16, tagHex = ''30'', tagCls = UNIVERSAL, tagConstructed = True,
               tagType = ''SEQUENCE''\<rparr>
              \<lparr>lengthValue = - 1, lengthEncodedHex = ''84ffffffff''\<rparr> [] 0 ''3084ffffff'',
            6)"
    by code_simp
  show "parseASN1 [0x30, 0x84, 0xFF, 0xFF, 0xFF, 0xFF] True =
       ([ConstructedNode
              \<lparr>tagNumber = 16, tagHex = ''30'', tagCls = UNIVERSAL, tagConstructed = True,
               tagType = ''SEQUENCE''\<rparr>
              \<lparr>lengthValue = - 1, lengthEncodedHex = ''84ffffffff''\<rparr> [] 0 ''3084ffffff''],
        [])"
    by code_simp
  show "parseElement [0x04, 0x84, 0xFF, 0xFF, 0xFF, 0xFF] 0 = Inl (RangeError, 6)"
    by code_simp
qed

section \<open>The shape of the root\<close>

definition fourChildren :: "byte list" where
  "fourChildren =
     [0x30, 0x2A, 0x30, 0x1D, 0x02, 0x01, 0x01, 0x30, 0x03, 0x06, 0x01, 0x2A, 0x30, 0x00,
      0x30, 0x04, 0x05, 0x00, 0x05, 0x00, 0x30, 0x00,
      0x30, 0x09, 0x30, 0x03, 0x06, 0x01, 0x2A, 0x03, 0x02, 0x00, 0xFF,
      0x30, 0x03, 0x06, 0x01, 0x2A, 0x03, 0x02, 0x00, 0xFF, 0x05, 0x00]"

definition certSerial :: node where
  "certSerial =
   PrimitiveNode
     \<lparr>tagNumber = 2, tagHex = ''02'', tagCls = UNIVERSAL, tagConstructed = False,
      tagType = ''INTEGER''\<rparr>
     \<lparr>lengthValue = 1, lengthEncodedHex = ''01''\<rparr>
     \<lparr>rawHex = ''01'', base64 = None, decoded = Some (DNumber 1)\<rparr> 4
     ''020101''"

definition certSignatureOid :: node where
  "certSignatureOid =
   PrimitiveNode
     \<lparr>tagNumber = 6, tagHex = ''06'', tagCls = UNIVERSAL, tagConstructed = False,
      tagType = ''OBJECT IDENTIFIER''\<rparr>
     \<lparr>lengthValue = 1, lengthEncodedHex = ''01''\<rparr>
     \<lparr>rawHex = ''2a'', base64 = None, decoded = Some (DString ''1.2'')\<rparr> 9
     ''06012a''"

definition certSignature :: node where
  "certSignature =
   ConstructedNode
     \<lparr>tagNumber = 16, tagHex = ''30'', tagCls = UNIVERSAL, tagConstructed = True,
      tagType = ''SEQUENCE''\<rparr>
     \<lparr>lengthValue = 3, lengthEncodedHex = ''03''\<rparr>
     [certSignatureOid] 7
     ''300306012a''"

definition certIssuer :: node where
  "certIssuer =
   ConstructedNode
     \<lparr>tagNumber = 16, tagHex = ''30'', tagCls = UNIVERSAL, tagConstructed = True,
      tagType = ''SEQUENCE''\<rparr>
     \<lparr>lengthValue = 0, lengthEncodedHex = ''00''\<rparr>
     [] 12
     ''3000''"

definition certNotBefore :: node where
  "certNotBefore =
   PrimitiveNode
     \<lparr>tagNumber = 5, tagHex = ''05'', tagCls = UNIVERSAL, tagConstructed = False,
      tagType = ''NULL''\<rparr>
     \<lparr>lengthValue = 0, lengthEncodedHex = ''00''\<rparr>
     \<lparr>rawHex = [], base64 = None, decoded = None\<rparr> 16
     ''0500''"

definition certNotAfter :: node where
  "certNotAfter =
   PrimitiveNode
     \<lparr>tagNumber = 5, tagHex = ''05'', tagCls = UNIVERSAL, tagConstructed = False,
      tagType = ''NULL''\<rparr>
     \<lparr>lengthValue = 0, lengthEncodedHex = ''00''\<rparr>
     \<lparr>rawHex = [], base64 = None, decoded = None\<rparr> 18
     ''0500''"

definition certValidity :: node where
  "certValidity =
   ConstructedNode
     \<lparr>tagNumber = 16, tagHex = ''30'', tagCls = UNIVERSAL, tagConstructed = True,
      tagType = ''SEQUENCE''\<rparr>
     \<lparr>lengthValue = 4, lengthEncodedHex = ''04''\<rparr>
     [certNotBefore, certNotAfter] 14
     ''300405000500''"

definition certSubject :: node where
  "certSubject =
   ConstructedNode
     \<lparr>tagNumber = 16, tagHex = ''30'', tagCls = UNIVERSAL, tagConstructed = True,
      tagType = ''SEQUENCE''\<rparr>
     \<lparr>lengthValue = 0, lengthEncodedHex = ''00''\<rparr>
     [] 20
     ''3000''"

definition certSpkiOid :: node where
  "certSpkiOid =
   PrimitiveNode
     \<lparr>tagNumber = 6, tagHex = ''06'', tagCls = UNIVERSAL, tagConstructed = False,
      tagType = ''OBJECT IDENTIFIER''\<rparr>
     \<lparr>lengthValue = 1, lengthEncodedHex = ''01''\<rparr>
     \<lparr>rawHex = ''2a'', base64 = None, decoded = Some (DString ''1.2'')\<rparr> 26
     ''06012a''"

definition certSpkiAlgorithm :: node where
  "certSpkiAlgorithm =
   ConstructedNode
     \<lparr>tagNumber = 16, tagHex = ''30'', tagCls = UNIVERSAL, tagConstructed = True,
      tagType = ''SEQUENCE''\<rparr>
     \<lparr>lengthValue = 3, lengthEncodedHex = ''03''\<rparr>
     [certSpkiOid] 24
     ''300306012a''"

definition certPublicKey :: node where
  "certPublicKey =
   PrimitiveNode
     \<lparr>tagNumber = 3, tagHex = ''03'', tagCls = UNIVERSAL, tagConstructed = False,
      tagType = ''BIT STRING''\<rparr>
     \<lparr>lengthValue = 2, lengthEncodedHex = ''02''\<rparr>
     \<lparr>rawHex = ''00ff'', base64 = None, decoded = Some (DBitString 0 ''ff'')\<rparr> 29
     ''030200ff''"

definition certSpki :: node where
  "certSpki =
   ConstructedNode
     \<lparr>tagNumber = 16, tagHex = ''30'', tagCls = UNIVERSAL, tagConstructed = True,
      tagType = ''SEQUENCE''\<rparr>
     \<lparr>lengthValue = 9, lengthEncodedHex = ''09''\<rparr>
     [certSpkiAlgorithm, certPublicKey] 22
     ''3009300306012a030200ff''"

definition fourTbs :: node where
  "fourTbs =
   ConstructedNode
     \<lparr>tagNumber = 16, tagHex = ''30'', tagCls = UNIVERSAL, tagConstructed = True,
      tagType = ''SEQUENCE''\<rparr>
     \<lparr>lengthValue = 29, lengthEncodedHex = ''1d''\<rparr>
     [certSerial, certSignature, certIssuer, certValidity, certSubject, certSpki] 2
     ''301d020101300306012a300030040500050030003009300306012a030200ff''"

definition fourSigAlgOid :: node where
  "fourSigAlgOid =
   PrimitiveNode
     \<lparr>tagNumber = 6, tagHex = ''06'', tagCls = UNIVERSAL, tagConstructed = False,
      tagType = ''OBJECT IDENTIFIER''\<rparr>
     \<lparr>lengthValue = 1, lengthEncodedHex = ''01''\<rparr>
     \<lparr>rawHex = ''2a'', base64 = None, decoded = Some (DString ''1.2'')\<rparr> 35
     ''06012a''"

definition fourSigAlg :: node where
  "fourSigAlg =
   ConstructedNode
     \<lparr>tagNumber = 16, tagHex = ''30'', tagCls = UNIVERSAL, tagConstructed = True,
      tagType = ''SEQUENCE''\<rparr>
     \<lparr>lengthValue = 3, lengthEncodedHex = ''03''\<rparr>
     [fourSigAlgOid] 33
     ''300306012a''"

definition fourSigValue :: node where
  "fourSigValue =
   PrimitiveNode
     \<lparr>tagNumber = 3, tagHex = ''03'', tagCls = UNIVERSAL, tagConstructed = False,
      tagType = ''BIT STRING''\<rparr>
     \<lparr>lengthValue = 2, lengthEncodedHex = ''02''\<rparr>
     \<lparr>rawHex = ''00ff'', base64 = None, decoded = Some (DBitString 0 ''ff'')\<rparr> 38
     ''030200ff''"

definition fourExtra :: node where
  "fourExtra =
   PrimitiveNode
     \<lparr>tagNumber = 5, tagHex = ''05'', tagCls = UNIVERSAL, tagConstructed = False,
      tagType = ''NULL''\<rparr>
     \<lparr>lengthValue = 0, lengthEncodedHex = ''00''\<rparr>
     \<lparr>rawHex = [], base64 = None, decoded = None\<rparr> 42
     ''0500''"

definition fourRoot :: node where
  "fourRoot =
   ConstructedNode
     \<lparr>tagNumber = 16, tagHex = ''30'', tagCls = UNIVERSAL, tagConstructed = True,
      tagType = ''SEQUENCE''\<rparr>
     \<lparr>lengthValue = 42, lengthEncodedHex = ''2a''\<rparr>
     [fourTbs, fourSigAlg, fourSigValue, fourExtra] 0
     ''302a301d020101300306012a300030040500050030003009300306012a030200ff300306012a030200ff0500''"

lemmas fourChildren_nodes =
  certSerial_def certSignatureOid_def certSignature_def certIssuer_def certNotBefore_def certNotAfter_def certValidity_def certSubject_def certSpkiOid_def certSpkiAlgorithm_def certPublicKey_def certSpki_def fourTbs_def fourSigAlgOid_def fourSigAlg_def fourSigValue_def fourExtra_def fourRoot_def

lemma parse_fourChildren: "parseElement fourChildren 0 = Inr (fourRoot, 44)"
  by (simp add: parse_eval fourChildren_def fourChildren_nodes)

lemma map_fourRoot:
  "\<exists>c. parseX509Certificate rt fourRoot = Inr c \<and> fieldValue (serialNumber c) = ''01''
       \<and> fieldValue (signatureValue c) = ''00ff'' \<and> extensions c = None"
  by (simp add: mapper_eval Let_def fourChildren_nodes)

text \<open>
  What the code does ask of the root. The structural error is thrown exactly when the
  type name is not \<^verbatim>\<open>SEQUENCE\<close> or the value is not an array (lemma \<open>root_check\<close>). The
  first three children are then read by position: without a third child the reading of
  \<^verbatim>\<open>signatureValue.offset\<close> throws a \<^verbatim>\<open>TypeError\<close> at the latest, and children beyond the
  third are never looked at.
\<close>

lemma bindE_Inr: "bindE m f = Inr y \<Longrightarrow> \<exists>x. m = Inr x \<and> f x = Inr y"
  by (cases m) (simp_all add: bindE_def)

lemma makeField_Inr: "makeField v no = Inr f \<Longrightarrow> no \<noteq> None"
  by (auto simp: makeField_def split: option.splits)

lemma assemble_Inr:
  "assemble v t tbs i e a b c d f g = Inr r \<Longrightarrow> g \<noteq> None"
  unfolding assemble_def
  by (auto dest!: bindE_Inr makeField_Inr)

lemma accepted_root_shape:
  assumes "parseX509Certificate rt n = Inr c"
  shows "tagType (nodeTag n) = ''SEQUENCE'' \<and> isArrayValue n \<and> 3 \<le> length (items n)"
proof -
  from assms have r: "tagType (nodeTag n) = ''SEQUENCE''" "isArrayValue n"
    by (auto simp: parseX509Certificate_def split: if_splits)
  with assms have "at (items n) 2 \<noteq> None"
    unfolding parseX509Certificate_def Let_def
    by (auto dest!: bindE_Inr assemble_Inr)
  then have "3 \<le> length (items n)" by (simp add: at_def split: if_splits)
  with r show ?thesis by simp
qed

lemma empty_root_throws_TypeError:
  "parseElement [0x30, 0x00] 0 =
     Inr (ConstructedNode
            \<lparr>tagNumber = 16, tagHex = ''30'', tagCls = UNIVERSAL, tagConstructed = True,
             tagType = ''SEQUENCE''\<rparr>
            \<lparr>lengthValue = 0, lengthEncodedHex = ''00''\<rparr> [] 0 ''3000'', 2)"
  "parseX509Certificate rt
     (ConstructedNode
        \<lparr>tagNumber = 16, tagHex = ''30'', tagCls = UNIVERSAL, tagConstructed = True,
         tagType = ''SEQUENCE''\<rparr>
        \<lparr>lengthValue = 0, lengthEncodedHex = ''00''\<rparr> [] 0 ''3000'') = Inl TypeError"
  by (simp_all add: parse_eval mapper_eval)

text \<open>
  Claim C3. The mapper succeeds only on a root that is a constructed SEQUENCE with
  exactly three children and fails on every other shape. The code does not count the
  children. The 44 bytes of \<open>fourChildren\<close> are a SEQUENCE of four elements, a
  TBSCertificate, a signature algorithm, a signature value and one NULL more; the decoder
  returns the root with its four children, and the mapper returns a certificate.
\<close>

theorem root_with_four_children_is_accepted:
  "parseElement fourChildren 0 = Inr (fourRoot, 44)
   \<and> length (children fourRoot) = 4
   \<and> (\<forall>rt. \<exists>c. parseX509Certificate rt fourRoot = Inr c
          \<and> fieldValue (serialNumber c) = ''01''
          \<and> fieldValue (signatureValue c) = ''00ff'' \<and> extensions c = None)"
  using parse_fourChildren map_fourRoot by (simp add: fourRoot_def)

theorem root_with_four_children_is_accepted_witness:
  "length (children fourRoot) = 4
   \<and> (\<exists>c. parseX509Certificate (\<lambda>r. True) fourRoot = Inr c
          \<and> fieldValue (serialNumber c) = ''01'')"
  using root_with_four_children_is_accepted by blast

section \<open>Extensions\<close>

text \<open>
  An extension with an identifier that \<^verbatim>\<open>parseKnownExtension\<close> does not know gives the raw
  hex of its value node, the empty string when the value node has none.
\<close>

definition knownExtensions :: "string list" where
  "knownExtensions =
     [''2.5.29.17'', ''2.5.29.15'', ''2.5.29.19'', ''2.5.29.31'', ''2.5.29.32'', ''2.5.29.35'',
      ''2.5.29.37'', ''1.3.6.1.5.5.7.1.1'', ''1.3.6.1.5.5.7.1.3'']"

lemma unknown_extension_is_raw_hex:
  assumes "oid \<notin> DString ` set knownExtensions"
  shows "parseKnownExtension rt oid valueNode = Inr (RawHex (orElse (getRawHex valueNode) []))"
  using assms by (auto simp: parseKnownExtension_def knownExtensions_def)

text \<open>
  An extended key usage (2.5.29.37) whose value \<^verbatim>\<open>04 03 30 84 00\<close> wraps a SEQUENCE with a
  truncated length field. The second decoding fails; \<^verbatim>\<open>parseExtendedKeyUsage\<close> returns
  its empty result.
\<close>

definition brokenUsage :: node where
  "brokenUsage =
     PrimitiveNode
       \<lparr>tagNumber = 4, tagHex = ''04'', tagCls = UNIVERSAL, tagConstructed = False,
        tagType = ''OCTET STRING''\<rparr>
       \<lparr>lengthValue = 3, lengthEncodedHex = ''03''\<rparr>
       \<lparr>rawHex = ''308400'', base64 = Some ''MIQA'', decoded = None\<rparr> 0
       ''0403308400''"

lemmas hex_eval =
  hexToArrayBuffer_def hexToBytes_def toUint8_def parseInt_def digitsValue_def digitValue_def
  isWhiteSpace_def upt_rec

lemma parse_brokenUsage: "parseElement [0x04, 0x03, 0x30, 0x84, 0x00] 0 = Inr (brokenUsage, 5)"
  by (simp add: parse_eval brokenUsage_def)

lemma redecode_brokenUsage:
  "hexToArrayBuffer ''308400'' = Inr [0x30, 0x84, 0x00]"
  "parseASN1 [0x30, 0x84, 0x00] True = ([], [\<lparr>errorOffset = 2, errorCause = LengthBeyondBuffer 2\<rparr>])"
  by (simp_all add: hex_eval parseASN1_def parseLoop.simps parse_eval)

lemma usage_brokenUsage:
  "parseKnownExtension rt (DString ''2.5.29.37'') (Some brokenUsage) = Inr (ExtendedKeyUsage [])"
  by (simp add: parseKnownExtension_def wrap_def parseExtendedKeyUsage_def firstSequence_def
        getRawHex_def brokenUsage_def redecode_brokenUsage bindE_def orElse_def)

text \<open>
  A certificate with one extension, a subject alternative name (2.5.29.17) that holds a
  registeredID: the 61 bytes of \<open>sanCertificate\<close>, the certificate of \<open>fourChildren\<close> with
  three children and the field \<^verbatim>\<open>[3]\<close> added to its TBSCertificate. The value of the
  extension is \<^verbatim>\<open>04 06\<close> wrapping \<^verbatim>\<open>30 04 88 02 2A 03\<close>, the GeneralNames with the one name
  \<^verbatim>\<open>[8]\<close>, the object identifier 1.2.3.
\<close>

definition sanCertificate :: "byte list" where
  "sanCertificate =
     [0x30, 0x3B, 0x30, 0x30, 0x02, 0x01, 0x01, 0x30, 0x03, 0x06, 0x01, 0x2A, 0x30, 0x00,
      0x30, 0x04, 0x05, 0x00, 0x05, 0x00, 0x30, 0x00,
      0x30, 0x09, 0x30, 0x03, 0x06, 0x01, 0x2A, 0x03, 0x02, 0x00, 0xFF,
      0xA3, 0x11, 0x30, 0x0F, 0x30, 0x0D, 0x06, 0x03, 0x55, 0x1D, 0x11,
      0x04, 0x06, 0x30, 0x04, 0x88, 0x02, 0x2A, 0x03,
      0x30, 0x03, 0x06, 0x01, 0x2A, 0x03, 0x02, 0x00, 0xFF]"

definition sanExtnID :: node where
  "sanExtnID =
   PrimitiveNode
     \<lparr>tagNumber = 6, tagHex = ''06'', tagCls = UNIVERSAL, tagConstructed = False,
      tagType = ''OBJECT IDENTIFIER''\<rparr>
     \<lparr>lengthValue = 3, lengthEncodedHex = ''03''\<rparr>
     \<lparr>rawHex = ''551d11'', base64 = None, decoded = Some (DString ''2.5.29.17'')\<rparr> 39
     ''0603551d11''"

definition sanExtnValue :: node where
  "sanExtnValue =
   PrimitiveNode
     \<lparr>tagNumber = 4, tagHex = ''04'', tagCls = UNIVERSAL, tagConstructed = False,
      tagType = ''OCTET STRING''\<rparr>
     \<lparr>lengthValue = 6, lengthEncodedHex = ''06''\<rparr>
     \<lparr>rawHex = ''300488022a03'', base64 = Some ''MASIAioD'', decoded = None\<rparr> 44
     ''0406300488022a03''"

definition sanExtension :: node where
  "sanExtension =
   ConstructedNode
     \<lparr>tagNumber = 16, tagHex = ''30'', tagCls = UNIVERSAL, tagConstructed = True,
      tagType = ''SEQUENCE''\<rparr>
     \<lparr>lengthValue = 13, lengthEncodedHex = ''0d''\<rparr>
     [sanExtnID, sanExtnValue] 37
     ''300d0603551d110406300488022a03''"

definition sanExtensionList :: node where
  "sanExtensionList =
   ConstructedNode
     \<lparr>tagNumber = 16, tagHex = ''30'', tagCls = UNIVERSAL, tagConstructed = True,
      tagType = ''SEQUENCE''\<rparr>
     \<lparr>lengthValue = 15, lengthEncodedHex = ''0f''\<rparr>
     [sanExtension] 35
     ''300f300d0603551d110406300488022a03''"

definition sanExtensions :: node where
  "sanExtensions =
   ConstructedNode
     \<lparr>tagNumber = 3, tagHex = ''a3'', tagCls = CONTEXT_SPECIFIC, tagConstructed = True,
      tagType = ''BIT STRING''\<rparr>
     \<lparr>lengthValue = 17, lengthEncodedHex = ''11''\<rparr>
     [sanExtensionList] 33
     ''a311300f300d0603551d110406300488022a03''"

definition sanTbs :: node where
  "sanTbs =
   ConstructedNode
     \<lparr>tagNumber = 16, tagHex = ''30'', tagCls = UNIVERSAL, tagConstructed = True,
      tagType = ''SEQUENCE''\<rparr>
     \<lparr>lengthValue = 48, lengthEncodedHex = ''30''\<rparr>
     [certSerial, certSignature, certIssuer, certValidity, certSubject, certSpki, sanExtensions] 2
     ''3030020101300306012a300030040500050030003009300306012a030200ffa311300f300d0603551d110406300488022a03''"

definition sanSigAlgOid :: node where
  "sanSigAlgOid =
   PrimitiveNode
     \<lparr>tagNumber = 6, tagHex = ''06'', tagCls = UNIVERSAL, tagConstructed = False,
      tagType = ''OBJECT IDENTIFIER''\<rparr>
     \<lparr>lengthValue = 1, lengthEncodedHex = ''01''\<rparr>
     \<lparr>rawHex = ''2a'', base64 = None, decoded = Some (DString ''1.2'')\<rparr> 54
     ''06012a''"

definition sanSigAlg :: node where
  "sanSigAlg =
   ConstructedNode
     \<lparr>tagNumber = 16, tagHex = ''30'', tagCls = UNIVERSAL, tagConstructed = True,
      tagType = ''SEQUENCE''\<rparr>
     \<lparr>lengthValue = 3, lengthEncodedHex = ''03''\<rparr>
     [sanSigAlgOid] 52
     ''300306012a''"

definition sanSigValue :: node where
  "sanSigValue =
   PrimitiveNode
     \<lparr>tagNumber = 3, tagHex = ''03'', tagCls = UNIVERSAL, tagConstructed = False,
      tagType = ''BIT STRING''\<rparr>
     \<lparr>lengthValue = 2, lengthEncodedHex = ''02''\<rparr>
     \<lparr>rawHex = ''00ff'', base64 = None, decoded = Some (DBitString 0 ''ff'')\<rparr> 57
     ''030200ff''"

definition sanRoot :: node where
  "sanRoot =
   ConstructedNode
     \<lparr>tagNumber = 16, tagHex = ''30'', tagCls = UNIVERSAL, tagConstructed = True,
      tagType = ''SEQUENCE''\<rparr>
     \<lparr>lengthValue = 59, lengthEncodedHex = ''3b''\<rparr>
     [sanTbs, sanSigAlg, sanSigValue] 0
     ''303b3030020101300306012a300030040500050030003009300306012a030200ffa311300f300d0603551d110406300488022a03300306012a030200ff''"

lemmas sanCertificate_nodes =
  certSerial_def certSignatureOid_def certSignature_def certIssuer_def certNotBefore_def
  certNotAfter_def certValidity_def certSubject_def certSpkiOid_def certSpkiAlgorithm_def
  certPublicKey_def certSpki_def
  sanExtnID_def sanExtnValue_def sanExtension_def sanExtensionList_def sanExtensions_def sanTbs_def sanSigAlgOid_def sanSigAlg_def sanSigValue_def sanRoot_def

lemma parse_sanCertificate: "parseElement sanCertificate 0 = Inr (sanRoot, 61)"
  by (simp add: parse_eval sanCertificate_def sanCertificate_nodes)

text \<open>The value of the extension decoded again, and the name found in it.\<close>

definition registeredId :: node where
  "registeredId =
     PrimitiveNode
       \<lparr>tagNumber = 8, tagHex = ''88'', tagCls = CONTEXT_SPECIFIC, tagConstructed = False,
        tagType = ''EXTERNAL''\<rparr>
       \<lparr>lengthValue = 2, lengthEncodedHex = ''02''\<rparr>
       \<lparr>rawHex = ''2a03'', base64 = None, decoded = None\<rparr> 2 ''88022a03''"

definition registeredIdNames :: node where
  "registeredIdNames =
     ConstructedNode
       \<lparr>tagNumber = 16, tagHex = ''30'', tagCls = UNIVERSAL, tagConstructed = True,
        tagType = ''SEQUENCE''\<rparr>
       \<lparr>lengthValue = 4, lengthEncodedHex = ''04''\<rparr>
       [registeredId] 0 ''300488022a03''"

lemma redecode_sanExtnValue:
  "hexToArrayBuffer ''300488022a03'' = Inr [0x30, 0x04, 0x88, 0x02, 0x2A, 0x03]"
  "parseASN1 [0x30, 0x04, 0x88, 0x02, 0x2A, 0x03] True = ([registeredIdNames], [])"
  by (simp_all add: hex_eval parseASN1_def parseLoop.simps parse_eval registeredIdNames_def
        registeredId_def)

lemma parseRegisteredID_throws: "parseRegisteredID registeredId = Inl TypeError"
  by (simp add: parseRegisteredID_def registeredId_def hexToArrayBuffer_def bindE_def)

lemma names_sanExtnValue: "parseSubjectAltName (Some sanExtnValue) = Inl TypeError"
proof -
  have "parseASN1FromRawHex (Some sanExtnValue) = Inr [registeredId]"
    by (simp add: parseASN1FromRawHex_def firstSequence_def getRawHex_def sanExtnValue_def
          redecode_sanExtnValue bindE_def orElse_def isSequence_def registeredIdNames_def)
  moreover have "tagCls (nodeTag registeredId) = CONTEXT_SPECIFIC"
    "tagNumber (nodeTag registeredId) = 8"
    by (simp_all add: registeredId_def)
  ultimately show ?thesis
    by (simp add: parseSubjectAltName_def decodeGeneralName_def named_def textName_def
          parseRegisteredID_throws bindE_def Let_def)
qed

lemma decodeExtension_sanExtension: "decodeExtension rt sanExtension = Inl TypeError"
proof -
  have "items sanExtension = [sanExtnID, sanExtnValue]"
    by (simp add: items_def sanExtension_def)
  moreover have "getDecoded (Some sanExtnID) = Some (DString ''2.5.29.17'')"
    by (simp add: getDecoded_def sanExtnID_def reparseTime_def)
  ultimately show ?thesis
    by (simp add: decodeExtension_def at_def orElse_def parseKnownExtension_def wrap_def
          names_sanExtnValue bindE_def Let_def)
qed

lemma map_sanRoot: "parseX509Certificate rt sanRoot = Inl TypeError"
proof -
  have r: "tagType (nodeTag sanRoot) = ''SEQUENCE''" "isArrayValue sanRoot"
    "items sanRoot = [sanTbs, sanSigAlg, sanSigValue]"
    by (simp_all add: sanRoot_def isArrayValue_def items_def)
  have t: "items sanTbs = [certSerial, certSignature, certIssuer, certValidity, certSubject,
                           certSpki, sanExtensions]"
    by (simp add: sanTbs_def items_def)
  have s: "\<not> isContext certSerial 0"
    by (simp add: isContext_def certSerial_def)
  have e: "isContext sanExtensions 3" "items sanExtensions = [sanExtensionList]"
    by (simp_all add: isContext_def sanExtensions_def items_def)
  have "optionalFields rt [sanExtensions] None = Inl TypeError"
    by (simp add: e at_def sanExtensionList_def decodeExtension_sanExtension bindE_def)
  with r t s show ?thesis
    by (simp add: parseX509Certificate_def at_def valueOf_def bindE_def Let_def)
qed

text \<open>
  Claim C4. An extension with an unknown identifier decodes to the raw hex of its value;
  any failure while the value of an extension is decoded again falls back to the raw hex
  and is never fatal to the certificate. The first part holds (lemma
  \<open>unknown_extension_is_raw_hex\<close>). The second does not: nothing catches what the
  parser of a known extension throws. In \<open>sanCertificate\<close> the registeredID of the subject
  alternative name makes \<^verbatim>\<open>parseRegisteredID\<close> pass an array to \<^verbatim>\<open>getDecoded\<close>; the
  \<^verbatim>\<open>TypeError\<close> ends the decoding of the extension and of the whole certificate. And
  where the second decoding fails without an exception, as for the extended key usage
  \<^verbatim>\<open>04 03 30 84 00\<close>, the result is the empty result of the parser, not the raw hex
  \<^verbatim>\<open>308400\<close>.
\<close>

theorem extension_failure_is_fatal:
  "parseElement sanCertificate 0 = Inr (sanRoot, 61)
   \<and> (\<forall>rt. decodeExtension rt sanExtension = Inl TypeError)
   \<and> (\<forall>rt. parseX509Certificate rt sanRoot = Inl TypeError)
   \<and> parseElement [0x04, 0x03, 0x30, 0x84, 0x00] 0 = Inr (brokenUsage, 5)
   \<and> getRawHex (Some brokenUsage) = Some ''308400''
   \<and> (\<forall>rt. parseKnownExtension rt (DString ''2.5.29.37'') (Some brokenUsage)
          = Inr (ExtendedKeyUsage []))"
  using parse_sanCertificate decodeExtension_sanExtension map_sanRoot parse_brokenUsage
    usage_brokenUsage
  by (simp add: getRawHex_def brokenUsage_def)

theorem extension_failure_is_fatal_witness:
  "parseX509Certificate (\<lambda>r. True) sanRoot = Inl TypeError
   \<and> parseKnownExtension (\<lambda>r. True) (DString ''2.5.29.37'') (Some brokenUsage)
       = Inr (ExtendedKeyUsage [])"
  using extension_failure_is_fatal by blast

section \<open>Claim C5: the error list of \<^verbatim>\<open>parse\<close>\<close>

text \<open>
  \<open>decodesTo buf off ns stop\<close>: from \<open>off\<close> on, the elements \<open>ns\<close> decode one after the
  other, each from where the one before ended, and the last ends at \<open>stop\<close>.
  \<open>stopsWith buf stop errs\<close>: either \<open>stop\<close> is the end of the buffer and there is no
  error, or the element at \<open>stop\<close> fails and the error list is the one entry with the
  offset at the failure and its cause.
\<close>

fun decodesTo :: "byte list \<Rightarrow> nat \<Rightarrow> node list \<Rightarrow> nat \<Rightarrow> bool" where
  "decodesTo buf off [] stop = (stop = off)"
| "decodesTo buf off (n # ns) stop =
     (case parseElement buf off of
        Inl e \<Rightarrow> False
      | Inr (m, off1) \<Rightarrow> m = n \<and> decodesTo buf off1 ns stop)"

definition stopsWith :: "byte list \<Rightarrow> nat \<Rightarrow> parseErrorEntry list \<Rightarrow> bool" where
  "stopsWith buf stop errs =
     (if stop < length buf
      then (case parseElement buf stop of
              Inl (e, errOff) \<Rightarrow> errs = [\<lparr>errorOffset = errOff, errorCause = e\<rparr>]
            | Inr r \<Rightarrow> False)
      else errs = [])"

lemma parseLoop_all:
  "\<exists>ms stop errs. parseLoop buf True off acc = (acc @ ms, errs) \<and> decodesTo buf off ms stop
      \<and> stopsWith buf stop errs"
proof (induction buf True off acc rule: parseLoop.induct)
  case (1 buf off nodes)
  show ?case
  proof (cases "off < length buf")
    case False
    have "parseLoop buf True off nodes = (nodes @ [], [])"
      using parseLoop_done[OF False] by simp
    moreover have "decodesTo buf off [] off" by simp
    moreover have "stopsWith buf off []" using False by (simp add: stopsWith_def)
    ultimately show ?thesis by blast
  next
    case True
    show ?thesis
    proof (cases "parseElement buf off")
      case (Inl a)
      obtain e errOff where a: "a = (e, errOff)" by (cases a)
      have "parseLoop buf True off nodes
              = (nodes @ [], [\<lparr>errorOffset = errOff, errorCause = e\<rparr>])"
        using parseLoop_fail[OF True Inl[unfolded a]] by simp
      moreover have "decodesTo buf off [] off" by simp
      moreover have "stopsWith buf off [\<lparr>errorOffset = errOff, errorCause = e\<rparr>]"
        using True Inl a by (simp add: stopsWith_def)
      ultimately show ?thesis by blast
    next
      case (Inr b)
      obtain n off1 where b: "b = (n, off1)" by (cases b)
      note pe = Inr[unfolded b]
      from "1.hyps"[OF True pe refl] obtain ms stop errs where
        ih: "parseLoop buf True off1 (nodes @ [n]) = ((nodes @ [n]) @ ms, errs)"
          "decodesTo buf off1 ms stop" "stopsWith buf stop errs"
        by blast
      have "parseLoop buf True off nodes = (nodes @ (n # ms), errs)"
        using parseLoop_step[OF True pe] ih(1) by simp
      moreover have "decodesTo buf off (n # ms) stop" using pe ih(2) by simp
      ultimately show ?thesis using ih(3) by blast
    qed
  qed
qed

text \<open>
  Claim C5. For every input buffer, \<^verbatim>\<open>parse\<close> in parse-all mode returns a result and an
  error list, and never throws: the model is a total function whose value is that pair.
  The nodes returned are the elements that decoded one after the other from offset 0.
  Either they reach the end of the buffer and the error list is empty, or the element
  after them failed, the error list is the single entry that names the offset at the
  failure with its cause, and no further element was decoded.
\<close>

theorem parse_all_collects_first_error:
  "\<exists>ns stop errs. parseASN1 buf True = (ns, errs) \<and> decodesTo buf 0 ns stop
      \<and> stopsWith buf stop errs"
  using parseLoop_all[of buf 0 "[]"] by (simp add: parseASN1_def)

lemma parse_all_example:
  "parseASN1 [0x05, 0x00, 0x04, 0x05, 0x01] True =
     ([PrimitiveNode
         \<lparr>tagNumber = 5, tagHex = ''05'', tagCls = UNIVERSAL, tagConstructed = False,
          tagType = ''NULL''\<rparr>
         \<lparr>lengthValue = 0, lengthEncodedHex = ''00''\<rparr>
         \<lparr>rawHex = [], base64 = None, decoded = None\<rparr> 0 ''0500''],
      [\<lparr>errorOffset = 4, errorCause = DeclaredLengthBeyondBuffer 2\<rparr>])"
  by code_simp

section \<open>Claim C6: the INTEGER decoder\<close>

text \<open>
  The value that the claim speaks of: the big-endian two's-complement value of the
  whole byte string, the sign taken from the high bit of the first byte.
\<close>

definition twosComplement :: "byte list \<Rightarrow> int" where
  "twosComplement bs =
     (if bs \<noteq> [] \<and> hd bs AND 0x80 \<noteq> 0 then int (beNat bs) - 256 ^ length bs
      else int (beNat bs))"

text \<open>
  Up to three bytes the decoder does return that value: the accumulator stays below
  \<open>2 ^ 24\<close> and the shift \<^verbatim>\<open>1 << (8 * length)\<close> is still \<open>256 ^ length\<close>.
\<close>

lemma decodeInteger_upto_3:
  assumes len: "length bs \<le> 3"
  shows "decodeInteger bs = twosComplement bs"
proof -
  have b: "beNat bs < 256 ^ length bs" by (rule beNat_bound)
  with pow256_le[OF len] have lt: "beNat bs < 16777216" by linarith
  then have u: "unat (foldl shiftInByte 0 bs) = beNat bs"
    by (simp add: unat_foldl_shiftInByte)
  with lt have s: "sint (foldl shiftInByte 0 bs) = int (beNat bs)"
    by (simp add: sint_small)
  have sh: "sint ((2 :: int32) ^ ((length bs * 8) mod 32)) = 256 ^ length bs"
  proof -
    from len consider "length bs = 0" | "length bs = 1" | "length bs = 2" | "length bs = 3"
      by linarith
    then show ?thesis by cases simp_all
  qed
  have hd0: "bs \<noteq> [] \<Longrightarrow> bs ! 0 = hd bs" by (cases bs) auto
  show ?thesis
    by (cases "bs = []")
       (simp_all add: decodeInteger_def twosComplement_def s sh hd0 Let_def beNat_def)
qed

lemma decodeInteger_upto_3_example:
  "decodeInteger [0xFF, 0x7F] = - 129 \<and> twosComplement [0xFF, 0x7F] = - 129"
  using decodeInteger_upto_3[of "[0xFF, 0x7F]"]
  by (simp add: twosComplement_def beNat_def)

text \<open>
  Claim C6. For every non-empty byte string the INTEGER/ENUMERATED decoder returns its
  big-endian two's-complement value, and precision is lost only beyond 53 bits.
  The code does not: the accumulation \<^verbatim>\<open>(result << 8) | bytes[i]\<close> and the shift
  \<^verbatim>\<open>1 << (bytes.length * 8)\<close> are 32-bit operations. On the four bytes \<open>FF FF FF FF\<close>,
  the encoding of \<open>-1\<close>, the accumulator is already \<open>-1\<close> and the shift count 32 wraps to
  0, so that 1 is subtracted and the result is \<open>-2\<close>; on the five bytes \<open>01 00 00 00 00\<close>,
  the encoding of \<open>2 ^ 32\<close> (33 bits), the result is 0.
\<close>

theorem decodeInteger_wraps_at_32_bits:
  "decodeInteger [0xFF, 0xFF, 0xFF, 0xFF] = - 2
   \<and> twosComplement [0xFF, 0xFF, 0xFF, 0xFF] = - 1
   \<and> decodeInteger [0x01, 0x00, 0x00, 0x00, 0x00] = 0
   \<and> twosComplement [0x01, 0x00, 0x00, 0x00, 0x00] = 4294967296"
proof (intro conjI)
  show "decodeInteger [0xFF, 0xFF, 0xFF, 0xFF] = - 2"
    by (simp add: decodeInteger_def shiftInByte_plus)
  show "twosComplement [0xFF, 0xFF, 0xFF, 0xFF] = - 1"
    by (simp add: twosComplement_def beNat_def)
  show "decodeInteger [0x01, 0x00, 0x00, 0x00, 0x00] = 0"
    by (simp add: decodeInteger_def shiftInByte_plus)
  show "twosComplement [0x01, 0x00, 0x00, 0x00, 0x00] = 4294967296"
    by (simp add: twosComplement_def beNat_def)
qed

section \<open>UTCTime\<close>

text \<open>
  The reading of a UTCTime content that the specification describes: a string of the
  form \<^verbatim>\<open>YYMMDDhhmm[ss]Z\<close> gives its year, moved to the century by the pivot at 50, its
  month, day, hour, minute and second (0 when absent); any other string gives nothing.
\<close>

definition twoDigits :: "string \<Rightarrow> nat \<Rightarrow> int" where
  "twoDigits s i = int (digitValue (s ! i) * 10 + digitValue (s ! (i + 1)))"

definition pivotYear :: "int \<Rightarrow> int" where
  "pivotYear yy = (if yy < 50 then 2000 + yy else 1900 + yy)"

definition utcTimeFields :: "string \<Rightarrow> (int \<times> int \<times> int \<times> int \<times> int \<times> int) option" where
  "utcTimeFields s =
     (if (length s = 11 \<or> length s = 13) \<and> list_all isDigit (butlast s) \<and> last s = CHR ''Z''
      then Some (pivotYear (twoDigits s 0), twoDigits s 2, twoDigits s 4, twoDigits s 6,
                 twoDigits s 8, if length s = 13 then twoDigits s 10 else 0)
      else None)"


lemma isDigit_range: "isDigit c \<Longrightarrow> 48 \<le> (of_char c :: nat) \<and> (of_char c :: nat) \<le> 57"
  by (auto simp: isDigit_def digitValue_def Let_def split: if_splits)

lemma isDigit_plain:
  assumes "isDigit c"
  shows "\<not> isWhiteSpace c" "c \<noteq> CHR ''-''" "c \<noteq> CHR ''+''"
  using isDigit_range[OF assms] by (auto simp: isWhiteSpace_def)

lemma digitValue_lt_10: "isDigit c \<Longrightarrow> digitValue c < 10"
  by (simp add: isDigit_def)

lemma parseInt_pair:
  assumes a: "isDigit a" and b: "isDigit b"
  shows "parseInt 10 [a, b] = Some (int (digitValue a * 10 + digitValue b))"
  using isDigit_plain[OF a] digitValue_lt_10[OF a] digitValue_lt_10[OF b]
  by (simp add: parseInt_def digitsValue_def)

lemma twoDigits_bounds:
  assumes "isDigit (s ! i)" "isDigit (s ! (i + 1))"
  shows "0 \<le> twoDigits s i" "twoDigits s i \<le> 99"
  using digitValue_lt_10[OF assms(1)] digitValue_lt_10[OF assms(2)]
  by (simp_all add: twoDigits_def)

lemma pivotYear_bounds: "0 \<le> yy \<Longrightarrow> yy \<le> 99 \<Longrightarrow> 1950 \<le> pivotYear yy \<and> pivotYear yy \<le> 2049"
  by (simp add: pivotYear_def)

lemma div_between:
  fixes x :: int
  assumes "lo \<le> x" "x \<le> hi" "0 < k"
  shows "lo div k \<le> x div k" "x div k \<le> hi div k"
  using assms by (simp_all add: zdiv_mono1)

lemma dayFromYear_bounds:
  assumes "1949 \<le> y" "y \<le> 2058"
  shows "- 8000 \<le> dayFromYear y" "dayFromYear y \<le> 33000"
proof -
  define a b c where "a = (y - 1969) div 4" and "b = (y - 1901) div 100"
    and "c = (y - 1601) div 400"
  from assms have "- 20 \<le> y - 1969" "y - 1969 \<le> 89" by simp_all
  from div_between[OF this, of 4] have a: "- 5 \<le> a" "a \<le> 22" by (simp_all add: a_def)
  from assms have "48 \<le> y - 1901" "y - 1901 \<le> 157" by simp_all
  from div_between[OF this, of 100] have b: "0 \<le> b" "b \<le> 1" by (simp_all add: b_def)
  from assms have "348 \<le> y - 1601" "y - 1601 \<le> 457" by simp_all
  from div_between[OF this, of 400] have c: "0 \<le> c" "c \<le> 1" by (simp_all add: c_def)
  have d: "dayFromYear y = 365 * (y - 1970) + a - b + c"
    by (simp add: dayFromYear_def a_def b_def c_def)
  from a b c assms show "- 8000 \<le> dayFromYear y" unfolding d by simp
  from a b c assms show "dayFromYear y \<le> 33000" unfolding d by simp
qed

lemma monthStart_bounds:
  assumes "mn < 12"
  shows "0 \<le> monthStart mn leap" "monthStart mn leap \<le> 335"
proof -
  have "list_all (\<lambda>k. 0 \<le> monthStart k leap \<and> monthStart k leap \<le> 335) [0..<12]"
    by (simp add: monthStart_def upt_rec)
  with assms show "0 \<le> monthStart mn leap" "monthStart mn leap \<le> 335"
    by (simp_all add: list_all_iff)
qed

lemma makeDay_bounds:
  assumes y: "1950 \<le> y" "y \<le> 2049" and m: "- 1 \<le> m" "m \<le> 98" and d: "0 \<le> dt" "dt \<le> 99"
  shows "- 9000 \<le> makeDay y m dt" "makeDay y m dt \<le> 34000"
proof -
  from div_between[OF m, of 12] have md: "- 1 \<le> m div 12" "m div 12 \<le> 8" by simp_all
  with y have ym: "1949 \<le> y + m div 12" "y + m div 12 \<le> 2058" by simp_all
  have mn: "nat (m mod 12) < 12" by simp
  note b = dayFromYear_bounds[OF ym] monthStart_bounds[OF mn, of "inLeapYear (y + m div 12)"]
  from b d show "- 9000 \<le> makeDay y m dt" by (simp add: makeDay_def Let_def)
  from b d show "makeDay y m dt \<le> 34000" by (simp add: makeDay_def Let_def)
qed

lemma utc_not_clipped:
  assumes y: "1950 \<le> y" "y \<le> 2049" and m: "0 \<le> mo" "mo \<le> 99" and d: "0 \<le> dt" "dt \<le> 99"
    and h: "0 \<le> h" "h \<le> 99" and mi: "0 \<le> mi" "mi \<le> 99" and s: "0 \<le> sec" "sec \<le> 99"
  shows "newDate (DateUTC (Some y) (Some (mo - 1)) (Some dt) (Some h) (Some mi) (Some sec))
           = Date (utcMillis y (mo - 1) dt h mi sec)"
proof -
  from m have m': "- 1 \<le> mo - 1" "mo - 1 \<le> 98" by simp_all
  from y have yr: "(if 0 \<le> y \<and> y \<le> 99 then 1900 + y else y) = y" by simp
  define k where "k = makeDay y (mo - 1) dt"
  from makeDay_bounds[OF y m' d] have k: "- 9000 \<le> k" "k \<le> 34000" by (simp_all add: k_def)
  have u: "utcMillis y (mo - 1) dt h mi sec = k * 86400000 + (h * 3600000 + mi * 60000 + sec * 1000)"
    by (simp add: utcMillis_def Let_def yr k_def)
  from k h mi s have "\<bar>utcMillis y (mo - 1) dt h mi sec\<bar> \<le> 8640000000000000"
    unfolding u by simp
  then show ?thesis by (simp add: DateUTC_def timeClip_def newDate_def)
qed

lemma pair_bounds:
  assumes "isDigit a" "isDigit b"
  shows "0 \<le> int (digitValue a * 10 + digitValue b)" "int (digitValue a * 10 + digitValue b) \<le> 99"
  using digitValue_lt_10[OF assms(1)] digitValue_lt_10[OF assms(2)] by simp_all

lemma utc_fields_date:
  assumes "isDigit y1" "isDigit y2" "isDigit m1" "isDigit m2" "isDigit d1" "isDigit d2"
    "isDigit h1" "isDigit h2" "isDigit i1" "isDigit i2" and sec: "0 \<le> sec" "sec \<le> 99"
  shows "newDate (DateUTC
           (map_option (\<lambda>y. if y < 50 then 2000 + y else 1900 + y) (parseInt 10 [y1, y2]))
           (map_option (\<lambda>m. m - 1) (parseInt 10 [m1, m2]))
           (parseInt 10 [d1, d2]) (parseInt 10 [h1, h2]) (parseInt 10 [i1, i2]) (Some sec))
         = Date (utcMillis (pivotYear (int (digitValue y1 * 10 + digitValue y2)))
                   (int (digitValue m1 * 10 + digitValue m2) - 1)
                   (int (digitValue d1 * 10 + digitValue d2))
                   (int (digitValue h1 * 10 + digitValue h2))
                   (int (digitValue i1 * 10 + digitValue i2)) sec)"
proof -
  note y = pair_bounds[OF assms(1,2)]
  from pivotYear_bounds[OF y] have py:
    "1950 \<le> pivotYear (int (digitValue y1 * 10 + digitValue y2))"
    "pivotYear (int (digitValue y1 * 10 + digitValue y2)) \<le> 2049" by simp_all
  have p: "(\<lambda>y. if y < 50 then 2000 + y else 1900 + y) = pivotYear"
    by (rule ext) (simp add: pivotYear_def)
  show ?thesis
    unfolding p
    by (simp only: parseInt_pair assms option.map
          utc_not_clipped[OF py pair_bounds[OF assms(3,4)] pair_bounds[OF assms(5,6)]
             pair_bounds[OF assms(7,8)] pair_bounds[OF assms(9,10)] sec])
qed


lemma list13:
  "length s = 13 \<Longrightarrow> \<exists>a b c d e f g h i j k l m. s = [a, b, c, d, e, f, g, h, i, j, k, l, m]"
  by (auto simp: length_Suc_conv eval_nat_numeral)







text \<open>
  The mapper passes what the decoder left as a string through \<^verbatim>\<open>parseASN1Date\<close>, which
  reads by position: on the thirteen-character form it agrees with the decoder.
\<close>

lemma parseASN1Date_utc:
  assumes "length s = 13" "utcTimeFields s = Some (y, mo, d, h, mi, sec)"
  shows "parseASN1Date s = DDate (Date (utcMillis y (mo - 1) d h mi sec))"
proof -
  from list13[OF assms(1)] obtain a b c d' e f g h' i j k l z where
    s: "s = [a, b, c, d', e, f, g, h', i, j, k, l, z]" by blast
  from assms(2) have dg: "isDigit a" "isDigit b" "isDigit c" "isDigit d'" "isDigit e" "isDigit f"
    "isDigit g" "isDigit h'" "isDigit i" "isDigit j" and kl: "isDigit k" "isDigit l"
    and z: "z = CHR ''Z''"
    by (simp_all add: s utcTimeFields_def split: if_splits)
  from assms(2) have u:
    "y = pivotYear (int (digitValue a * 10 + digitValue b))"
    "mo = int (digitValue c * 10 + digitValue d')" "d = int (digitValue e * 10 + digitValue f)"
    "h = int (digitValue g * 10 + digitValue h')" "mi = int (digitValue i * 10 + digitValue j)"
    "sec = int (digitValue k * 10 + digitValue l)"
    by (simp_all add: s utcTimeFields_def twoDigits_def split: if_splits)
  show ?thesis
    unfolding u
    using utc_fields_date[OF dg pair_bounds[OF kl]]
    by (simp add: parseASN1Date_def s z endsWithZ_def sliceStr_def parseInt_pair[OF kl] Let_def)
qed





section \<open>keyUsage\<close>

text \<open>
  The flags that the claim describes. The bit string is the data bytes without the
  unused bits at the end; bit \<open>i\<close> is counted from the most significant bit of the first
  byte. A flag is set iff its bit is within the bit string and is 1.
\<close>

definition bitAt :: "byte list \<Rightarrow> nat \<Rightarrow> bool" where
  "bitAt bs i = (i < 8 * length bs \<and> bit (bs ! (i div 8)) (7 - i mod 8))"

definition keyUsageFlags :: "nat \<Rightarrow> byte list \<Rightarrow> (string \<times> bool) list" where
  "keyUsageFlags unused bs =
     map (\<lambda>(i, name). (name, i < 8 * length bs - unused \<and> bitAt bs i)) KeyUsageLabels"

lemmas number_eval =
  parseInt_def digitsValue_def digitValue_def isWhiteSpace_def numberToBinary_def roundDouble_def
  bitLength.simps natToString_def digitsOf.simps hexDigit_def Let_def

lemmas keyUsage_eval =
  parseKeyUsage_def getRawHex_def orElse_def sliceStr_def padStart0_def substringTo_def
  KeyUsageLabels_def at_def Let_def

text \<open>
  The example of the claim: no unused bit and the one data byte \<open>80\<close>, in the extension
  value \<^verbatim>\<open>04 04 03 02 00 80\<close>.
\<close>

definition signatureUsage :: node where
  "signatureUsage =
     PrimitiveNode
       \<lparr>tagNumber = 4, tagHex = ''04'', tagCls = UNIVERSAL, tagConstructed = False,
        tagType = ''OCTET STRING''\<rparr>
       \<lparr>lengthValue = 4, lengthEncodedHex = ''04''\<rparr>
       \<lparr>rawHex = ''03020080'', base64 = Some ''AwIAgA=='', decoded = None\<rparr> 0
       ''040403020080''"

lemma parse_signatureUsage:
  "parseElement [0x04, 0x04, 0x03, 0x02, 0x00, 0x80] 0 = Inr (signatureUsage, 6)"
  by (simp add: parse_eval signatureUsage_def)

lemma signatureUsage_number:
  "parseInt 16 ''00'' = Some 0" "parseInt 16 ''80'' = Some 128"
  "numberToBinary (Some 128) = ''10000000''"
  by (simp_all add: number_eval)

lemma signatureUsage_flags:
  "parseKeyUsage (Some signatureUsage) =
     [(''digitalSignature'', True), (''nonRepudiation'', False), (''keyEncipherment'', False),
      (''dataEncipherment'', False), (''keyAgreement'', False), (''keyCertSign'', False),
      (''cRLSign'', False), (''encipherOnly'', False), (''decipherOnly'', False)]"
  by (simp add: keyUsage_eval signatureUsage_number signatureUsage_def)

lemma signatureUsage_expected:
  "keyUsageFlags 0 [0x80] =
     [(''digitalSignature'', True), (''nonRepudiation'', False), (''keyEncipherment'', False),
      (''dataEncipherment'', False), (''keyAgreement'', False), (''keyCertSign'', False),
      (''cRLSign'', False), (''encipherOnly'', False), (''decipherOnly'', False)]"
  by (simp add: keyUsageFlags_def bitAt_def KeyUsageLabels_def)

text \<open>
  A bit string of 56 bits, all of them 1: the extension value
  \<^verbatim>\<open>04 0A 03 08 00 FF FF FF FF FF FF FF\<close>.
\<close>

definition wideUsage :: node where
  "wideUsage =
     PrimitiveNode
       \<lparr>tagNumber = 4, tagHex = ''04'', tagCls = UNIVERSAL, tagConstructed = False,
        tagType = ''OCTET STRING''\<rparr>
       \<lparr>lengthValue = 10, lengthEncodedHex = ''0a''\<rparr>
       \<lparr>rawHex = ''030800ffffffffffffff'', base64 = Some ''AwgA/////////w=='',
        decoded = None\<rparr> 0
       ''040a030800ffffffffffffff''"

lemma parse_wideUsage:
  "parseElement [0x04, 0x0A, 0x03, 0x08, 0x00, 0xFF, 0xFF, 0xFF, 0xFF, 0xFF, 0xFF, 0xFF] 0
     = Inr (wideUsage, 12)"
  by (simp add: parse_eval wideUsage_def)

lemma wideUsage_number:
  "parseInt 16 ''ffffffffffffff'' = Some 72057594037927935"
  "numberToBinary (Some 72057594037927935)
     = ''100000000000000000000000000000000000000000000000000000000''"
  by (simp_all add: number_eval)

lemma wideUsage_flags:
  "parseKeyUsage (Some wideUsage) =
     [(''digitalSignature'', True), (''nonRepudiation'', False), (''keyEncipherment'', False),
      (''dataEncipherment'', False), (''keyAgreement'', False), (''keyCertSign'', False),
      (''cRLSign'', False), (''encipherOnly'', False), (''decipherOnly'', False)]"
  by (simp add: keyUsage_eval signatureUsage_number(1) wideUsage_number wideUsage_def)

lemma wideUsage_expected:
  "keyUsageFlags 0 [0xFF, 0xFF, 0xFF, 0xFF, 0xFF, 0xFF, 0xFF] =
     [(''digitalSignature'', True), (''nonRepudiation'', True), (''keyEncipherment'', True),
      (''dataEncipherment'', True), (''keyAgreement'', True), (''keyCertSign'', True),
      (''cRLSign'', True), (''encipherOnly'', True), (''decipherOnly'', True)]"
  by (simp add: keyUsageFlags_def bitAt_def KeyUsageLabels_def)

subsection \<open>Bit strings of at most 48 bits\<close>

text \<open>
  Up to six data bytes the number \<^verbatim>\<open>parseInt(bitsHex, 16)\<close> is exact, its binary digits
  padded to the width of the data are the bits of the data, and the flags are those that
  the claim describes.
\<close>

lemma hexDigit_digit:
  assumes "d < 16"
  shows "digitValue (hexDigit d) = d" "\<not> isWhiteSpace (hexDigit d)"
    "hexDigit d \<noteq> CHR ''-''" "hexDigit d \<noteq> CHR ''+''" "hexDigit d \<noteq> CHR ''x''"
    "hexDigit d \<noteq> CHR ''X''"
proof -
  have "list_all (\<lambda>d. digitValue (hexDigit d) = d \<and> \<not> isWhiteSpace (hexDigit d)
          \<and> hexDigit d \<noteq> CHR ''-'' \<and> hexDigit d \<noteq> CHR ''+'' \<and> hexDigit d \<noteq> CHR ''x''
          \<and> hexDigit d \<noteq> CHR ''X'') [0..<16]"
    by (simp add: hexDigit_def digitValue_def isWhiteSpace_def upt_rec)
  with assms show "digitValue (hexDigit d) = d" "\<not> isWhiteSpace (hexDigit d)"
    "hexDigit d \<noteq> CHR ''-''" "hexDigit d \<noteq> CHR ''+''" "hexDigit d \<noteq> CHR ''x''"
    "hexDigit d \<noteq> CHR ''X''"
    by (simp_all add: list_all_iff)
qed

lemma nibbles: "unat (b :: byte) div 16 < 16" "unat (b :: byte) mod 16 < 16"
  using unat_byte_lt[of b] by simp_all

lemmas hexByte_digit = hexDigit_digit[OF nibbles(1)] hexDigit_digit[OF nibbles(2)]

lemma takeWhile_bytesToHex:
  "takeWhile (\<lambda>c. digitValue c < 16) (bytesToHex bs) = bytesToHex bs"
  by (induction bs) (simp_all add: bytesToHex_def hexByte_def hexByte_digit nibbles)

lemma digitsValue_bytesToHex:
  "foldl (\<lambda>a c. a * 16 + digitValue c) a (bytesToHex bs) = foldl (\<lambda>a b. a * 256 + unat b) a bs"
proof (induction bs arbitrary: a)
  case Nil
  then show ?case by (simp add: bytesToHex_def)
next
  case (Cons b bs)
  have "(a * 16 + unat b div 16) * 16 + unat b mod 16 = a * 256 + unat b"
    by (simp add: algebra_simps)
  with Cons[of "a * 256 + unat b"] show ?case
    by (simp add: bytesToHex_def hexByte_def hexByte_digit add.commute mult.commute)
qed

lemma parseInt_bytesToHex:
  assumes "bs \<noteq> []"
  shows "parseInt 16 (bytesToHex bs) = Some (int (beNat bs))"
proof -
  from assms obtain b rest where bs: "bs = b # rest" by (cases bs) auto
  define hi lo where "hi = hexDigit (unat b div 16)" and "lo = hexDigit (unat b mod 16)"
  define str where "str = bytesToHex bs"
  have s: "str = hi # lo # bytesToHex rest"
    by (simp add: str_def bs bytesToHex_def hexByte_def hi_def lo_def)
  have h: "\<not> isWhiteSpace hi" "hi \<noteq> CHR ''-''" "hi \<noteq> CHR ''+''" "lo \<noteq> CHR ''x''" "lo \<noteq> CHR ''X''"
    by (simp_all add: hi_def lo_def hexByte_digit)
  from h have f: "dropWhile isWhiteSpace str = str" "take (Suc 0) str \<noteq> ''-''"
    "take (Suc 0) str \<noteq> ''+''"
    "take 2 str \<noteq> ''0x''" "take 2 str \<noteq> ''0X''" "str \<noteq> []"
    by (simp_all add: s)
  have t: "takeWhile (\<lambda>c. digitValue c < 16) str = str"
    unfolding str_def by (rule takeWhile_bytesToHex)
  have v: "digitsValue 16 str = beNat bs"
    using digitsValue_bytesToHex[of 0 bs] by (simp add: str_def digitsValue_def beNat_def)
  show ?thesis
    unfolding parseInt_def str_def[symmetric] by (simp add: f t v Let_def)
qed

lemma bitLength_le: "n < 2 ^ k \<Longrightarrow> bitLength n \<le> k"
proof (induction k arbitrary: n)
  case 0
  then show ?case by (simp add: bitLength.simps)
next
  case (Suc k)
  show ?case
  proof (cases "n = 0")
    case True
    then show ?thesis by (simp add: bitLength.simps)
  next
    case False
    from Suc.prems have "n div 2 < 2 ^ k" by simp
    from Suc.IH[OF this] False show ?thesis by (subst bitLength.simps) simp
  qed
qed

lemma roundDouble_exact: "n < 2 ^ 53 \<Longrightarrow> roundDouble n = Some n"
  using bitLength_le[of n 53] by (simp add: roundDouble_def)

text \<open>The binary digits of a number in a fixed width.\<close>

fun binW :: "nat \<Rightarrow> nat \<Rightarrow> string" where
  "binW 0 n = []"
| "binW (Suc w) n = binW w (n div 2) @ [hexDigit (n mod 2)]"

lemma length_binW: "length (binW w n) = w"
  by (induction w arbitrary: n) simp_all

lemma binW_zero: "binW w 0 = replicate w (CHR ''0'')"
  by (induction w) (simp_all add: hexDigit_def replicate_append_same)

lemma padStart0_snoc: "padStart0 (Suc w) (ds @ [c]) = padStart0 w ds @ [c]"
  by (simp add: padStart0_def)

lemma padStart0_digitsOf:
  "0 < w \<Longrightarrow> n < 2 ^ w \<Longrightarrow> padStart0 w (digitsOf 2 n) = binW w n"
proof (induction w arbitrary: n)
  case 0
  then show ?case by simp
next
  case (Suc w)
  show ?case
  proof (cases "n < 2")
    case True
    then have "n div 2 = 0" "n mod 2 = n" by simp_all
    with True show ?thesis
      by (subst digitsOf.simps) (simp add: padStart0_def binW_zero)
  next
    case False
    with Suc.prems have w: "0 < w"
      by (cases w) simp_all
    from Suc.prems have "n div 2 < 2 ^ w" by simp
    from Suc.IH[OF w this] False show ?thesis
      by (subst digitsOf.simps) (simp add: padStart0_snoc)
  qed
qed

lemma nth_binW: "i < w \<Longrightarrow> binW w n ! i = hexDigit ((n div 2 ^ (w - 1 - i)) mod 2)"
proof (induction w arbitrary: n i)
  case 0
  then show ?case by simp
next
  case (Suc w)
  show ?case
  proof (cases "i < w")
    case True
    have e: "w - i = Suc (w - 1 - i)" using True by simp
    have "n div 2 div 2 ^ (w - 1 - i) = n div 2 ^ (w - i)"
      unfolding e by (simp add: div_mult2_eq)
    with Suc.IH[OF True, of "n div 2"] True show ?thesis
      by (simp add: nth_append length_binW)
  next
    case False
    with Suc.prems have "i = w" by simp
    then show ?thesis by (simp add: nth_append length_binW)
  qed
qed

lemma binW_one: "i < w \<Longrightarrow> (binW w n ! i = CHR ''1'') = odd (n div 2 ^ (w - 1 - i))"
proof -
  assume "i < w"
  have "(hexDigit (k mod 2) = CHR ''1'') = odd k" for k
  proof (cases "odd k")
    case True
    then have "k mod 2 = 1" by (simp add: odd_iff_mod_2_eq_one)
    then show ?thesis using True by (simp add: hexDigit_def)
  next
    case False
    then have "k mod 2 = 0" by simp
    then show ?thesis using False by (simp add: hexDigit_def)
  qed
  with nth_binW[OF \<open>i < w\<close>, of n] show ?thesis by simp
qed

lemma bit_byte_odd: "bit (b :: byte) k = odd (unat b div 2 ^ k)"
proof -
  have "bit b k = bit (unat b) k" by (simp add: bit_unsigned_iff)
  also have "\<dots> = odd (unat b div 2 ^ k)" by (rule bit_iff_odd)
  finally show ?thesis .
qed

lemma beNat_bit:
  "i < 8 * length bs \<Longrightarrow>
     odd (beNat bs div 2 ^ (8 * length bs - 1 - i)) = bit (bs ! (i div 8)) (7 - i mod 8)"
proof (induction bs rule: rev_induct)
  case Nil
  then show ?case by simp
next
  case (snoc b bs)
  let ?L = "length bs"
  let ?N = "beNat bs * 256 + unat b"
  show ?case
  proof (cases "i < 8 * ?L")
    case True
    define k where "k = 8 * ?L - 1 - i"
    from True have e: "8 * length (bs @ [b]) - 1 - i = 8 + k" by (simp add: k_def)
    have "?N div 2 ^ (8 + k) = ?N div 256 div 2 ^ k"
      by (simp add: power_add div_mult2_eq)
    also have "?N div 256 = beNat bs" using unat_byte_lt[of b] by simp
    finally have d: "?N div 2 ^ (8 + k) = beNat bs div 2 ^ k" .
    from True have "i div 8 < ?L" by simp
    then have n: "(bs @ [b]) ! (i div 8) = bs ! (i div 8)" by (simp add: nth_append)
    from snoc.IH[OF True] show ?thesis
      unfolding e n beNat_snoc d by (simp add: k_def)
  next
    case False
    define j where "j = i - 8 * ?L"
    from False snoc.prems have j: "j < 8" "i = 8 * ?L + j" by (simp_all add: j_def)
    from j have e: "8 * length (bs @ [b]) - 1 - i = 7 - j" by simp
    from j have n: "i div 8 = ?L" "i mod 8 = j" by simp_all
    have p: "(256 :: nat) = 2 ^ Suc j * 2 ^ (7 - j)"
    proof -
      from j(1) have "Suc j + (7 - j) = 8" by simp
      then have "(2 :: nat) ^ Suc j * 2 ^ (7 - j) = 2 ^ 8" by (simp flip: power_add)
      then show ?thesis by simp
    qed
    define A D where "A = beNat bs * 2 ^ Suc j" and "D = (2 :: nat) ^ (7 - j)"
    have D: "D \<noteq> 0" by (simp add: D_def)
    have A: "even A" by (simp add: A_def)
    have N: "?N = A * D + unat b" unfolding A_def D_def by (subst p) (simp only: mult.assoc)
    have "?N div D = A + unat b div D" unfolding N by (rule div_mult_self3[OF D])
    with A have "odd (?N div D) = odd (unat b div D)" by simp
    then have "odd (?N div 2 ^ (7 - j)) = odd (unat b div 2 ^ (7 - j))" by (simp only: D_def)
    then show ?thesis
      unfolding e n beNat_snoc by (simp add: bit_byte_odd)
  qed
qed

lemma at_take: "(at (take k xs) i = Some c) = (i < k \<and> i < length xs \<and> xs ! i = c)"
  by (auto simp: at_def)

lemma parseInt_hexByte: "parseInt 16 (hexByte u) = Some (int (unat u))"
  using parseInt_bytesToHex[of "[u]"] by (simp add: bytesToHex_def beNat_def)

lemma keyUsage_rawHex:
  "bytesToHex (0x03 # l # u # bs) = ''03'' @ hexByte l @ hexByte u @ bytesToHex bs"
  by (simp add: bytesToHex_def hexByte_def hexDigit_def)

lemma hexByte_pair: "\<exists>a b. hexByte x = [a, b]"
  by (simp add: hexByte_def)

lemma keyUsage_bits:
  assumes "bs \<noteq> []" "length bs \<le> 6"
  shows "padStart0 (length (bytesToHex bs) * 4) (numberToBinary (parseInt 16 (bytesToHex bs)))
           = binW (8 * length bs) (beNat bs)"
proof -
  have "(256 :: nat) ^ length bs \<le> 256 ^ 6"
    using assms(2) by (intro power_increasing) simp_all
  with beNat_bound[of bs] have small: "beNat bs < 2 ^ 53" by simp
  have "(256 :: nat) ^ length bs = 2 ^ (8 * length bs)"
    by (simp add: power_mult)
  with beNat_bound[of bs] have fits: "beNat bs < 2 ^ (8 * length bs)" by simp
  from assms(1) have w: "0 < 8 * length bs" by simp
  have l: "length (bytesToHex bs) * 4 = 8 * length bs"
    by (simp add: bytesToHex_def hexByte_def length_concat comp_def sum_list_triv)
  have "numberToBinary (parseInt 16 (bytesToHex bs)) = digitsOf 2 (beNat bs)"
    by (simp add: parseInt_bytesToHex[OF assms(1)] numberToBinary_def roundDouble_exact[OF small]
          natToString_def)
  with padStart0_digitsOf[OF w fits] show ?thesis by (simp add: l)
qed

lemma parseKeyUsage_small:
  assumes raw: "rawHex v = bytesToHex (0x03 # l # u # bs)" and len: "length bs \<le> 6"
  shows "parseKeyUsage (Some (PrimitiveNode t ln v off fh)) = keyUsageFlags (unat u) bs"
proof -
  obtain a b c d where lu: "hexByte l = [a, b]" "hexByte u = [c, d]"
    using hexByte_pair[of l] hexByte_pair[of u] by blast
  have r: "rawHex v = CHR ''0'' # CHR ''3'' # a # b # c # d # bytesToHex bs"
    by (simp add: raw keyUsage_rawHex lu)
  have u: "parseInt 16 [c, d] = Some (int (unat u))"
    using parseInt_hexByte[of u] by (simp add: lu)
  have "at (substringTo
              (padStart0 (length (bytesToHex bs) * 4) (numberToBinary (parseInt 16 (bytesToHex bs))))
              (Some (int (length (padStart0 (length (bytesToHex bs) * 4)
                                   (numberToBinary (parseInt 16 (bytesToHex bs))))) - int (unat u))))
           i = Some (CHR ''1'')
          = (i < 8 * length bs - unat u \<and> bitAt bs i)" for i
  proof (cases "bs = []")
    case True
    have "parseInt 16 [] = None" by (simp add: parseInt_def)
    then show ?thesis
      by (auto simp: True bytesToHex_def numberToBinary_def padStart0_def substringTo_def at_take
            nth_Cons' bitAt_def split: if_splits)
  next
    case False
    note b = keyUsage_bits[OF False len]
    have k: "nat (int (8 * length bs) - int (unat u)) = 8 * length bs - unat u"
      by (simp only: nat_diff_distrib' of_nat_0_le_iff nat_int)
    show ?thesis
      unfolding b length_binW substringTo_def option.case k at_take
      using binW_one[of i "8 * length bs" "beNat bs"] beNat_bit[of i bs]
      by (auto simp: bitAt_def)
  qed
  then show ?thesis
    by (simp add: parseKeyUsage_def getRawHex_def orElse_def r sliceStr_def u Let_def
          keyUsageFlags_def)
qed

text \<open>
  Claim C8. For every keyUsage value, an OCTET STRING wrapping a DER BIT STRING, the flag
  of bit \<open>i\<close> is set iff bit \<open>i\<close> of the bit string without its unused bits is 1, most
  significant bit first. The code turns the hex digits of the data into a number with
  \<^verbatim>\<open>parseInt(bitsHex, 16)\<close> and the number into binary digits: a number is a double, and
  beyond 53 bits it is rounded. For the bit string of 56 ones the number \<open>2 ^ 56 - 1\<close> is
  rounded to \<open>2 ^ 56\<close>, whose binary digits are a one and 56 zeros: the code sets
  \<^verbatim>\<open>digitalSignature\<close> alone, where all nine bits are 1. Bit strings of up to six data
  bytes, among them the example of the claim with the one data byte \<open>80\<close>, are decoded as
  the claim says (lemmas \<open>parseKeyUsage_small\<close>, \<open>signatureUsage_flags\<close> and
  \<open>signatureUsage_expected\<close>).
\<close>

theorem wide_key_usage_loses_bits:
  "parseElement [0x04, 0x0A, 0x03, 0x08, 0x00, 0xFF, 0xFF, 0xFF, 0xFF, 0xFF, 0xFF, 0xFF] 0
     = Inr (wideUsage, 12)
   \<and> parseKeyUsage (Some wideUsage) =
       [(''digitalSignature'', True), (''nonRepudiation'', False), (''keyEncipherment'', False),
        (''dataEncipherment'', False), (''keyAgreement'', False), (''keyCertSign'', False),
        (''cRLSign'', False), (''encipherOnly'', False), (''decipherOnly'', False)]
   \<and> keyUsageFlags 0 [0xFF, 0xFF, 0xFF, 0xFF, 0xFF, 0xFF, 0xFF] =
       [(''digitalSignature'', True), (''nonRepudiation'', True), (''keyEncipherment'', True),
        (''dataEncipherment'', True), (''keyAgreement'', True), (''keyCertSign'', True),
        (''cRLSign'', True), (''encipherOnly'', True), (''decipherOnly'', True)]"
  using parse_wideUsage wideUsage_flags wideUsage_expected by simp

section \<open>basicConstraints\<close>

text \<open>
  The value of a basicConstraints extension with \<^verbatim>\<open>cA = TRUE\<close> and no path length is the
  OCTET STRING \<^verbatim>\<open>04 05\<close> wrapping the DER bytes \<^verbatim>\<open>30 03 01 01 FF\<close>. The decoder returns
  it as a primitive node, the wrapped bytes being its raw hex.
\<close>

definition caTrueValue :: node where
  "caTrueValue =
     PrimitiveNode
       \<lparr>tagNumber = 4, tagHex = ''04'', tagCls = UNIVERSAL, tagConstructed = False,
        tagType = ''OCTET STRING''\<rparr>
       \<lparr>lengthValue = 5, lengthEncodedHex = ''05''\<rparr>
       \<lparr>rawHex = ''30030101ff'', base64 = Some ''MAMBAf8='', decoded = None\<rparr> 0
       ''040530030101ff''"

lemma parse_caTrueValue:
  "parseElement [0x04, 0x05, 0x30, 0x03, 0x01, 0x01, 0xFF] 0 = Inr (caTrueValue, 7)"
  by (simp add: parse_eval caTrueValue_def)

text \<open>
  \<^verbatim>\<open>parseBasicConstraints\<close> looks for children of the value node and never decodes its
  raw hex, as its siblings do through \<^verbatim>\<open>parseASN1FromRawHex\<close>: for a primitive value
  node, which is what every DER extension value is, the result is the empty object.
\<close>

lemma parseBasicConstraints_primitive:
  "parseBasicConstraints rt (Some (PrimitiveNode t l v off fh))
     = Inr \<lparr>cA = None, pathLenConstraint = None\<rparr>"
  by (simp add: parseBasicConstraints_def valueOf_def bindE_def items_def at_def)

text \<open>
  The shape that the function does read is a value node with children, the first of
  them holding the fields: the same bytes under the constructed tag \<^verbatim>\<open>24\<close>. There
  \<^verbatim>\<open>cA = TRUE\<close> is found and the path length is absent; with an empty SEQUENCE
  (\<^verbatim>\<open>24 02 30 00\<close>) the property \<^verbatim>\<open>cA\<close> is not set at all.
\<close>

definition caTrueConstructed :: node where
  "caTrueConstructed =
     ConstructedNode
       \<lparr>tagNumber = 4, tagHex = ''24'', tagCls = UNIVERSAL, tagConstructed = True,
        tagType = ''OCTET STRING''\<rparr>
       \<lparr>lengthValue = 5, lengthEncodedHex = ''05''\<rparr>
       [ConstructedNode
          \<lparr>tagNumber = 16, tagHex = ''30'', tagCls = UNIVERSAL, tagConstructed = True,
           tagType = ''SEQUENCE''\<rparr>
          \<lparr>lengthValue = 3, lengthEncodedHex = ''03''\<rparr>
          [PrimitiveNode
             \<lparr>tagNumber = 1, tagHex = ''01'', tagCls = UNIVERSAL, tagConstructed = False,
              tagType = ''BOOLEAN''\<rparr>
             \<lparr>lengthValue = 1, lengthEncodedHex = ''01''\<rparr>
             \<lparr>rawHex = ''ff'', base64 = None, decoded = Some (DBool True)\<rparr> 4 ''0101ff'']
          2 ''30030101ff'']
       0 ''240530030101ff''"

definition caAbsentConstructed :: node where
  "caAbsentConstructed =
     ConstructedNode
       \<lparr>tagNumber = 4, tagHex = ''24'', tagCls = UNIVERSAL, tagConstructed = True,
        tagType = ''OCTET STRING''\<rparr>
       \<lparr>lengthValue = 2, lengthEncodedHex = ''02''\<rparr>
       [ConstructedNode
          \<lparr>tagNumber = 16, tagHex = ''30'', tagCls = UNIVERSAL, tagConstructed = True,
           tagType = ''SEQUENCE''\<rparr>
          \<lparr>lengthValue = 0, lengthEncodedHex = ''00''\<rparr> [] 2 ''3000'']
       0 ''24023000''"

lemma parseBasicConstraints_constructed:
  "parseElement [0x24, 0x05, 0x30, 0x03, 0x01, 0x01, 0xFF] 0 = Inr (caTrueConstructed, 7)"
  "parseBasicConstraints rt (Some caTrueConstructed)
     = Inr \<lparr>cA = Some True, pathLenConstraint = None\<rparr>"
  "parseElement [0x24, 0x02, 0x30, 0x00] 0 = Inr (caAbsentConstructed, 4)"
  "parseBasicConstraints rt (Some caAbsentConstructed)
     = Inr \<lparr>cA = None, pathLenConstraint = None\<rparr>"
  by (simp_all add: parse_eval caTrueConstructed_def caAbsentConstructed_def
        parseBasicConstraints_def valueOf_def bindE_def items_def at_def getDecoded_def
        reparseTime_def truthyOpt_def truthy_def)

text \<open>
  Claim C9. A basicConstraints value that encodes \<^verbatim>\<open>cA = TRUE\<close> without a path length
  decodes to \<^verbatim>\<open>{cA: true}\<close>, the path length absent; an absent \<^verbatim>\<open>cA\<close> is \<^verbatim>\<open>false\<close>.
  The code does not: for the extension value \<^verbatim>\<open>04 05 30 03 01 01 FF\<close>, as the decoder
  returns it, the result is the empty object, with no \<^verbatim>\<open>cA\<close> at all, both from
  \<^verbatim>\<open>parseBasicConstraints\<close> and through the dispatch on the OID 2.5.29.19.
\<close>

theorem basicConstraints_value_is_not_decoded:
  "parseElement [0x04, 0x05, 0x30, 0x03, 0x01, 0x01, 0xFF] 0 = Inr (caTrueValue, 7)
   \<and> parseBasicConstraints rt (Some caTrueValue) = Inr \<lparr>cA = None, pathLenConstraint = None\<rparr>
   \<and> parseKnownExtension rt (DString ''2.5.29.19'') (Some caTrueValue)
       = Inr (BasicConstraints \<lparr>cA = None, pathLenConstraint = None\<rparr>)"
proof -
  have b: "parseBasicConstraints rt (Some caTrueValue)
             = Inr \<lparr>cA = None, pathLenConstraint = None\<rparr>"
    unfolding caTrueValue_def by (rule parseBasicConstraints_primitive)
  then have "parseKnownExtension rt (DString ''2.5.29.19'') (Some caTrueValue)
       = Inr (BasicConstraints \<lparr>cA = None, pathLenConstraint = None\<rparr>)"
    by (simp add: parseKnownExtension_def wrap_def bindE_def)
  with parse_caTrueValue b show ?thesis by simp
qed

section \<open>The type name of a node\<close>

text \<open>
  \<open>labelled n\<close>: the node \<open>n\<close> and every node below it carry the type name that
  \<^verbatim>\<open>tagToType\<close> gives to their tag number.
\<close>

fun labelled :: "node \<Rightarrow> bool" where
  "labelled (ConstructedNode t l cs off fh) =
     (tagType t = tagToType (tagNumber t) \<and> list_all labelled cs)"
| "labelled (PrimitiveNode t l v off fh) = (tagType t = tagToType (tagNumber t))"

lemma tagToType_SEQUENCE: "(tagToType k = ''SEQUENCE'') = (k = 16)"
  by (simp add: tagToType_def universalTypeNames_def)

lemma parse_labelled:
  "(\<forall>n off'. parseElement buf off = Inr (n, off') \<longrightarrow> labelled n)"
  "(list_all labelled acc \<longrightarrow>
     (\<forall>cs off'. parseChildren buf e off2 acc = Inr (cs, off') \<longrightarrow> list_all labelled cs))"
proof (induction buf off and buf e off2 acc rule: parseElement_parseChildren.induct)
  case (1 buf startOffset)
  show ?case
  proof (intro allI impI)
    fix n off'
    assume pe: "parseElement buf startOffset = Inr (n, off')"
    then obtain h where rh: "readHeader buf startOffset = Inr h"
      by (subst (asm) parseElement.simps) (auto split: sum.splits)
    show "labelled n"
    proof (cases "hTagByte h AND 0x20 \<noteq> 0")
      case True
      with pe rh obtain cs where
        pc: "parseChildren buf (int (hContentStart h) + hLengthValue h) (hContentStart h) [] = Inr (cs, off')"
        and n: "n = ConstructedNode (headerTag h True) (headerLength buf h) cs (hStartOffset h)
                  (bytesToHex (bufferSlice buf (int (hStartOffset h))
                     (int (hContentStart h) + hLengthValue h)))"
        by (subst (asm) parseElement.simps) (auto simp: Let_def split: sum.splits)
      from 1[OF rh True refl] pc have "list_all labelled cs" by simp
      with n show ?thesis by (simp add: headerTag_def)
    next
      case False
      with pe rh have "parsePrimitive buf h = Inr (n, off')"
        by (subst (asm) parseElement.simps) simp
      then show ?thesis
        by (auto simp: parsePrimitive_def headerTag_def split: sum.splits)
    qed
  qed
next
  case (2 buf endOffset off acc)
  show ?case
  proof (intro allI impI)
    fix cs off'
    assume acc: "list_all labelled acc"
      and pc: "parseChildren buf endOffset off acc = Inr (cs, off')"
    show "list_all labelled cs"
    proof (cases "int off < endOffset")
      case False
      with pc have "cs = acc" by (subst (asm) parseChildren.simps) simp
      with acc show ?thesis by simp
    next
      case True
      with pc obtain n off1 where pe: "parseElement buf off = Inr (n, off1)"
        and rest: "parseChildren buf endOffset off1 (acc @ [n]) = Inr (cs, off')"
        by (subst (asm) parseChildren.simps) (auto split: sum.splits)
      from 2(1)[OF True] pe have "labelled n" by simp
      with acc have "list_all labelled (acc @ [n])" by simp
      with 2(2)[OF True pe refl] rest show ?thesis by simp
    qed
  qed
qed

lemma labelled_root: "labelled n \<Longrightarrow> tagType (nodeTag n) = tagToType (tagNumber (nodeTag n))"
  by (cases n) simp_all

text \<open>The bytes \<^verbatim>\<open>B0 02 F0 00\<close> decoded: a context-specific node holding a private one.\<close>

definition contextSequence :: node where
  "contextSequence =
     ConstructedNode
       \<lparr>tagNumber = 16, tagHex = ''b0'', tagCls = CONTEXT_SPECIFIC, tagConstructed = True,
        tagType = ''SEQUENCE''\<rparr>
       \<lparr>lengthValue = 2, lengthEncodedHex = ''02''\<rparr>
       [ConstructedNode
          \<lparr>tagNumber = 16, tagHex = ''f0'', tagCls = PRIVATE, tagConstructed = True,
           tagType = ''SEQUENCE''\<rparr>
          \<lparr>lengthValue = 0, lengthEncodedHex = ''00''\<rparr> [] 2 ''f000'']
       0 ''b002f000''"

lemma parse_contextSequence: "parseElement [0xB0, 0x02, 0xF0, 0x00] 0 = Inr (contextSequence, 4)"
  unfolding contextSequence_def by code_simp

text \<open>
  Claim C10, amended. Every node that the decoder returns, at any depth, carries the type
  name \<open>tagToType\<close> of its tag number: the name is a function of the number alone,
  whatever the class and the constructed bit of the tag. The name is \<^verbatim>\<open>SEQUENCE\<close> exactly
  for the number 16. The mapper rejects a root with the structural error exactly when
  the name is not \<^verbatim>\<open>SEQUENCE\<close> or the value is not an array of children: a root with the
  tag number 16 passes that check, in every class, if and only if its value is an array
  of children.
\<close>

theorem type_name_follows_tag_number:
  assumes "parseElement buf off = Inr (n, off')"
  shows "labelled n
    \<and> (tagType (nodeTag n) = ''SEQUENCE'') = (tagNumber (nodeTag n) = 16)
    \<and> (parseX509Certificate rt n = Inl InvalidCertificateStructure)
        = (\<not> (tagNumber (nodeTag n) = 16 \<and> isArrayValue n))"
proof -
  from parse_labelled(1)[of buf off] assms have l: "labelled n" by blast
  from labelled_root[OF l] have s: "(tagType (nodeTag n) = ''SEQUENCE'') = (tagNumber (nodeTag n) = 16)"
    by (simp add: tagToType_SEQUENCE)
  from l s show ?thesis by (simp add: root_check)
qed

theorem type_name_follows_tag_number_witness:
  "parseElement [0xB0, 0x02, 0xF0, 0x00] 0 = Inr (contextSequence, 4)
   \<and> labelled contextSequence
   \<and> parseX509Certificate (\<lambda>r. True) contextSequence \<noteq> Inl InvalidCertificateStructure"
proof -
  note t = type_name_follows_tag_number[OF parse_contextSequence, of "\<lambda>r. True"]
  have "tagNumber (nodeTag contextSequence) = 16" "isArrayValue contextSequence"
    by (simp_all add: contextSequence_def isArrayValue_def)
  with t parse_contextSequence show ?thesis by blast
qed

text \<open>
  The claim as stated lets every node with the tag number 16 pass the check of the root.
  The bytes \<^verbatim>\<open>90 00\<close> are a primitive context-specific element with the tag number 16: the
  decoder labels it \<^verbatim>\<open>SEQUENCE\<close>, its value is the leaf object, and the mapper rejects it
  with the structural error of line 112.
\<close>

definition primitiveSequence :: node where
  "primitiveSequence =
     PrimitiveNode
       \<lparr>tagNumber = 16, tagHex = ''90'', tagCls = CONTEXT_SPECIFIC, tagConstructed = False,
        tagType = ''SEQUENCE''\<rparr>
       \<lparr>lengthValue = 0, lengthEncodedHex = ''00''\<rparr>
       \<lparr>rawHex = [], base64 = None, decoded = None\<rparr> 0 ''9000''"

theorem primitive_tag_16_fails_root_check:
  "parseElement [0x90, 0x00] 0 = Inr (primitiveSequence, 2)
   \<and> tagNumber (nodeTag primitiveSequence) = 16
   \<and> tagType (nodeTag primitiveSequence) = ''SEQUENCE''
   \<and> (\<forall>rt. parseX509Certificate rt primitiveSequence = Inl InvalidCertificateStructure)"
  by (simp add: parse_eval primitiveSequence_def parseX509Certificate_def isArrayValue_def)

end
